theory Spec2Isabelle
  imports Main "HOL-Library.Word" "HOL-Library.Char_ord" "HOL-Library.List_Lexorder"
begin

unbundle bit_operations_syntax

section \<open>Package emission: dependency inference and archive assembly\<close>

text \<open>
  A shallow embedding of \<^verbatim>\<open>pkg/build/package.go\<close>.  Go strings are byte sequences and
  are modelled as \<^typ>\<open>string\<close>; their comparison is the bytewise lexicographic order,
  which is the order of \<^verbatim>\<open>Char_ord\<close> lifted to lists by \<^verbatim>\<open>List_Lexorder\<close>.
\<close>

subsection \<open>Library functions used by the package\<close>

text \<open>
  The functions of Go's standard library that the file calls, modelled after their
  documented behaviour on Unix: \<^verbatim>\<open>strings.HasPrefix\<close>, \<^verbatim>\<open>strings.Index\<close>,
  \<^verbatim>\<open>strings.Contains\<close>, \<^verbatim>\<open>strings.Split\<close>, \<^verbatim>\<open>filepath.Base\<close>, \<^verbatim>\<open>filepath.Clean\<close>,
  \<^verbatim>\<open>filepath.Join\<close>, the \<^verbatim>\<open>%d\<close> verb of \<^verbatim>\<open>fmt.Sprintf\<close> and \<^verbatim>\<open>hex.EncodeToString\<close>.
\<close>

definition HasPrefix :: "string \<Rightarrow> string \<Rightarrow> bool" where
  "HasPrefix s p = (length p \<le> length s \<and> take (length p) s = p)"

text \<open>\<^verbatim>\<open>strings.Index\<close>: the position of the first occurrence, \<^verbatim>\<open>-1\<close> is \<^term>\<open>None\<close>.\<close>

fun Index :: "string \<Rightarrow> string \<Rightarrow> nat option" where
  "Index [] sub = (if sub = [] then Some 0 else None)"
| "Index (c # cs) sub =
     (if HasPrefix (c # cs) sub then Some 0 else map_option Suc (Index cs sub))"

definition Contains :: "string \<Rightarrow> string \<Rightarrow> bool" where
  "Contains s sub = (Index s sub \<noteq> None)"

text \<open>
  \<^verbatim>\<open>strings.Split(s, sep)\<close>: cut at each successive first occurrence of \<^verbatim>\<open>sep\<close>.  With an
  empty separator Go splits after each UTF-8 sequence; the model splits after each byte
  there, which is the same on ASCII text, and the package never passes an empty separator.
\<close>

function Split :: "string \<Rightarrow> string \<Rightarrow> string list" where
  "Split s sep =
     (if sep = [] then map (\<lambda>c. [c]) s
      else case Index s sep of
             None \<Rightarrow> [s]
           | Some m \<Rightarrow> take m s # Split (drop (m + length sep) s) sep)"
  by pat_completeness auto
termination
proof (relation "measure (\<lambda>(s, sep). length s)")
  show "wf (measure (\<lambda>(s, sep). length s))" by simp
next
  fix s sep :: string and m :: nat
  assume sep: "sep \<noteq> []" and idx: "Index s sep = Some m"
  from sep idx have "s \<noteq> []" by (cases s) (auto split: if_splits)
  with sep show "((drop (m + length sep) s, sep), (s, sep)) \<in> measure (\<lambda>(s, sep). length s)"
    by (cases s; cases sep) auto
qed

declare Split.simps [simp del]

text \<open>\<^verbatim>\<open>filepath.Base\<close>: the last element of the path, after trailing slashes are removed.\<close>

definition Base :: "string \<Rightarrow> string" where
  "Base path =
     (if path = [] then ''.''
      else let stripped = rev (dropWhile (\<lambda>c. c = CHR ''/'') (rev path));
               lastelem = rev (takeWhile (\<lambda>c. c \<noteq> CHR ''/'') (rev stripped))
           in if lastelem = [] then ''/'' else lastelem)"

text \<open>The elements of a path between its slashes.\<close>

fun path_elems :: "string \<Rightarrow> string \<Rightarrow> string list" where
  "path_elems cur [] = [cur]"
| "path_elems cur (c # cs) =
     (if c = CHR ''/'' then cur # path_elems [] cs else path_elems (cur @ [c]) cs)"

fun join_slash :: "string list \<Rightarrow> string" where
  "join_slash [] = []"
| "join_slash [e] = e"
| "join_slash (e # es) = e @ ''/'' @ join_slash es"

text \<open>
  \<^verbatim>\<open>filepath.Clean\<close>, element by element: empty elements and \<^verbatim>\<open>.\<close> are dropped, \<^verbatim>\<open>..\<close>
  removes the element before it when there is one to remove, is dropped at the root, and
  is kept at the start of a relative path.
\<close>

definition clean_elem :: "bool \<Rightarrow> string list \<Rightarrow> string \<Rightarrow> string list" where
  "clean_elem rooted out e =
     (if e = [] \<or> e = ''.'' then out
      else if e = ''..'' then
        (if out \<noteq> [] \<and> last out \<noteq> ''..'' then butlast out
         else if rooted then out else out @ [e])
      else out @ [e])"

definition Clean :: "string \<Rightarrow> string" where
  "Clean path =
     (if path = [] then ''.''
      else let rooted = (hd path = CHR ''/'');
               out = foldl (clean_elem rooted) [] (path_elems [] path)
           in if rooted then ''/'' @ join_slash out
              else if out = [] then ''.'' else join_slash out)"

text \<open>\<^verbatim>\<open>filepath.Join\<close>: leading empty elements are ignored, the rest joined and cleaned.\<close>

definition Join :: "string list \<Rightarrow> string" where
  "Join elem =
     (case dropWhile (\<lambda>e. e = []) elem of
        [] \<Rightarrow> []
      | es \<Rightarrow> Clean (join_slash es))"

text \<open>The decimal digits that \<^verbatim>\<open>%d\<close> prints for an unsigned and for a signed integer.\<close>

fun decimal :: "nat \<Rightarrow> string" where
  "decimal n =
     (if n < 10 then [''0123456789'' ! n]
      else decimal (n div 10) @ [''0123456789'' ! (n mod 10)])"

declare decimal.simps [simp del]

definition decimal_int :: "int \<Rightarrow> string" where
  "decimal_int i = (if i < 0 then ''-'' @ decimal (nat (- i)) else decimal (nat i))"

text \<open>\<^verbatim>\<open>hex.EncodeToString\<close>: two lower-case hexadecimal digits for each byte.\<close>

definition hexdigit :: "nat \<Rightarrow> char" where
  "hexdigit n = ''0123456789abcdef'' ! n"

definition EncodeToString :: "string \<Rightarrow> string" where
  "EncodeToString src =
     concat (map (\<lambda>b. [hexdigit (of_char b div 16), hexdigit (of_char b mod 16)]) src)"

subsection \<open>dedup\<close>

text \<open>
  The loop of \<^verbatim>\<open>dedup\<close>: \<^verbatim>\<open>prev\<close> is the last element kept, \<^verbatim>\<open>out\<close> the slice built so far.
\<close>

fun dedup_loop :: "string \<Rightarrow> string list \<Rightarrow> string list \<Rightarrow> string list" where
  "dedup_loop prev out [] = out"
| "dedup_loop prev out (cur # rest) =
     (if cur = prev then dedup_loop prev out rest
      else dedup_loop cur (out @ [cur]) rest)"

text \<open>
  \<^verbatim>\<open>sort.Strings(in)\<close> followed by the loop; \<^verbatim>\<open>var prev string\<close> starts as the empty string.
\<close>

definition dedup :: "string list \<Rightarrow> string list" where
  "dedup inp = dedup_loop [] [] (sort inp)"

subsection \<open>Data model\<close>

text \<open>
  Go's \<^verbatim>\<open>error\<close> values: one raised by the environment, or one wrapped by
  \<^verbatim>\<open>fmt.Errorf("...: %w", err)\<close> with the message of the stage that failed.
\<close>

datatype error = Err string | Wrapped string error

record Dependencies =
  Runtime :: "string list"
  Provides :: "string list"

record Copyright =
  License :: string

text \<open>
  The fields of \<^verbatim>\<open>Package\<close>, \<^verbatim>\<open>Subpackage\<close> and \<^verbatim>\<open>Context\<close> that this file reads (their
  declarations live elsewhere in the package).  \<^verbatim>\<open>Epoch\<close> is an unsigned integer.
  \<^verbatim>\<open>Arch\<close> holds the architecture token that \<^verbatim>\<open>Arch.ToAPK()\<close> returns.
\<close>

record Package =
  Name :: string
  Version :: string
  Epoch :: nat
  Description :: string
  Copyrights :: "Copyright list"
  pkg_Dependencies :: Dependencies

record Subpackage =
  sub_Name :: string
  sub_Dependencies :: Dependencies

record Context =
  Configuration_Package :: Package
  WorkspaceDir :: string
  ctx_OutDir :: string
  Arch :: string
  SigningKey :: string
  SigningPassphrase :: string
  SourceDateEpoch :: int

text \<open>
  \<^verbatim>\<open>PackageContext\<close>.  \<^verbatim>\<open>Context\<close> and \<^verbatim>\<open>Origin\<close> are pointers that the emission only
  reads; the logger is left out, since logging changes nothing that is returned or stored.
\<close>

record PackageContext =
  Context :: Context
  Origin :: Package
  PackageName :: string
  InstalledSize :: "64 word"
  DataHash :: string
  OutDir :: string
  pc_Dependencies :: Dependencies

definition Identity :: "PackageContext \<Rightarrow> string" where
  "Identity pc =
     PackageName pc @ ''-'' @ Version (Origin pc) @ ''-r'' @ decimal (Epoch (Origin pc))"

definition Filename :: "PackageContext \<Rightarrow> string" where
  "Filename pc = OutDir pc @ ''/'' @ Identity pc @ ''.apk''"

definition WorkspaceSubdir :: "PackageContext \<Rightarrow> string" where
  "WorkspaceSubdir pc = Join [WorkspaceDir (Context pc), ''melange-out'', PackageName pc]"

definition SignatureName :: "PackageContext \<Rightarrow> string" where
  "SignatureName pc = ''.SIGN.RSA.'' @ Base (SigningKey (Context pc)) @ ''.pub''"

subsection \<open>The file tree and its walk\<close>

text \<open>
  \<^verbatim>\<open>fs.FileMode\<close> is a 32-bit word: the type bits and the nine permission bits.
\<close>

type_synonym FileMode = "32 word"

definition ModeDir :: FileMode where "ModeDir = push_bit 31 1"
definition ModeSymlink :: FileMode where "ModeSymlink = push_bit 27 1"
definition ModeDevice :: FileMode where "ModeDevice = push_bit 26 1"
definition ModeNamedPipe :: FileMode where "ModeNamedPipe = push_bit 25 1"
definition ModeSocket :: FileMode where "ModeSocket = push_bit 24 1"
definition ModeCharDevice :: FileMode where "ModeCharDevice = push_bit 21 1"
definition ModeIrregular :: FileMode where "ModeIrregular = push_bit 19 1"

definition ModeType :: FileMode where
  "ModeType = ModeDir OR ModeSymlink OR ModeNamedPipe OR ModeSocket OR ModeDevice
                OR ModeCharDevice OR ModeIrregular"

text \<open>\<^verbatim>\<open>ModePerm = 0777\<close> (octal), that is \<open>511\<close>.\<close>

definition ModePerm :: FileMode where "ModePerm = 511"

definition IsRegular :: "FileMode \<Rightarrow> bool" where
  "IsRegular m = (m AND ModeType = 0)"

definition Perm :: "FileMode \<Rightarrow> FileMode" where
  "Perm m = m AND ModePerm"

record FileInfo =
  Mode :: FileMode
  Size :: "64 word"

text \<open>
  One call that \<^verbatim>\<open>fs.WalkDir\<close> makes to its callback: the path, the error the walk itself
  hands over (if any), and what \<^verbatim>\<open>d.Info()\<close> returns for the entry.
\<close>

datatype visit = Visit (vpath: string) (verr: "error option") (vinfo: "error + FileInfo")

text \<open>What \<^verbatim>\<open>elf.Open\<close> followed by \<^verbatim>\<open>ImportedLibraries\<close> gives for a path.\<close>

datatype elf_result = NotELF error | LibsError error | Libs "string list"

text \<open>
  \<^verbatim>\<open>fs.WalkDir\<close> over the calls it would make: it stops with the first error a callback
  returns.  The callback works on a state that it may have changed before it failed.
  (None of the callbacks of this file returns \<^verbatim>\<open>SkipDir\<close>.)
\<close>

fun WalkDir :: "(visit \<Rightarrow> 's \<Rightarrow> error option \<times> 's) \<Rightarrow> visit list \<Rightarrow> 's \<Rightarrow> error option \<times> 's" where
  "WalkDir fn [] s = (None, s)"
| "WalkDir fn (v # vs) s =
     (case fn v s of
        (Some e, s') \<Rightarrow> (Some e, s')
      | (None, s') \<Rightarrow> WalkDir fn vs s')"

text \<open>A visit that brings no error: neither from the walk nor from \<^verbatim>\<open>d.Info()\<close>.\<close>

definition visit_ok :: "visit \<Rightarrow> bool" where
  "visit_ok v = (verr v = None \<and> \<not> isl (vinfo v))"

subsection \<open>The environment\<close>

text \<open>
  An abstract filesystem handed to the archive writer: the directory tree under a root,
  or an in-memory filesystem given by its entries (name, contents, permission bits).
\<close>

datatype fsys = DirFS string | MemFS "(string \<times> string \<times> FileMode) list"

text \<open>The options of \<^verbatim>\<open>tarball.NewContext\<close> that the package sets.\<close>

record tar_opts =
  opt_SourceDateEpoch :: int
  opt_UID :: nat
  opt_GID :: nat
  opt_Uname :: string
  opt_Gname :: string
  opt_UseChecksums :: bool
  opt_SkipClose :: bool

text \<open>The calls of \<^verbatim>\<open>EmitPackage\<close> whose failure is decided by the environment alone.\<close>

datatype site =
    NewContextData | SeekData | NewContextControl | ExecuteTemplate | WriteFileControl
  | SeekControl | WriteFileSignature | SeekSignature | MkdirAllOutDir | CreateOutFile
  | CreateTempAt string

text \<open>
  Everything outside the package that its functions consult: the walk of a directory
  tree, the ELF reader, the archive writer of \<^verbatim>\<open>apko\<close> (the chunks it writes for a
  filesystem, and the error it reports after them, if any), the signer, the two digest
  functions, the directory and the random digits of \<^verbatim>\<open>os.CreateTemp\<close>, the number of
  bytes a file may grow to before a write to it fails, and the failures of the
  remaining calls.
\<close>

record world =
  walkdir :: "string \<Rightarrow> visit list"
  elf_open :: "string \<Rightarrow> elf_result"
  WriteArchive_chunks :: "tar_opts \<Rightarrow> fsys \<Rightarrow> string list \<times> error option"
  RSASignSHA1Digest :: "string \<Rightarrow> string \<Rightarrow> string \<Rightarrow> error + string"
  sha256_Sum :: "string \<Rightarrow> string"
  sha1_Sum :: "string \<Rightarrow> string"
  TempDir :: string
  nextRandom :: "string \<Rightarrow> string"
  capacity :: "string \<Rightarrow> nat option"
  fault :: "site \<Rightarrow> error option"

subsection \<open>Dependency generators\<close>

text \<open>The loop that appends one \<^verbatim>\<open>so:\<close> entry to \<^verbatim>\<open>Runtime\<close> for each imported library.\<close>

fun append_libs :: "string list \<Rightarrow> Dependencies \<Rightarrow> Dependencies" where
  "append_libs [] generated = generated"
| "append_libs (lib # libs) generated =
     append_libs libs (generated\<lparr>Runtime := Runtime generated @ [''so:'' @ lib]\<rparr>)"

text \<open>The callback of \<^verbatim>\<open>generateCmdProviders\<close>; \<open>365\<close> is \<^verbatim>\<open>0555\<close>.\<close>

definition cmd_visit :: "PackageContext \<Rightarrow> visit \<Rightarrow> Dependencies \<Rightarrow> error option \<times> Dependencies" where
  "cmd_visit pc v generated =
     (case verr v of
        Some err \<Rightarrow> (Some err, generated)
      | None \<Rightarrow>
         (case vinfo v of
            Inl err \<Rightarrow> (Some err, generated)
          | Inr fi \<Rightarrow>
             (let mode = Mode fi in
              if \<not> IsRegular mode then (None, generated)
              else if Perm mode AND 365 = 365 \<and> Contains (vpath v) ''bin'' then
                (let basename = Base (vpath v) in
                 (None, generated\<lparr>Provides := Provides generated @
                    [''cmd:'' @ basename @ ''='' @ Version (Origin pc) @ ''-r''
                       @ decimal (Epoch (Origin pc))]\<rparr>))
              else (None, generated))))"

definition generateCmdProviders :: "world \<Rightarrow> PackageContext \<Rightarrow> Dependencies \<Rightarrow> error option \<times> Dependencies" where
  "generateCmdProviders w pc generated =
     WalkDir (cmd_visit pc) (walkdir w (WorkspaceSubdir pc)) generated"

text \<open>The \<^verbatim>\<open>Provides\<close> part of the callback of \<^verbatim>\<open>generateSharedObjectNameDeps\<close>.\<close>

definition so_provides :: "string \<Rightarrow> Dependencies \<Rightarrow> Dependencies" where
  "so_provides basename generated =
     (if Contains basename ''.so.'' then
        (let parts = Split basename ''.so.'';
             libver = (if length parts > 1 then parts ! 1 else ''0'')
         in generated\<lparr>Provides := Provides generated @ [''so:'' @ basename @ ''='' @ libver]\<rparr>)
      else generated)"

text \<open>
  The callback of \<^verbatim>\<open>generateSharedObjectNameDeps\<close>: every error of the ELF reader ends
  the visit with \<^verbatim>\<open>nil\<close>.
\<close>

definition so_visit :: "world \<Rightarrow> PackageContext \<Rightarrow> visit \<Rightarrow> Dependencies \<Rightarrow> error option \<times> Dependencies" where
  "so_visit w pc v generated =
     (case verr v of
        Some err \<Rightarrow> (Some err, generated)
      | None \<Rightarrow>
         (case vinfo v of
            Inl err \<Rightarrow> (Some err, generated)
          | Inr fi \<Rightarrow>
             (let mode = Mode fi in
              if \<not> IsRegular mode then (None, generated)
              else if Perm mode AND 365 = 365 then
                (let basename = Base (vpath v);
                     generated' = so_provides basename generated
                 in case elf_open w (Join [WorkspaceSubdir pc, vpath v]) of
                      NotELF err \<Rightarrow> (None, generated')
                    | LibsError err \<Rightarrow> (None, generated')
                    | Libs libs \<Rightarrow> (None, append_libs libs generated'))
              else (None, generated))))"

definition generateSharedObjectNameDeps :: "world \<Rightarrow> PackageContext \<Rightarrow> Dependencies \<Rightarrow> error option \<times> Dependencies" where
  "generateSharedObjectNameDeps w pc generated =
     WalkDir (so_visit w pc) (walkdir w (WorkspaceSubdir pc)) generated"

text \<open>The loop over the generators: the first error ends it.\<close>

fun run_generators ::
  "(PackageContext \<Rightarrow> Dependencies \<Rightarrow> error option \<times> Dependencies) list
     \<Rightarrow> PackageContext \<Rightarrow> Dependencies \<Rightarrow> error option \<times> Dependencies" where
  "run_generators [] pc generated = (None, generated)"
| "run_generators (gen # gens) pc generated =
     (case gen pc generated of
        (Some err, generated') \<Rightarrow> (Some err, generated')
      | (None, generated') \<Rightarrow> run_generators gens pc generated')"

definition GenerateDependencies :: "world \<Rightarrow> PackageContext \<Rightarrow> error option \<times> PackageContext" where
  "GenerateDependencies w pc =
     (case run_generators [generateSharedObjectNameDeps w, generateCmdProviders w] pc
             \<lparr>Runtime = [], Provides = []\<rparr> of
        (Some err, generated) \<Rightarrow> (Some err, pc)
      | (None, generated) \<Rightarrow>
          (let newruntime = Runtime (pc_Dependencies pc) @ Runtime generated;
               newprovides = Provides (pc_Dependencies pc) @ Provides generated
           in (None, pc\<lparr>pc_Dependencies :=
                  \<lparr>Runtime = dedup newruntime, Provides = dedup newprovides\<rparr>\<rparr>)))"

subsection \<open>Control record\<close>

text \<open>
  \<^verbatim>\<open>controlTemplate\<close> executed on a package context.  The template starts with a line
  break; each \<^verbatim>\<open>{{-\<close> removes the line break before it, so every \<^verbatim>\<open>range\<close> body
  contributes a line break followed by its line, and the text ends with a line break.
  \<^verbatim>\<open>InstalledSize\<close> is an \<^verbatim>\<open>int64\<close> and prints signed.
\<close>

definition GenerateControlData :: "PackageContext \<Rightarrow> string" where
  "GenerateControlData pc =
     ''\<newline># Generated by melange.''
     @ ''\<newline>pkgname = '' @ PackageName pc
     @ ''\<newline>pkgver = '' @ Version (Origin pc) @ ''-r'' @ decimal (Epoch (Origin pc))
     @ ''\<newline>arch = x86_64''
     @ ''\<newline>size = '' @ decimal_int (sint (InstalledSize pc))
     @ ''\<newline>pkgdesc = '' @ Description (Origin pc)
     @ concat (map (\<lambda>copyright. ''\<newline>license = '' @ License copyright) (Copyrights (Origin pc)))
     @ concat (map (\<lambda>dep. ''\<newline>depend = '' @ dep) (Runtime (pc_Dependencies pc)))
     @ concat (map (\<lambda>dep. ''\<newline>provides = '' @ dep) (Provides (pc_Dependencies pc)))
     @ ''\<newline>datahash = '' @ DataHash pc @ ''\<newline>''"

subsection \<open>Files and handles\<close>

text \<open>
  Persistent storage maps a path to the bytes of the file there.  An open file is an
  index into \<^verbatim>\<open>handles\<close>, where its path and its offset are kept; a closed one leaves
  \<^term>\<open>None\<close> behind.
\<close>

record os_state =
  files :: "string \<rightharpoonup> string"
  handles :: "(string \<times> nat) option list"

definition handle_of :: "os_state \<Rightarrow> nat \<Rightarrow> (string \<times> nat) option" where
  "handle_of s h = (if h < length (handles s) then handles s ! h else None)"

definition contents :: "os_state \<Rightarrow> string \<Rightarrow> string" where
  "contents s name = (case files s name of None \<Rightarrow> [] | Some d \<Rightarrow> d)"

text \<open>The handles that are open, in the order they were opened.\<close>

definition open_handles :: "os_state \<Rightarrow> nat list" where
  "open_handles s = filter (\<lambda>h. handles s ! h \<noteq> None) [0..<length (handles s)]"

text \<open>
  \<^verbatim>\<open>os.CreateTemp("", pattern)\<close>: the name is the temporary directory, the pattern's text
  before its last \<^verbatim>\<open>*\<close>, random digits, and the text after it; the file is created
  exclusively, empty, and opened at offset 0.  (Go tries further random names when the
  name exists; here the environment's choice is the last one tried.)
\<close>

definition prefixAndSuffix :: "string \<Rightarrow> string \<times> string" where
  "prefixAndSuffix pattern =
     (if CHR ''*'' \<in> set pattern then
        (rev (tl (dropWhile (\<lambda>c. c \<noteq> CHR ''*'') (rev pattern))),
         rev (takeWhile (\<lambda>c. c \<noteq> CHR ''*'') (rev pattern)))
      else (pattern, []))"

definition joinPath :: "string \<Rightarrow> string \<Rightarrow> string" where
  "joinPath dir name =
     (if dir \<noteq> [] \<and> last dir = CHR ''/'' then dir @ name else dir @ ''/'' @ name)"

definition temp_name :: "world \<Rightarrow> string \<Rightarrow> string" where
  "temp_name w pattern =
     (case prefixAndSuffix pattern of
        (prefix, suffix) \<Rightarrow> joinPath (TempDir w) prefix @ nextRandom w pattern @ suffix)"

definition CreateTemp :: "world \<Rightarrow> string \<Rightarrow> os_state \<Rightarrow> (error + nat) \<times> os_state" where
  "CreateTemp w pattern s =
     (case fault w (CreateTempAt pattern) of
        Some err \<Rightarrow> (Inl err, s)
      | None \<Rightarrow>
          (let name = temp_name w pattern in
           if files s name \<noteq> None then (Inl (Err ''file exists''), s)
           else (Inr (length (handles s)),
                 s\<lparr>files := (files s)(name \<mapsto> []), handles := handles s @ [Some (name, 0)]\<rparr>)))"

text \<open>\<^verbatim>\<open>os.Create\<close>: create or truncate, opened at offset 0.\<close>

definition Create :: "world \<Rightarrow> string \<Rightarrow> os_state \<Rightarrow> (error + nat) \<times> os_state" where
  "Create w name s =
     (case fault w CreateOutFile of
        Some err \<Rightarrow> (Inl err, s)
      | None \<Rightarrow>
          (Inr (length (handles s)),
           s\<lparr>files := (files s)(name \<mapsto> []), handles := handles s @ [Some (name, 0)]\<rparr>))"

text \<open>\<^verbatim>\<open>Close\<close> releases the handle; the file stays where it is.\<close>

definition Close :: "nat \<Rightarrow> os_state \<Rightarrow> os_state" where
  "Close h s = s\<lparr>handles := (handles s)[h := None]\<rparr>"

text \<open>\<^verbatim>\<open>Seek(0, io.SeekStart)\<close>.\<close>

definition Seek_start :: "world \<Rightarrow> site \<Rightarrow> nat \<Rightarrow> os_state \<Rightarrow> error option \<times> os_state" where
  "Seek_start w st h s =
     (case handle_of s h of
        None \<Rightarrow> (Some (Err ''file already closed''), s)
      | Some (name, off) \<Rightarrow>
          (case fault w st of
             Some err \<Rightarrow> (Some err, s)
           | None \<Rightarrow> (None, s\<lparr>handles := (handles s)[h := Some (name, 0)]\<rparr>)))"

text \<open>
  Writing \<^verbatim>\<open>p\<close> at offset \<^verbatim>\<open>off\<close> of a file (a gap before the offset reads as zero bytes).
\<close>

definition overwrite :: "string \<Rightarrow> nat \<Rightarrow> string \<Rightarrow> string" where
  "overwrite old off p =
     take off (old @ replicate (off - length old) (CHR 0x00)) @ p @ drop (off + length p) old"

text \<open>
  \<^verbatim>\<open>(*os.File).Write\<close>: the bytes go to the file at the handle's offset.  When the file
  may not grow as far as the write needs, the bytes that fit are written and the write
  fails.
\<close>

definition Write :: "world \<Rightarrow> nat \<Rightarrow> string \<Rightarrow> os_state \<Rightarrow> error option \<times> os_state" where
  "Write w h p s =
     (case handle_of s h of
        None \<Rightarrow> (Some (Err ''file already closed''), s)
      | Some (name, off) \<Rightarrow>
          (let fits = (case capacity w name of
                         None \<Rightarrow> length p
                       | Some cap \<Rightarrow> min (length p) (cap - off));
               s' = s\<lparr>files := (files s)(name \<mapsto> overwrite (contents s name) off (take fits p)),
                       handles := (handles s)[h := Some (name, off + fits)]\<rparr>
           in if fits < length p then (Some (Err ''no space left on device''), s')
              else (None, s')))"

text \<open>
  \<^verbatim>\<open>io.MultiWriter(digest, file)\<close>: each write goes to the digest first and then to the
  file.  The digest is kept as the bytes it has been fed; its \<^verbatim>\<open>Sum\<close> is the hash of them.
\<close>

definition MultiWrite :: "world \<Rightarrow> nat \<Rightarrow> string \<Rightarrow> string \<times> os_state \<Rightarrow> error option \<times> string \<times> os_state" where
  "MultiWrite w h p ds =
     (case ds of (digest, s) \<Rightarrow>
        (case Write w h p s of (err, s') \<Rightarrow> (err, digest @ p, s')))"

text \<open>
  \<^verbatim>\<open>WriteArchive\<close> on a writer: the chunks of the archive are written in turn, the first
  failed write ends it, and the archive writer's own error comes after its chunks.
\<close>

fun write_chunks :: "(string \<Rightarrow> 'st \<Rightarrow> error option \<times> 'st) \<Rightarrow> string list \<Rightarrow> 'st \<Rightarrow> error option \<times> 'st" where
  "write_chunks wr [] st = (None, st)"
| "write_chunks wr (p # ps) st =
     (case wr p st of
        (Some err, st') \<Rightarrow> (Some err, st')
      | (None, st') \<Rightarrow> write_chunks wr ps st')"

definition WriteArchive ::
  "world \<Rightarrow> tar_opts \<Rightarrow> (string \<Rightarrow> 'st \<Rightarrow> error option \<times> 'st) \<Rightarrow> fsys \<Rightarrow> 'st \<Rightarrow> error option \<times> 'st" where
  "WriteArchive w opts wr fsys st =
     (case WriteArchive_chunks w opts fsys of
        (chunks, end_err) \<Rightarrow>
          (case write_chunks wr chunks st of
             (Some err, st') \<Rightarrow> (Some err, st')
           | (None, st') \<Rightarrow> (end_err, st')))"

text \<open>
  \<^verbatim>\<open>io.Copy(out, input)\<close>: everything from the input's offset to its end is read and
  written to \<^verbatim>\<open>out\<close>.
\<close>

definition Copy :: "world \<Rightarrow> nat \<Rightarrow> nat \<Rightarrow> os_state \<Rightarrow> error option \<times> os_state" where
  "Copy w out inp s =
     (case handle_of s inp of
        None \<Rightarrow> (Some (Err ''file already closed''), s)
      | Some (name, off) \<Rightarrow>
          (let d = contents s name
           in Write w out (drop off d)
                (s\<lparr>handles := (handles s)[inp := Some (name, max off (length d))]\<rparr>)))"

fun combine :: "world \<Rightarrow> nat \<Rightarrow> nat list \<Rightarrow> os_state \<Rightarrow> error option \<times> os_state" where
  "combine w out [] s = (None, s)"
| "combine w out (inp # inputs) s =
     (case Copy w out inp s of
        (Some err, s') \<Rightarrow> (Some err, s')
      | (None, s') \<Rightarrow> combine w out inputs s')"

subsection \<open>EmitPackage\<close>

text \<open>The callback of the first walk: the size of every entry is added to the counter.\<close>

definition size_visit :: "visit \<Rightarrow> PackageContext \<Rightarrow> error option \<times> PackageContext" where
  "size_visit v pc =
     (case verr v of
        Some err \<Rightarrow> (Some err, pc)
      | None \<Rightarrow>
         (case vinfo v of
            Inl err \<Rightarrow> (Some err, pc)
          | Inr fi \<Rightarrow> (None, pc\<lparr>InstalledSize := InstalledSize pc + Size fi\<rparr>)))"

definition sizing :: "world \<Rightarrow> PackageContext \<Rightarrow> error option \<times> PackageContext" where
  "sizing w pc = WalkDir size_visit (walkdir w (WorkspaceSubdir pc)) pc"

text \<open>The two archive configurations; \<open>420\<close> below is the permission \<^verbatim>\<open>0644\<close>.\<close>

definition tarctx :: "PackageContext \<Rightarrow> tar_opts" where
  "tarctx pc =
     \<lparr>opt_SourceDateEpoch = SourceDateEpoch (Context pc), opt_UID = 0, opt_GID = 0,
      opt_Uname = ''root'', opt_Gname = ''root'', opt_UseChecksums = True,
      opt_SkipClose = False\<rparr>"

definition multitarctx :: "PackageContext \<Rightarrow> tar_opts" where
  "multitarctx pc =
     \<lparr>opt_SourceDateEpoch = SourceDateEpoch (Context pc), opt_UID = 0, opt_GID = 0,
      opt_Uname = ''root'', opt_Gname = ''root'', opt_UseChecksums = False,
      opt_SkipClose = True\<rparr>"

text \<open>
  ``Build the final tarball'': the output directory, the output file, and the copy of
  the parts into it.  The output file is closed when the function returns.
\<close>

definition EmitPackage_assemble :: "world \<Rightarrow> PackageContext \<Rightarrow> nat list \<Rightarrow> os_state \<Rightarrow> error option \<times> os_state" where
  "EmitPackage_assemble w pc combinedParts s =
     (case fault w MkdirAllOutDir of
        Some err \<Rightarrow> (Some (Wrapped ''unable to create output directory'' err), s)
      | None \<Rightarrow>
         (case Create w (Filename pc) s of
            (Inl err, s1) \<Rightarrow> (Some (Wrapped ''unable to create apk file'' err), s1)
          | (Inr outFile, s1) \<Rightarrow>
              (case combine w outFile combinedParts s1 of
                 (Some err, s2) \<Rightarrow>
                   (Some (Wrapped ''unable to write apk file'' err), Close outFile s2)
               | (None, s2) \<Rightarrow> (None, Close outFile s2))))"

text \<open>
  The branch taken when a signing key is configured, followed by the assembly with
  the signature segment in front.  \<^verbatim>\<open>controlDigest\<close> holds the bytes the control digest was
  fed.  The signature's temporary file is closed when the function returns.
\<close>

definition EmitPackage_signature :: "world \<Rightarrow> PackageContext \<Rightarrow> string \<Rightarrow> nat \<Rightarrow> nat \<Rightarrow> os_state \<Rightarrow> error option \<times> os_state" where
  "EmitPackage_signature w pc controlDigest controlTarGz dataTarGz s =
     (case RSASignSHA1Digest w (sha1_Sum w controlDigest) (SigningKey (Context pc))
             (SigningPassphrase (Context pc)) of
        Inl err \<Rightarrow> (Some (Wrapped ''unable to generate signature'' err), s)
      | Inr signatureBuf \<Rightarrow>
         (case fault w WriteFileSignature of
            Some err \<Rightarrow> (Some (Wrapped ''unable to build signature FS'' err), s)
          | None \<Rightarrow>
             (let signatureFS = MemFS [(SignatureName pc, signatureBuf, 420)] in
              case CreateTemp w ''melange-signature-*.tar.gz'' s of
                (Inl err, s1) \<Rightarrow>
                  (Some (Wrapped ''unable to open temporary file for writing'' err), s1)
              | (Inr signatureTarGz, s1) \<Rightarrow>
                 (case (case WriteArchive w (multitarctx pc) (Write w signatureTarGz) signatureFS s1 of
                          (Some err, s2) \<Rightarrow>
                            (Some (Wrapped ''unable to write signature tarball'' err), s2)
                        | (None, s2) \<Rightarrow>
                           (case Seek_start w SeekSignature signatureTarGz s2 of
                              (Some err, s3) \<Rightarrow>
                                (Some (Wrapped ''unable to rewind signature tarball'' err), s3)
                            | (None, s3) \<Rightarrow>
                                EmitPackage_assemble w pc
                                  [signatureTarGz, controlTarGz, dataTarGz] s3)) of
                    (r, s') \<Rightarrow> (r, Close signatureTarGz s')))))"

text \<open>
  ``Prepare control.tar.gz'' and what follows it.  The control record is rendered from
  the context as it is now, with its final dependencies, size and data hash.  The
  control segment's temporary file is closed when the function returns.
\<close>

definition EmitPackage_control :: "world \<Rightarrow> PackageContext \<Rightarrow> nat \<Rightarrow> os_state \<Rightarrow> error option \<times> os_state" where
  "EmitPackage_control w pc dataTarGz s =
     (case fault w NewContextControl of
        Some err \<Rightarrow> (Some (Wrapped ''unable to build tarball context'' err), s)
      | None \<Rightarrow>
     (case fault w ExecuteTemplate of
        Some err \<Rightarrow> (Some (Wrapped ''unable to process control template'' err), s)
      | None \<Rightarrow>
     (let controlBuf = GenerateControlData pc in
      case fault w WriteFileControl of
        Some err \<Rightarrow> (Some (Wrapped ''unable to build control FS'' err), s)
      | None \<Rightarrow>
     (let controlFS = MemFS [(''.PKGINFO'', controlBuf, 420)] in
      case CreateTemp w ''melange-control-*.tar.gz'' s of
        (Inl err, s1) \<Rightarrow> (Some (Wrapped ''unable to open temporary file for writing'' err), s1)
      | (Inr controlTarGz, s1) \<Rightarrow>
         (case (case WriteArchive w (multitarctx pc) (MultiWrite w controlTarGz) controlFS ([], s1) of
                  (Some err, controlDigest, s2) \<Rightarrow>
                    (Some (Wrapped ''unable to write control tarball'' err), s2)
                | (None, controlDigest, s2) \<Rightarrow>
                   (case Seek_start w SeekControl controlTarGz s2 of
                      (Some err, s3) \<Rightarrow>
                        (Some (Wrapped ''unable to rewind control tarball'' err), s3)
                    | (None, s3) \<Rightarrow>
                       (if SigningKey (Context pc) \<noteq> [] then
                          EmitPackage_signature w pc controlDigest controlTarGz dataTarGz s3
                        else EmitPackage_assemble w pc [controlTarGz, dataTarGz] s3))) of
            (r, s') \<Rightarrow> (r, Close controlTarGz s'))))))"

text \<open>
  From the first archive context to the rewind of the data segment, then the rest.
  The context is changed through its pointer, so what was changed before a failure
  stays changed.
\<close>

definition EmitPackage_data :: "world \<Rightarrow> PackageContext \<Rightarrow> nat \<Rightarrow> os_state \<Rightarrow> error option \<times> PackageContext \<times> os_state" where
  "EmitPackage_data w pc dataTarGz s =
     (case fault w NewContextData of
        Some err \<Rightarrow> (Some (Wrapped ''unable to build tarball context'' err), pc, s)
      | None \<Rightarrow>
     (let fsys = DirFS (WorkspaceSubdir pc) in
      case sizing w pc of
        (Some err, pc1) \<Rightarrow> (Some (Wrapped ''unable to preprocess package data'' err), pc1, s)
      | (None, pc1) \<Rightarrow>
     (case GenerateDependencies w pc1 of
        (Some err, pc2) \<Rightarrow>
          (Some (Wrapped ''unable to build final dependencies set'' err), pc2, s)
      | (None, pc2) \<Rightarrow>
     (case WriteArchive w (tarctx pc2) (MultiWrite w dataTarGz) fsys ([], s) of
        (Some err, dataDigest, s1) \<Rightarrow>
          (Some (Wrapped ''unable to write data tarball'' err), pc2, s1)
      | (None, dataDigest, s1) \<Rightarrow>
     (let pc3 = pc2\<lparr>DataHash := EncodeToString (sha256_Sum w dataDigest)\<rparr> in
      case Seek_start w SeekData dataTarGz s1 of
        (Some err, s2) \<Rightarrow> (Some (Wrapped ''unable to rewind data tarball'' err), pc3, s2)
      | (None, s2) \<Rightarrow>
         (case EmitPackage_control w pc3 dataTarGz s2 of (r, s3) \<Rightarrow> (r, pc3, s3)))))))"

text \<open>
  \<^verbatim>\<open>EmitPackage\<close>: the data segment's temporary file is created first and closed when the
  function returns.
\<close>

definition EmitPackage :: "world \<Rightarrow> PackageContext \<Rightarrow> os_state \<Rightarrow> error option \<times> PackageContext \<times> os_state" where
  "EmitPackage w pc s =
     (case CreateTemp w ''melange-data-*.tar.gz'' s of
        (Inl err, s1) \<Rightarrow>
          (Some (Wrapped ''unable to open temporary file for writing'' err), pc, s1)
      | (Inr dataTarGz, s1) \<Rightarrow>
          (case EmitPackage_data w pc dataTarGz s1 of
             (r, pc', s') \<Rightarrow> (r, pc', Close dataTarGz s')))"

text \<open>\<^verbatim>\<open>Subpackage.Emit\<close> and \<^verbatim>\<open>Package.Emit\<close>: the context they build, and the emission.\<close>

definition Subpackage_context :: "Context \<Rightarrow> Subpackage \<Rightarrow> PackageContext" where
  "Subpackage_context ctx spkg =
     \<lparr>Context = ctx, Origin = Configuration_Package ctx, PackageName = sub_Name spkg,
      InstalledSize = 0, DataHash = [], OutDir = Join [ctx_OutDir ctx, Arch ctx],
      pc_Dependencies = sub_Dependencies spkg\<rparr>"

definition Subpackage_Emit :: "world \<Rightarrow> Context \<Rightarrow> Subpackage \<Rightarrow> os_state \<Rightarrow> error option \<times> PackageContext \<times> os_state" where
  "Subpackage_Emit w ctx spkg s = EmitPackage w (Subpackage_context ctx spkg) s"

definition Package_Emit :: "world \<Rightarrow> Context \<Rightarrow> Package \<Rightarrow> os_state \<Rightarrow> error option \<times> PackageContext \<times> os_state" where
  "Package_Emit w ctx pkg s =
     Subpackage_Emit w ctx \<lparr>sub_Name = Name pkg, sub_Dependencies = pkg_Dependencies pkg\<rparr> s"

subsection \<open>What an emission leaves behind\<close>

text \<open>
  The bytes of the three segments for a context: what the archive writer produces for
  the built tree, for the filesystem holding the control record, and for the
  filesystem holding the signature of the control segment's digest.
\<close>

definition data_segment :: "world \<Rightarrow> PackageContext \<Rightarrow> string" where
  "data_segment w pc =
     concat (fst (WriteArchive_chunks w (tarctx pc) (DirFS (WorkspaceSubdir pc))))"

definition control_segment :: "world \<Rightarrow> PackageContext \<Rightarrow> string" where
  "control_segment w pc =
     concat (fst (WriteArchive_chunks w (multitarctx pc)
       (MemFS [(''.PKGINFO'', GenerateControlData pc, 420)])))"

definition signature_of :: "world \<Rightarrow> PackageContext \<Rightarrow> error + string" where
  "signature_of w pc =
     RSASignSHA1Digest w (sha1_Sum w (control_segment w pc)) (SigningKey (Context pc))
       (SigningPassphrase (Context pc))"

definition signature_segment :: "world \<Rightarrow> PackageContext \<Rightarrow> string" where
  "signature_segment w pc =
     (case signature_of w pc of
        Inl err \<Rightarrow> []
      | Inr signatureBuf \<Rightarrow>
          concat (fst (WriteArchive_chunks w (multitarctx pc)
            (MemFS [(SignatureName pc, signatureBuf, 420)]))))"

text \<open>The names of the temporary files and which handles are open, as truth values.\<close>

definition data_temp :: "world \<Rightarrow> string" where
  "data_temp w = temp_name w ''melange-data-*.tar.gz''"

definition control_temp :: "world \<Rightarrow> string" where
  "control_temp w = temp_name w ''melange-control-*.tar.gz''"

definition signature_temp :: "world \<Rightarrow> string" where
  "signature_temp w = temp_name w ''melange-signature-*.tar.gz''"

definition handle_status :: "os_state \<Rightarrow> bool list" where
  "handle_status s = map (\<lambda>x. x \<noteq> None) (handles s)"

text \<open>
  Two relations between the state before and after: \<open>keeps\<close>, where the same handles
  are open and no file has gone; \<open>released\<close>, where moreover every handle opened in
  between has been closed again.
\<close>

definition keeps :: "os_state \<Rightarrow> os_state \<Rightarrow> bool" where
  "keeps s s' =
     (handle_status s' = handle_status s \<and> (\<forall>x. files s x \<noteq> None \<longrightarrow> files s' x \<noteq> None))"

definition released :: "os_state \<Rightarrow> os_state \<Rightarrow> bool" where
  "released s s' =
     ((\<exists>k. handle_status s' = handle_status s @ replicate k False) \<and>
      (\<forall>x. files s x \<noteq> None \<longrightarrow> files s' x \<noteq> None))"

text \<open>
  Whether a returned error carries one of the given stage messages, and the messages of
  the steps that come before the control segment's temporary file is asked for, before
  it exists, before the signature segment's file exists, and before the output file
  exists.
\<close>

fun failed_with :: "error option \<Rightarrow> string list \<Rightarrow> bool" where
  "failed_with (Some (Wrapped msg err)) msgs = (msg \<in> set msgs)"
| "failed_with r msgs = False"

definition before_control_temp :: "string list" where
  "before_control_temp =
     [''unable to build tarball context'', ''unable to preprocess package data'',
      ''unable to build final dependencies set'', ''unable to write data tarball'',
      ''unable to rewind data tarball'', ''unable to process control template'',
      ''unable to build control FS'']"

definition before_control_segment :: "string list" where
  "before_control_segment = ''unable to open temporary file for writing'' # before_control_temp"

definition before_signature_segment :: "string list" where
  "before_signature_segment =
     before_control_segment @
     [''unable to write control tarball'', ''unable to rewind control tarball'',
      ''unable to generate signature'', ''unable to build signature FS'']"

definition before_output_file :: "string list" where
  "before_output_file =
     before_signature_segment @
     [''unable to write signature tarball'', ''unable to rewind signature tarball'',
      ''unable to create output directory'', ''unable to create apk file'']"

text \<open>
  Following the words of the specification: the signature entry named after the base
  name of the public-key file.
\<close>

definition spec_SignatureName :: "string \<Rightarrow> string" where
  "spec_SignatureName public_key = ''.SIGN.RSA.'' @ Base public_key @ ''.pub''"

text \<open>
  Following the words of the specification: the entries of the command generator, one
  for every regular file with all of \<^verbatim>\<open>0555\<close> set whose path contains \<^verbatim>\<open>bin\<close>, in the
  order of the walk.
\<close>

definition spec_cmd_file :: "visit \<Rightarrow> bool" where
  "spec_cmd_file v =
     (case vinfo v of
        Inl err \<Rightarrow> False
      | Inr fi \<Rightarrow> IsRegular (Mode fi) \<and> Perm (Mode fi) AND 365 = 365 \<and> Contains (vpath v) ''bin'')"

definition spec_cmd_provides :: "PackageContext \<Rightarrow> visit list \<Rightarrow> string list" where
  "spec_cmd_provides pc vs =
     map (\<lambda>v. ''cmd:'' @ Base (vpath v) @ ''='' @ Version (Origin pc) @ ''-r''
                 @ decimal (Epoch (Origin pc)))
       (filter spec_cmd_file vs)"

text \<open>
  The context that a successful emission returns: the size and the dependencies as the
  first two stages leave them, and the hash of the data segment.
\<close>

definition emitted :: "world \<Rightarrow> PackageContext \<Rightarrow> PackageContext" where
  "emitted w pc =
     (snd (GenerateDependencies w (snd (sizing w pc))))
       \<lparr>DataHash := EncodeToString (sha256_Sum w (data_segment w pc))\<rparr>"

text \<open>
  The sum of the sizes of all visited entries, in 64-bit arithmetic, and, following the
  words of the specification, the sum of the sizes of the regular files only.
\<close>

definition visit_size :: "visit \<Rightarrow> 64 word" where
  "visit_size v = (case vinfo v of Inl err \<Rightarrow> 0 | Inr fi \<Rightarrow> Size fi)"

definition entries_size :: "visit list \<Rightarrow> 64 word" where
  "entries_size vs = sum_list (map visit_size vs)"

definition is_regular_visit :: "visit \<Rightarrow> bool" where
  "is_regular_visit v = (case vinfo v of Inl err \<Rightarrow> False | Inr fi \<Rightarrow> IsRegular (Mode fi))"

definition spec_installed_size :: "visit list \<Rightarrow> 64 word" where
  "spec_installed_size vs = sum_list (map visit_size (filter is_regular_visit vs))"

subsection \<open>A sample build\<close>

text \<open>
  A small built tree, used to run the definitions: a command that is an ELF executable,
  a shell script and a versioned shared library, below their directories.
  \<open>493\<close> is the mode \<^verbatim>\<open>0755\<close>.
\<close>

definition sample_dir :: FileInfo where
  "sample_dir = \<lparr>Mode = ModeDir OR 493, Size = 4096\<rparr>"

definition sample_tree :: "visit list" where
  "sample_tree =
     [Visit ''.'' None (Inr sample_dir),
      Visit ''bin'' None (Inr sample_dir),
      Visit ''bin/frobnicate'' None (Inr \<lparr>Mode = 493, Size = 10\<rparr>),
      Visit ''bin/run.sh'' None (Inr \<lparr>Mode = 493, Size = 20\<rparr>),
      Visit ''lib'' None (Inr sample_dir),
      Visit ''lib/libfoo.so.1.2'' None (Inr \<lparr>Mode = 493, Size = 30\<rparr>)]"

definition sample_elf :: "string \<Rightarrow> elf_result" where
  "sample_elf path =
     (if path = ''/ws/melange-out/foo/bin/frobnicate'' then Libs [''libfoo.so.1'', ''libc.so.6'']
      else if path = ''/ws/melange-out/foo/lib/libfoo.so.1.2'' then Libs [''libc.so.6'']
      else NotELF (Err ''bad magic number''))"

definition sample_chunks :: "tar_opts \<Rightarrow> fsys \<Rightarrow> string list \<times> error option" where
  "sample_chunks opts fsys =
     (case fsys of
        DirFS root \<Rightarrow> ([''data['', root, '']''], None)
      | MemFS entries \<Rightarrow>
          (concat (map (\<lambda>(name, d, perm). [''['', name, '':'', d, '']'']) entries), None))"

definition sample_world :: world where
  "sample_world =
     \<lparr>walkdir = (\<lambda>root. sample_tree),
      elf_open = sample_elf,
      WriteArchive_chunks = sample_chunks,
      RSASignSHA1Digest = (\<lambda>digest key passphrase. Inr (''signed<'' @ digest @ ''>'')),
      sha256_Sum = (\<lambda>bytes. take 4 (rev bytes)),
      sha1_Sum = (\<lambda>bytes. take 3 bytes),
      TempDir = ''/tmp'',
      nextRandom = (\<lambda>pattern. ''4711''),
      capacity = (\<lambda>name. None),
      fault = (\<lambda>st. None)\<rparr>"

definition sample_package :: Package where
  "sample_package =
     \<lparr>Name = ''foo'', Version = ''1.0'', Epoch = 3, Description = ''a sample'',
      Copyrights = [\<lparr>License = ''MIT''\<rparr>],
      pkg_Dependencies = \<lparr>Runtime = [''so:libc.so.6''], Provides = []\<rparr>\<rparr>"

definition sample_context :: "string \<Rightarrow> string \<Rightarrow> Context" where
  "sample_context arch key =
     \<lparr>Configuration_Package = sample_package, WorkspaceDir = ''/ws'',
      ctx_OutDir = ''packages'', Arch = arch, SigningKey = key,
      SigningPassphrase = [], SourceDateEpoch = 0\<rparr>"

definition sample_pc :: "string \<Rightarrow> string \<Rightarrow> PackageContext" where
  "sample_pc arch key =
     Subpackage_context (sample_context arch key)
       \<lparr>sub_Name = ''foo'', sub_Dependencies = pkg_Dependencies sample_package\<rparr>"

text \<open>
  A tree whose only library has no version after \<^verbatim>\<open>.so\<close>, and one whose library name
  contains \<^verbatim>\<open>.so.\<close> twice.
\<close>

definition unversioned_world :: world where
  "unversioned_world =
     sample_world\<lparr>walkdir := (\<lambda>root.
       [Visit ''.'' None (Inr sample_dir),
        Visit ''lib'' None (Inr sample_dir),
        Visit ''lib/libfoo.so'' None (Inr \<lparr>Mode = 493, Size = 30\<rparr>)])\<rparr>"

definition twice_versioned_world :: world where
  "twice_versioned_world =
     sample_world\<lparr>walkdir := (\<lambda>root.
       [Visit ''.'' None (Inr sample_dir),
        Visit ''lib'' None (Inr sample_dir),
        Visit ''lib/a.so.1.so.2'' None (Inr \<lparr>Mode = 493, Size = 30\<rparr>)])\<rparr>"

definition no_files :: os_state where
  "no_files = \<lparr>files = Map.empty, handles = []\<rparr>"

text \<open>
  A smaller tree with one plain file, and the same build on a disk where the output
  file cannot grow beyond ten bytes.
\<close>

definition tiny_world :: world where
  "tiny_world =
     sample_world\<lparr>walkdir := (\<lambda>root.
       [Visit ''.'' None (Inr sample_dir),
        Visit ''hello'' None (Inr \<lparr>Mode = 420, Size = 5\<rparr>)])\<rparr>"

definition full_disk_world :: world where
  "full_disk_world =
     tiny_world\<lparr>capacity := (\<lambda>name.
       if name = ''packages/aarch64/foo-1.0-r3.apk'' then Some 10 else None)\<rparr>"

section \<open>Properties\<close>

subsection \<open>dedup sorts and removes duplicates\<close>

lemma dedup_loop_acc: "dedup_loop prev out xs = out @ dedup_loop prev [] xs"
proof (induction xs arbitrary: prev out)
  case Nil
  show ?case by simp
next
  case (Cons cur rest)
  show ?case
    using Cons.IH [of prev out] Cons.IH [of cur "out @ [cur]"] Cons.IH [of cur "[cur]"]
    by simp
qed

lemma dedup_loop_set: "set (dedup_loop prev [] xs) \<subseteq> set xs"
proof (induction xs arbitrary: prev)
  case Nil
  show ?case by simp
next
  case (Cons cur rest)
  show ?case
    using Cons.IH [of prev] Cons.IH [of cur] dedup_loop_acc [of cur "[cur]" rest]
    by auto
qed

lemma dedup_loop_sorted: "sorted xs \<Longrightarrow> sorted (dedup_loop prev [] xs)"
proof (induction xs arbitrary: prev)
  case Nil
  show ?case by simp
next
  case (Cons cur rest)
  from Cons.prems have rest: "sorted rest" and le: "\<forall>y\<in>set rest. cur \<le> y"
    by simp_all
  show ?case
  proof (cases "cur = prev")
    case True
    with Cons.IH [OF rest] show ?thesis by simp
  next
    case False
    have "sorted (cur # dedup_loop cur [] rest)"
      using Cons.IH [OF rest, of cur] le dedup_loop_set [of cur rest] by auto
    with False show ?thesis
      using dedup_loop_acc [of cur "[cur]" rest] by simp
  qed
qed

lemma dedup_loop_not_prev: "sorted xs \<Longrightarrow> \<forall>y\<in>set xs. prev \<le> y \<Longrightarrow> prev \<notin> set (dedup_loop prev [] xs)"
proof (induction xs arbitrary: prev)
  case Nil
  show ?case by simp
next
  case (Cons cur rest)
  from Cons.prems have rest: "sorted rest" and le: "\<forall>y\<in>set rest. cur \<le> y"
    and ple: "prev \<le> cur" "\<forall>y\<in>set rest. prev \<le> y"
    by simp_all
  show ?case
  proof (cases "cur = prev")
    case True
    with Cons.IH [OF rest ple(2)] show ?thesis by simp
  next
    case False
    have "prev \<notin> set (dedup_loop cur [] rest)"
    proof
      assume "prev \<in> set (dedup_loop cur [] rest)"
      with dedup_loop_set [of cur rest] have "prev \<in> set rest" by auto
      with le have "cur \<le> prev" by simp
      with ple(1) False show False by simp
    qed
    with False show ?thesis
      using dedup_loop_acc [of cur "[cur]" rest] by auto
  qed
qed

lemma dedup_loop_distinct: "sorted xs \<Longrightarrow> distinct (dedup_loop prev [] xs)"
proof (induction xs arbitrary: prev)
  case Nil
  show ?case by simp
next
  case (Cons cur rest)
  from Cons.prems have rest: "sorted rest" and le: "\<forall>y\<in>set rest. cur \<le> y"
    by simp_all
  show ?case
  proof (cases "cur = prev")
    case True
    with Cons.IH [OF rest] show ?thesis by simp
  next
    case False
    have "distinct (cur # dedup_loop cur [] rest)"
      using Cons.IH [OF rest, of cur] dedup_loop_not_prev [OF rest le] by simp
    with False show ?thesis
      using dedup_loop_acc [of cur "[cur]" rest] by simp
  qed
qed

lemma dedup_sorted: "sorted (dedup inp)"
  by (simp add: dedup_def dedup_loop_sorted)

lemma dedup_distinct: "distinct (dedup inp)"
  by (simp add: dedup_def dedup_loop_distinct)

lemma dedup_loop_elems: "sorted xs \<Longrightarrow> \<forall>y\<in>set xs. prev \<le> y \<Longrightarrow> set (dedup_loop prev [] xs) = set xs - {prev}"
proof (induction xs arbitrary: prev)
  case Nil
  show ?case by simp
next
  case (Cons cur rest)
  from Cons.prems have rest: "sorted rest" and le: "\<forall>y\<in>set rest. cur \<le> y"
    and ple: "prev \<le> cur" "\<forall>y\<in>set rest. prev \<le> y"
    by simp_all
  show ?case
  proof (cases "cur = prev")
    case True
    with Cons.IH [OF rest ple(2)] show ?thesis by auto
  next
    case False
    have "prev \<notin> set rest" using le ple(1) False by auto
    with False Cons.IH [OF rest le] show ?thesis
      using dedup_loop_acc [of cur "[cur]" rest] by auto
  qed
qed

lemma dedup_set: "set (dedup inp) = set inp - {[]}"
  using dedup_loop_elems [of "sort inp" "[]"] by (simp add: dedup_def)


text \<open>
  C5.  Whatever list of dependency strings goes in, \<^verbatim>\<open>dedup\<close> returns a list that is
  sorted in the bytewise lexicographic order and has no element twice; the list
  \<^verbatim>\<open>["so:libc.so.6","so:libc.so.6","cmd:foo=1-r0"]\<close> becomes
  \<^verbatim>\<open>["cmd:foo=1-r0","so:libc.so.6"]\<close>.  When \<^verbatim>\<open>GenerateDependencies\<close> returns no error,
  \<^verbatim>\<open>Runtime\<close> and \<^verbatim>\<open>Provides\<close> of the context are \<^verbatim>\<open>dedup\<close> of the declared entries followed
  by the generated ones, hence sorted and free of duplicates.
\<close>

theorem merge_sorted_distinct:
  "sorted (dedup inp) \<and> distinct (dedup inp) \<and>
   dedup [''so:libc.so.6'', ''so:libc.so.6'', ''cmd:foo=1-r0'']
     = [''cmd:foo=1-r0'', ''so:libc.so.6''] \<and>
   (fst (GenerateDependencies w pc) = None \<longrightarrow>
      Runtime (pc_Dependencies (snd (GenerateDependencies w pc))) =
        dedup (Runtime (pc_Dependencies pc) @
          Runtime (snd (run_generators [generateSharedObjectNameDeps w, generateCmdProviders w] pc
            \<lparr>Runtime = [], Provides = []\<rparr>))) \<and>
      Provides (pc_Dependencies (snd (GenerateDependencies w pc))) =
        dedup (Provides (pc_Dependencies pc) @
          Provides (snd (run_generators [generateSharedObjectNameDeps w, generateCmdProviders w] pc
            \<lparr>Runtime = [], Provides = []\<rparr>))) \<and>
      sorted (Runtime (pc_Dependencies (snd (GenerateDependencies w pc)))) \<and>
      distinct (Runtime (pc_Dependencies (snd (GenerateDependencies w pc)))) \<and>
      sorted (Provides (pc_Dependencies (snd (GenerateDependencies w pc)))) \<and>
      distinct (Provides (pc_Dependencies (snd (GenerateDependencies w pc)))))"
proof (intro conjI impI)
  show "dedup [''so:libc.so.6'', ''so:libc.so.6'', ''cmd:foo=1-r0'']
     = [''cmd:foo=1-r0'', ''so:libc.so.6'']"
    by code_simp
next
  assume ok: "fst (GenerateDependencies w pc) = None"
  let ?g = "snd (run_generators [generateSharedObjectNameDeps w, generateCmdProviders w] pc
            \<lparr>Runtime = [], Provides = []\<rparr>)"
  from ok have deps: "pc_Dependencies (snd (GenerateDependencies w pc)) =
      \<lparr>Runtime = dedup (Runtime (pc_Dependencies pc) @ Runtime ?g),
       Provides = dedup (Provides (pc_Dependencies pc) @ Provides ?g)\<rparr>"
    by (auto simp: GenerateDependencies_def Let_def split: prod.splits option.splits)
  show "Runtime (pc_Dependencies (snd (GenerateDependencies w pc))) =
        dedup (Runtime (pc_Dependencies pc) @ Runtime ?g)"
    by (simp add: deps)
  show "Provides (pc_Dependencies (snd (GenerateDependencies w pc))) =
        dedup (Provides (pc_Dependencies pc) @ Provides ?g)"
    by (simp add: deps)
  show "sorted (Runtime (pc_Dependencies (snd (GenerateDependencies w pc))))"
    by (simp add: deps dedup_sorted)
  show "distinct (Runtime (pc_Dependencies (snd (GenerateDependencies w pc))))"
    by (simp add: deps dedup_distinct)
  show "sorted (Provides (pc_Dependencies (snd (GenerateDependencies w pc))))"
    by (simp add: deps dedup_sorted)
  show "distinct (Provides (pc_Dependencies (snd (GenerateDependencies w pc))))"
    by (simp add: deps dedup_distinct)
qed (simp_all add: dedup_sorted dedup_distinct)

theorem merge_sorted_distinct_witness:
  "fst (GenerateDependencies sample_world (sample_pc ''x86_64'' [])) = None \<and>
   pc_Dependencies (snd (GenerateDependencies sample_world (sample_pc ''x86_64'' []))) =
     \<lparr>Runtime = [''so:libc.so.6'', ''so:libfoo.so.1''],
      Provides = [''cmd:frobnicate=1.0-r3'', ''cmd:run.sh=1.0-r3'', ''so:libfoo.so.1.2=1.2'']\<rparr> \<and>
   sorted (Runtime (pc_Dependencies (snd (GenerateDependencies sample_world (sample_pc ''x86_64'' []))))) \<and>
   distinct (Provides (pc_Dependencies (snd (GenerateDependencies sample_world (sample_pc ''x86_64'' [])))))"
proof -
  let ?pc = "sample_pc ''x86_64'' []"
  have run: "GenerateDependencies sample_world ?pc =
      (None, ?pc\<lparr>pc_Dependencies :=
         \<lparr>Runtime = [''so:libc.so.6'', ''so:libfoo.so.1''],
          Provides = [''cmd:frobnicate=1.0-r3'', ''cmd:run.sh=1.0-r3'', ''so:libfoo.so.1.2=1.2'']\<rparr>\<rparr>)"
    by code_simp
  then have ok: "fst (GenerateDependencies sample_world ?pc) = None"
    by simp
  note merged = merge_sorted_distinct [of "[]" sample_world ?pc]
  from merged ok
  have s: "sorted (Runtime (pc_Dependencies (snd (GenerateDependencies sample_world ?pc))))"
    by blast
  from merged ok
  have d: "distinct (Provides (pc_Dependencies (snd (GenerateDependencies sample_world ?pc))))"
    by blast
  from run have v: "pc_Dependencies (snd (GenerateDependencies sample_world ?pc)) =
     \<lparr>Runtime = [''so:libc.so.6'', ''so:libfoo.so.1''],
      Provides = [''cmd:frobnicate=1.0-r3'', ''cmd:run.sh=1.0-r3'', ''so:libfoo.so.1.2=1.2'']\<rparr>"
    by simp
  from ok v s d show ?thesis by blast
qed

subsection \<open>The two generators\<close>

lemma IsRegular_493: "IsRegular 493"
  by (simp add: IsRegular_def ModeType_def ModeDir_def ModeSymlink_def ModeDevice_def
      ModeNamedPipe_def ModeSocket_def ModeCharDevice_def ModeIrregular_def)

lemma Perm_493: "Perm 493 AND 365 = 365"
  by (simp add: Perm_def ModePerm_def)

lemma append_libs_Provides: "Provides (append_libs libs g) = Provides g"
  by (induction libs arbitrary: g) simp_all

lemma append_libs_Runtime: "Runtime (append_libs libs g) = Runtime g @ map (\<lambda>lib. ''so:'' @ lib) libs"
  by (induction libs arbitrary: g) simp_all

lemma Split_no_sep: "sep \<noteq> [] \<Longrightarrow> Index s sep = None \<Longrightarrow> Split s sep = [s]"
  by (subst Split.simps) simp

lemma Split_at_sep:
  "sep \<noteq> [] \<Longrightarrow> Index s sep = Some m \<Longrightarrow>
     Split s sep = take m s # Split (drop (m + length sep) s) sep"
  by (subst Split.simps) simp

lemma Split_second:
  assumes "sep \<noteq> []" and "Index s sep = Some m"
  shows "Split s sep ! 1 =
           (case Index (drop (m + length sep) s) sep of
              None \<Rightarrow> drop (m + length sep) s
            | Some k \<Rightarrow> take k (drop (m + length sep) s))"
    and "1 < length (Split s sep)"
proof -
  let ?rest = "drop (m + length sep) s"
  have "Split ?rest sep \<noteq> []"
    using assms(1) by (subst Split.simps) (simp split: option.splits)
  then show "1 < length (Split s sep)"
    using assms by (simp add: Split_at_sep)
  show "Split s sep ! 1 = (case Index ?rest sep of None \<Rightarrow> ?rest | Some k \<Rightarrow> take k ?rest)"
  proof (cases "Index ?rest sep")
    case None
    with assms show ?thesis by (simp add: Split_at_sep Split_no_sep)
  next
    case (Some k)
    with assms show ?thesis
      by (simp add: Split_at_sep Split_at_sep [of sep ?rest k])
  qed
qed

lemma so_provides_versioned:
  assumes "Index basename ''.so.'' = Some m"
  shows "Provides (so_provides basename g) =
           Provides g @ [''so:'' @ basename @ ''='' @
             (case Index (drop (m + 4) basename) ''.so.'' of
                None \<Rightarrow> drop (m + 4) basename
              | Some k \<Rightarrow> take k (drop (m + 4) basename))]"
proof -
  have len: "m + length ''.so.'' = m + 4" by simp
  have sep: "''.so.'' \<noteq> []" by simp
  note second = Split_second [OF sep assms, unfolded len]
  show ?thesis
    using assms second by (simp add: so_provides_def Contains_def Let_def)
qed

lemma so_provides_other: "Index basename ''.so.'' = None \<Longrightarrow> so_provides basename g = g"
  by (simp add: so_provides_def Contains_def)

lemma so_visit_exec:
  assumes "IsRegular (Mode fi)" and "Perm (Mode fi) AND 365 = 365"
  shows "fst (so_visit w pc (Visit path None (Inr fi)) g) = None"
    and "Provides (snd (so_visit w pc (Visit path None (Inr fi)) g)) = Provides (so_provides (Base path) g)"
  using assms
  by (simp_all add: so_visit_def Let_def append_libs_Provides split: elf_result.splits)



lemma WalkDir_member:
  assumes mono: "\<And>u s. set (P s) \<subseteq> set (P (snd (fn u s)))"
    and adds: "\<And>s. x \<in> set (P (snd (fn v s)))"
    and v: "v \<in> set vs"
    and ok: "fst (WalkDir fn vs s) = None"
  shows "x \<in> set (P (snd (WalkDir fn vs s)))"
proof -
  have keep: "x \<in> set (P s) \<Longrightarrow> x \<in> set (P (snd (WalkDir fn us s)))" for us s
  proof (induction us arbitrary: s)
    case Nil
    then show ?case by simp
  next
    case (Cons u us)
    from Cons.prems mono [of s u] have "x \<in> set (P (snd (fn u s)))" by auto
    from Cons.IH [OF this] mono [of s u] Cons.prems show ?case
      by (cases "fn u s") (auto split: option.splits)
  qed
  from v ok show ?thesis
  proof (induction vs arbitrary: s)
    case Nil
    then show ?case by simp
  next
    case (Cons u us)
    from Cons.prems(2) obtain s' where step: "fn u s = (None, s')"
      by (cases "fn u s") (auto split: option.splits)
    with Cons.prems(2) have rest: "fst (WalkDir fn us s') = None" by simp
    show ?case
    proof (cases "u = v")
      case True
      with adds [of s] step have "x \<in> set (P s')" by simp
      from keep [OF this, of us] step show ?thesis by simp
    next
      case False
      with Cons.prems(1) have "v \<in> set us" by simp
      from Cons.IH [OF this rest] step show ?thesis by simp
    qed
  qed
qed



lemma cmd_visit_ok: "visit_ok v \<Longrightarrow> fst (cmd_visit pc v g) = None"
  by (cases v) (auto simp: visit_ok_def cmd_visit_def Let_def split: sum.splits)

lemma cmd_visit_bad: "\<not> visit_ok v \<Longrightarrow> fst (cmd_visit pc v g) \<noteq> None"
  by (cases v) (auto simp: visit_ok_def cmd_visit_def Let_def split: sum.splits option.splits)



lemma cmd_visit_mono: "set (Provides g) \<subseteq> set (Provides (snd (cmd_visit pc u g)))"
  by (cases u) (auto simp: cmd_visit_def Let_def split: sum.splits option.splits)

lemma so_provides_mono: "set (Provides g) \<subseteq> set (Provides (so_provides b g))"
  by (auto simp: so_provides_def Let_def)

lemma so_visit_mono: "set (Provides g) \<subseteq> set (Provides (snd (so_visit w pc u g)))"
  using so_provides_mono [of g "Base (vpath u)"]
  by (cases u) (auto simp: so_visit_def Let_def append_libs_Provides split: sum.splits option.splits elf_result.splits)


text \<open>
  C1.  The shared-object generator, run on three trees.  Where the only library is the
  executable regular file \<^verbatim>\<open>lib/libfoo.so\<close>, it returns no error and provides nothing:
  \<^verbatim>\<open>so:libfoo.so=0\<close> is not provided, since the branch that sets the version \<^verbatim>\<open>0\<close> lies
  behind the test for \<^verbatim>\<open>.so.\<close> and is never reached.  For \<^verbatim>\<open>lib/a.so.1.so.2\<close> it
  provides \<^verbatim>\<open>so:a.so.1.so.2=1\<close>: the version is cut at the second \<^verbatim>\<open>.so.\<close> and is not
  the text \<^verbatim>\<open>1.so.2\<close> that follows the first.  On the sample tree, for
  \<^verbatim>\<open>lib/libfoo.so.1.2\<close>, it provides \<^verbatim>\<open>so:libfoo.so.1.2=1.2\<close>.
\<close>

theorem so_generator_divergence:
  "generateSharedObjectNameDeps unversioned_world (sample_pc ''x86_64'' [])
       \<lparr>Runtime = [], Provides = []\<rparr>
     = (None, \<lparr>Runtime = [], Provides = []\<rparr>) \<and>
   ''so:libfoo.so=0'' \<notin> set (Provides (snd (generateSharedObjectNameDeps unversioned_world
       (sample_pc ''x86_64'' []) \<lparr>Runtime = [], Provides = []\<rparr>))) \<and>
   generateSharedObjectNameDeps twice_versioned_world (sample_pc ''x86_64'' [])
       \<lparr>Runtime = [], Provides = []\<rparr>
     = (None, \<lparr>Runtime = [], Provides = [''so:a.so.1.so.2=1'']\<rparr>) \<and>
   ''so:a.so.1.so.2=1.so.2'' \<notin> set (Provides (snd (generateSharedObjectNameDeps
       twice_versioned_world (sample_pc ''x86_64'' []) \<lparr>Runtime = [], Provides = []\<rparr>))) \<and>
   generateSharedObjectNameDeps sample_world (sample_pc ''x86_64'' [])
       \<lparr>Runtime = [], Provides = []\<rparr>
     = (None, \<lparr>Runtime = [''so:libfoo.so.1'', ''so:libc.so.6'', ''so:libc.so.6''],
               Provides = [''so:libfoo.so.1.2=1.2'']\<rparr>)"
proof -
  have one: "generateSharedObjectNameDeps unversioned_world (sample_pc ''x86_64'' [])
       \<lparr>Runtime = [], Provides = []\<rparr> = (None, \<lparr>Runtime = [], Provides = []\<rparr>)"
    by code_simp
  have two: "generateSharedObjectNameDeps twice_versioned_world (sample_pc ''x86_64'' [])
       \<lparr>Runtime = [], Provides = []\<rparr>
     = (None, \<lparr>Runtime = [], Provides = [''so:a.so.1.so.2=1'']\<rparr>)"
    by code_simp
  have three: "generateSharedObjectNameDeps sample_world (sample_pc ''x86_64'' [])
       \<lparr>Runtime = [], Provides = []\<rparr>
     = (None, \<lparr>Runtime = [''so:libfoo.so.1'', ''so:libc.so.6'', ''so:libc.so.6''],
               Provides = [''so:libfoo.so.1.2=1.2'']\<rparr>)"
    by code_simp
  show ?thesis
    by (simp add: one two three)
qed




lemma WalkDir_cmd_visit:
  assumes "\<forall>v\<in>set vs. visit_ok v"
  shows "WalkDir (cmd_visit pc) vs g =
           (None, g\<lparr>Provides := Provides g @ spec_cmd_provides pc vs\<rparr>)"
  using assms
proof (induction vs arbitrary: g)
  case Nil
  show ?case by (simp add: spec_cmd_provides_def)
next
  case (Cons v vs)
  from Cons.prems have ok: "visit_ok v" and rest: "\<forall>v\<in>set vs. visit_ok v"
    by simp_all
  from ok obtain path fi where v: "v = Visit path None (Inr fi)"
    by (cases v; cases "vinfo v") (auto simp: visit_ok_def)
  show ?case
  proof (cases "spec_cmd_file v")
    case True
    with v have "cmd_visit pc v g =
        (None, g\<lparr>Provides := Provides g @
           [''cmd:'' @ Base path @ ''='' @ Version (Origin pc) @ ''-r'' @ decimal (Epoch (Origin pc))]\<rparr>)"
      by (simp add: cmd_visit_def spec_cmd_file_def Let_def)
    with True v Cons.IH [OF rest] show ?thesis
      by (simp add: spec_cmd_provides_def)
  next
    case False
    with v have "cmd_visit pc v g = (None, g)"
      by (auto simp: cmd_visit_def spec_cmd_file_def Let_def)
    with False Cons.IH [OF rest] show ?thesis
      by (simp add: spec_cmd_provides_def)
  qed
qed

text \<open>
  C9.  On a regular file with all of \<^verbatim>\<open>0555\<close> set whose path contains \<^verbatim>\<open>bin\<close>, the callback
  of the command generator appends exactly \<^verbatim>\<open>cmd:<basename>=<version>-r<epoch>\<close> to
  \<^verbatim>\<open>Provides\<close> and returns no error.  When no visit of the walk brings an error, the
  generator returns no error, leaves \<^verbatim>\<open>Runtime\<close> as it is and appends to \<^verbatim>\<open>Provides\<close> exactly
  one such entry for every such file, in the order of the walk, and nothing else; so the
  entry of a file of the tree is among the \<^verbatim>\<open>Provides\<close> it returns.  The same holds whenever
  the generator returns no error.
\<close>

theorem cmd_provides:
  assumes "IsRegular (Mode fi)" and "Perm (Mode fi) AND 365 = 365" and "Contains path ''bin''"
  shows "cmd_visit pc (Visit path None (Inr fi)) g =
           (None, g\<lparr>Provides := Provides g @
              [''cmd:'' @ Base path @ ''='' @ Version (Origin pc) @ ''-r'' @ decimal (Epoch (Origin pc))]\<rparr>) \<and>
         ((\<forall>v\<in>set (walkdir w (WorkspaceSubdir pc)). visit_ok v) \<longrightarrow>
            generateCmdProviders w pc g =
              (None, g\<lparr>Provides := Provides g @
                 spec_cmd_provides pc (walkdir w (WorkspaceSubdir pc))\<rparr>)) \<and>
         ((\<forall>v\<in>set (walkdir w (WorkspaceSubdir pc)). visit_ok v) \<and>
          Visit path None (Inr fi) \<in> set (walkdir w (WorkspaceSubdir pc)) \<longrightarrow>
            fst (generateCmdProviders w pc g) = None \<and>
            ''cmd:'' @ Base path @ ''='' @ Version (Origin pc) @ ''-r'' @ decimal (Epoch (Origin pc))
              \<in> set (Provides (snd (generateCmdProviders w pc g)))) \<and>
         (Visit path None (Inr fi) \<in> set (walkdir w (WorkspaceSubdir pc)) \<and>
          fst (generateCmdProviders w pc g) = None \<longrightarrow>
            ''cmd:'' @ Base path @ ''='' @ Version (Origin pc) @ ''-r'' @ decimal (Epoch (Origin pc))
              \<in> set (Provides (snd (generateCmdProviders w pc g))))"
proof -
  let ?entry = "''cmd:'' @ Base path @ ''='' @ Version (Origin pc) @ ''-r'' @ decimal (Epoch (Origin pc))"
  let ?walk = "walkdir w (WorkspaceSubdir pc)"
  have step: "cmd_visit pc (Visit path None (Inr fi)) g = (None, g\<lparr>Provides := Provides g @ [?entry]\<rparr>)" for g
    using assms by (simp add: cmd_visit_def Let_def)
  have exact: "generateCmdProviders w pc g =
      (None, g\<lparr>Provides := Provides g @ spec_cmd_provides pc ?walk\<rparr>)"
    if "\<forall>v\<in>set ?walk. visit_ok v"
    unfolding generateCmdProviders_def using that by (rule WalkDir_cmd_visit)
  have member: "?entry \<in> set (Provides (snd (generateCmdProviders w pc g)))"
    if "Visit path None (Inr fi) \<in> set ?walk" and "fst (generateCmdProviders w pc g) = None"
    using that unfolding generateCmdProviders_def
    by (intro WalkDir_member [where P = Provides and v = "Visit path None (Inr fi)"] cmd_visit_mono)
      (simp_all add: step)
  have none: "fst (generateCmdProviders w pc g) = None" if "\<forall>v\<in>set ?walk. visit_ok v"
    using exact [OF that] by simp
  show ?thesis
  proof (intro conjI impI)
    show "cmd_visit pc (Visit path None (Inr fi)) g = (None, g\<lparr>Provides := Provides g @ [?entry]\<rparr>)"
      by (rule step)
  next
    assume "\<forall>v\<in>set ?walk. visit_ok v"
    then show "generateCmdProviders w pc g =
        (None, g\<lparr>Provides := Provides g @ spec_cmd_provides pc ?walk\<rparr>)"
      by (rule exact)
  next
    assume a: "(\<forall>v\<in>set ?walk. visit_ok v) \<and> Visit path None (Inr fi) \<in> set ?walk"
    then show ok: "fst (generateCmdProviders w pc g) = None"
      by (simp add: none)
    from a have "Visit path None (Inr fi) \<in> set ?walk" ..
    then show "?entry \<in> set (Provides (snd (generateCmdProviders w pc g)))"
      using ok by (rule member)
  next
    assume "Visit path None (Inr fi) \<in> set ?walk \<and> fst (generateCmdProviders w pc g) = None"
    then have "Visit path None (Inr fi) \<in> set ?walk" and "fst (generateCmdProviders w pc g) = None"
      by blast+
    then show "?entry \<in> set (Provides (snd (generateCmdProviders w pc g)))"
      by (rule member)
  qed
qed

theorem cmd_provides_witness:
  "IsRegular (Mode \<lparr>Mode = 493, Size = 10\<rparr>) \<and>
   Perm (Mode \<lparr>Mode = 493, Size = 10\<rparr>) AND 365 = 365 \<and>
   Contains ''pkg/usr/bin/frobnicate'' ''bin'' \<and>
   cmd_visit (sample_pc ''x86_64'' [])
       (Visit ''pkg/usr/bin/frobnicate'' None (Inr \<lparr>Mode = 493, Size = 10\<rparr>))
       \<lparr>Runtime = [], Provides = []\<rparr>
     = (None, \<lparr>Runtime = [], Provides = [''cmd:frobnicate=1.0-r3'']\<rparr>) \<and>
   Contains ''bin/frobnicate'' ''bin'' \<and>
   list_all visit_ok (walkdir sample_world (WorkspaceSubdir (sample_pc ''x86_64'' []))) \<and>
   Visit ''bin/frobnicate'' None (Inr \<lparr>Mode = 493, Size = 10\<rparr>)
     \<in> set (walkdir sample_world (WorkspaceSubdir (sample_pc ''x86_64'' []))) \<and>
   generateCmdProviders sample_world (sample_pc ''x86_64'' []) \<lparr>Runtime = [], Provides = []\<rparr>
     = (None, \<lparr>Runtime = [], Provides = [''cmd:frobnicate=1.0-r3'', ''cmd:run.sh=1.0-r3'']\<rparr>) \<and>
   ''cmd:frobnicate=1.0-r3''
     \<in> set (Provides (snd (generateCmdProviders sample_world (sample_pc ''x86_64'' [])
                \<lparr>Runtime = [], Provides = []\<rparr>)))"
proof -
  let ?pc = "sample_pc ''x86_64'' []"
  let ?fi = "\<lparr>Mode = 493, Size = 10\<rparr> :: FileInfo"
  let ?g = "\<lparr>Runtime = [], Provides = []\<rparr>"
  have r: "IsRegular (Mode ?fi)"
    by (simp add: IsRegular_493)
  have p: "Perm (Mode ?fi) AND 365 = 365"
    by (simp add: Perm_493)
  have c: "Contains ''pkg/usr/bin/frobnicate'' ''bin''"
    by (simp add: Contains_def HasPrefix_def)
  have c': "Contains ''bin/frobnicate'' ''bin''"
    by (simp add: Contains_def HasPrefix_def)
  have b: "Base ''pkg/usr/bin/frobnicate'' = ''frobnicate''"
    by (simp add: Base_def)
  have b': "Base ''bin/frobnicate'' = ''frobnicate''"
    by (simp add: Base_def)
  have v: "Version (Origin ?pc) = ''1.0''"
    by (simp add: sample_pc_def Subpackage_context_def sample_context_def sample_package_def)
  have d: "decimal (Epoch (Origin ?pc)) = ''3''"
    by (simp add: sample_pc_def Subpackage_context_def sample_context_def sample_package_def
        decimal.simps)
  have all_ok: "\<forall>v\<in>set (walkdir sample_world (WorkspaceSubdir ?pc)). visit_ok v"
    by (simp add: sample_world_def sample_tree_def visit_ok_def)
  have there: "Visit ''bin/frobnicate'' None (Inr ?fi) \<in> set (walkdir sample_world (WorkspaceSubdir ?pc))"
    by (simp add: sample_world_def sample_tree_def)
  have entries: "spec_cmd_provides ?pc (walkdir sample_world (WorkspaceSubdir ?pc)) =
      [''cmd:frobnicate=1.0-r3'', ''cmd:run.sh=1.0-r3'']"
    by code_simp
  from cmd_provides [OF r p c, where pc = ?pc and g = ?g and w = sample_world] b v d
  have visit: "cmd_visit ?pc (Visit ''pkg/usr/bin/frobnicate'' None (Inr ?fi)) ?g
     = (None, \<lparr>Runtime = [], Provides = [''cmd:frobnicate=1.0-r3'']\<rparr>)"
    by simp
  note at_sample = cmd_provides [OF r p c', where pc = ?pc and g = ?g and w = sample_world]
  from at_sample all_ok entries
  have run: "generateCmdProviders sample_world ?pc ?g
     = (None, \<lparr>Runtime = [], Provides = [''cmd:frobnicate=1.0-r3'', ''cmd:run.sh=1.0-r3'']\<rparr>)"
    by simp
  from run
  have member: "''cmd:frobnicate=1.0-r3'' \<in> set (Provides (snd (generateCmdProviders sample_world ?pc ?g)))"
    by simp
  from all_ok have listed: "list_all visit_ok (walkdir sample_world (WorkspaceSubdir ?pc))"
    by (simp add: list_all_iff)
  from r p c visit c' listed there run member show ?thesis by blast
qed

subsection \<open>Files, handles and the archive writer\<close>

lemma handle_of_Some_less: "handle_of s h = Some x \<Longrightarrow> h < length (handles s)"
  by (simp add: handle_of_def split: if_splits)

lemma overwrite_at_end: "overwrite old (length old) p = old @ p"
  by (simp add: overwrite_def)

lemma Write_success:
  assumes "handle_of s h = Some (name, off)" and "fst (Write w h p s) = None"
  shows "files (snd (Write w h p s)) x =
           (if x = name then Some (overwrite (contents s name) off p) else files s x)"
    and "handle_of (snd (Write w h p s)) k =
           (if k = h then Some (name, off + length p) else handle_of s k)"
    and "length (handles (snd (Write w h p s))) = length (handles s)"
proof -
  from assms(1) have less: "h < length (handles s)" by (rule handle_of_Some_less)
  from assms have fits: "(case capacity w name of None \<Rightarrow> length p
      | Some cap \<Rightarrow> min (length p) (cap - off)) = length p"
    by (auto simp: Write_def Let_def split: if_splits option.splits)
  show "files (snd (Write w h p s)) x =
           (if x = name then Some (overwrite (contents s name) off p) else files s x)"
    using assms(1) fits by (simp add: Write_def Let_def)
  show "handle_of (snd (Write w h p s)) k =
           (if k = h then Some (name, off + length p) else handle_of s k)"
    using assms(1) fits less by (auto simp: Write_def Let_def handle_of_def)
  show "length (handles (snd (Write w h p s))) = length (handles s)"
    using assms(1) by (simp add: Write_def Let_def)
qed

lemma write_chunks_Write_success:
  assumes "fst (write_chunks (Write w h) ps s) = None"
    and "handle_of s h = Some (name, length (contents s name))"
    and "files s name \<noteq> None"
  shows "files (snd (write_chunks (Write w h) ps s)) x =
           (if x = name then Some (contents s name @ concat ps) else files s x)"
    and "handle_of (snd (write_chunks (Write w h) ps s)) k =
           (if k = h then Some (name, length (contents s name @ concat ps)) else handle_of s k)"
    and "length (handles (snd (write_chunks (Write w h) ps s))) = length (handles s)"
proof -
  have "(\<forall>x. files (snd (write_chunks (Write w h) ps s)) x =
           (if x = name then Some (contents s name @ concat ps) else files s x)) \<and>
        (\<forall>k. handle_of (snd (write_chunks (Write w h) ps s)) k =
           (if k = h then Some (name, length (contents s name @ concat ps)) else handle_of s k)) \<and>
        length (handles (snd (write_chunks (Write w h) ps s))) = length (handles s)"
    using assms
  proof (induction ps arbitrary: s)
    case Nil
    then show ?case by (auto simp: contents_def)
  next
    case (Cons p ps)
    from Cons.prems(1) obtain s1 where step: "Write w h p s = (None, s1)"
      and rest: "fst (write_chunks (Write w h) ps s1) = None"
      by (cases "Write w h p s") (auto split: option.splits)
    from step have ok: "fst (Write w h p s) = None" and s1: "s1 = snd (Write w h p s)"
      by simp_all
    note w = Write_success [OF Cons.prems(2) ok, folded s1]
    have c1: "contents s1 name = contents s name @ p"
      by (simp add: contents_def w(1) overwrite_at_end)
    have h1: "handle_of s1 h = Some (name, length (contents s1 name))"
      by (simp add: w(2) c1)
    have f1: "files s1 name \<noteq> None"
      by (simp add: w(1))
    from Cons.IH [OF rest h1 f1] step show ?case
      by (simp add: c1 w)
  qed
  then show "files (snd (write_chunks (Write w h) ps s)) x =
           (if x = name then Some (contents s name @ concat ps) else files s x)"
    and "handle_of (snd (write_chunks (Write w h) ps s)) k =
           (if k = h then Some (name, length (contents s name @ concat ps)) else handle_of s k)"
    and "length (handles (snd (write_chunks (Write w h) ps s))) = length (handles s)"
    by blast+
qed

lemma MultiWrite_apply:
  "MultiWrite w h p (d, s) = (fst (Write w h p s), d @ p, snd (Write w h p s))"
  by (simp add: MultiWrite_def split: prod.splits)

lemma write_chunks_MultiWrite_success:
  assumes "fst (write_chunks (MultiWrite w h) ps (d, s)) = None"
  shows "write_chunks (MultiWrite w h) ps (d, s) =
           (None, d @ concat ps, snd (write_chunks (Write w h) ps s)) \<and>
         fst (write_chunks (Write w h) ps s) = None"
  using assms
proof (induction ps arbitrary: d s)
  case Nil
  then show ?case by simp
next
  case (Cons p ps)
  obtain r s1 where step: "Write w h p s = (r, s1)" by (cases "Write w h p s")
  with Cons.prems have r: "r = None"
    by (cases r) (simp_all add: MultiWrite_apply)
  from Cons.prems step r have "fst (write_chunks (MultiWrite w h) ps (d @ p, s1)) = None"
    by (simp add: MultiWrite_apply)
  from Cons.IH [OF this] step r show ?case
    by (simp add: MultiWrite_apply)
qed

lemma WriteArchive_success:
  assumes "fst (WriteArchive w opts wr fsys st) = None"
  shows "fst (write_chunks wr (fst (WriteArchive_chunks w opts fsys)) st) = None"
    and "snd (WriteArchive w opts wr fsys st) = snd (write_chunks wr (fst (WriteArchive_chunks w opts fsys)) st)"
  using assms
  by (auto simp: WriteArchive_def split: prod.splits option.splits)

lemma Seek_start_success:
  assumes "handle_of s h = Some (name, off)" and "fst (Seek_start w st h s) = None"
  shows "files (snd (Seek_start w st h s)) = files s"
    and "handle_of (snd (Seek_start w st h s)) k =
           (if k = h then Some (name, 0) else handle_of s k)"
    and "length (handles (snd (Seek_start w st h s))) = length (handles s)"
  using assms handle_of_Some_less [OF assms(1)]
  by (auto simp: Seek_start_def handle_of_def split: option.splits)

lemma CreateTemp_success:
  assumes "CreateTemp w pattern s = (Inr h, s1)"
  shows "h = length (handles s)" and "files s (temp_name w pattern) = None"
    and "files s1 x = (if x = temp_name w pattern then Some [] else files s x)"
    and "handle_of s1 k = (if k = h then Some (temp_name w pattern, 0) else handle_of s k)"
    and "length (handles s1) = Suc (length (handles s))"
  using assms
  by (auto simp: CreateTemp_def Let_def handle_of_def nth_append
      split: option.splits if_splits)

lemma Create_success:
  assumes "Create w name s = (Inr h, s1)"
  shows "h = length (handles s)"
    and "files s1 x = (if x = name then Some [] else files s x)"
    and "handle_of s1 k = (if k = h then Some (name, 0) else handle_of s k)"
    and "length (handles s1) = Suc (length (handles s))"
  using assms
  by (auto simp: Create_def Let_def handle_of_def nth_append
      split: option.splits if_splits)

lemma Close_obs:
  "files (Close h s) = files s"
  "handle_of (Close h s) k = (if k = h then None else handle_of s k)"
  "length (handles (Close h s)) = length (handles s)"
  by (auto simp: Close_def handle_of_def)

lemma Copy_success:
  assumes "handle_of s out = Some (fn, length (contents s fn))"
    and "handle_of s inp = Some (name, 0)" and "inp \<noteq> out" and "name \<noteq> fn"
    and "fst (Copy w out inp s) = None"
  shows "files (snd (Copy w out inp s)) x =
           (if x = fn then Some (contents s fn @ contents s name) else files s x)"
    and "handle_of (snd (Copy w out inp s)) k =
           (if k = out then Some (fn, length (contents s fn @ contents s name))
            else if k = inp then Some (name, length (contents s name))
            else handle_of s k)"
    and "length (handles (snd (Copy w out inp s))) = length (handles s)"
proof -
  let ?s = "s\<lparr>handles := (handles s)[inp := Some (name, length (contents s name))]\<rparr>"
  from assms(2) have less: "inp < length (handles s)" by (rule handle_of_Some_less)
  have copy: "Copy w out inp s = Write w out (contents s name) ?s"
    using assms(2) by (simp add: Copy_def Let_def)
  have ho: "handle_of ?s k = (if k = inp then Some (name, length (contents s name)) else handle_of s k)" for k
    using less by (auto simp: handle_of_def)
  have c: "contents ?s = contents s"
    by (simp add: contents_def fun_eq_iff)
  have out: "handle_of ?s out = Some (fn, length (contents s fn))"
    using assms(1,3) by (simp add: ho)
  from assms(5) have ok: "fst (Write w out (contents s name) ?s) = None"
    by (simp add: copy)
  note w = Write_success [OF out ok]
  show "files (snd (Copy w out inp s)) x =
           (if x = fn then Some (contents s fn @ contents s name) else files s x)"
    by (simp add: copy w(1) c overwrite_at_end)
  show "handle_of (snd (Copy w out inp s)) k =
           (if k = out then Some (fn, length (contents s fn @ contents s name))
            else if k = inp then Some (name, length (contents s name))
            else handle_of s k)"
    by (simp add: copy w(2) ho)
  show "length (handles (snd (Copy w out inp s))) = length (handles s)"
    by (simp add: copy w(3))
qed

lemma combine_success:
  assumes "fst (combine w out parts s) = None"
    and "handle_of s out = Some (fn, length (contents s fn))"
    and "distinct parts" and "out \<notin> set parts"
    and "\<forall>p\<in>set parts. handle_of s p = Some (nm p, 0) \<and> nm p \<noteq> fn"
    and "files s fn \<noteq> None"
  shows "files (snd (combine w out parts s)) x =
           (if x = fn then Some (contents s fn @ concat (map (\<lambda>p. contents s (nm p)) parts))
            else files s x)"
  using assms
proof (induction parts arbitrary: s x)
  case Nil
  then show ?case by (auto simp: contents_def)
next
  case (Cons p ps)
  from Cons.prems(1) obtain s1 where step: "Copy w out p s = (None, s1)"
    and rest: "fst (combine w out ps s1) = None"
    by (cases "Copy w out p s") (auto split: option.splits)
  from step have ok: "fst (Copy w out p s) = None" and s1: "s1 = snd (Copy w out p s)"
    by simp_all
  from Cons.prems have p: "handle_of s p = Some (nm p, 0)" "p \<noteq> out" "nm p \<noteq> fn"
    by auto
  note c = Copy_success [OF Cons.prems(2) p ok, folded s1]
  have c1: "contents s1 fn = contents s fn @ contents s (nm p)"
    by (simp add: contents_def c(1))
  have keep: "contents s1 y = contents s y" if "y \<noteq> fn" for y
    using that by (simp add: contents_def c(1))
  have h1: "handle_of s1 out = Some (fn, length (contents s1 fn))"
    by (simp add: c(2) c1)
  have parts1: "\<forall>q\<in>set ps. handle_of s1 q = Some (nm q, 0) \<and> nm q \<noteq> fn"
    using Cons.prems(3,4,5) by (auto simp: c(2))
  have f1: "files s1 fn \<noteq> None" by (simp add: c(1))
  from Cons.prems have d: "distinct ps" "out \<notin> set ps" by auto
  have same: "map (\<lambda>q. contents s1 (nm q)) ps = map (\<lambda>q. contents s (nm q)) ps"
    using Cons.prems(5) by (auto simp: keep)
  from Cons.IH [OF rest h1 d parts1 f1, of x] step show ?case
    by (simp add: c1 c(1) same)
qed

lemma WriteArchive_MultiWrite_success:
  assumes ok: "fst (WriteArchive w opts (MultiWrite w h) fsys (d, s)) = None"
    and h: "handle_of s h = Some (name, length (contents s name))"
    and f: "files s name \<noteq> None"
  shows "fst (snd (WriteArchive w opts (MultiWrite w h) fsys (d, s))) =
           d @ concat (fst (WriteArchive_chunks w opts fsys))"
    and "files (snd (snd (WriteArchive w opts (MultiWrite w h) fsys (d, s)))) x =
           (if x = name then Some (contents s name @ concat (fst (WriteArchive_chunks w opts fsys)))
            else files s x)"
    and "handle_of (snd (snd (WriteArchive w opts (MultiWrite w h) fsys (d, s)))) k =
           (if k = h then Some (name, length (contents s name @ concat (fst (WriteArchive_chunks w opts fsys))))
            else handle_of s k)"
    and "length (handles (snd (snd (WriteArchive w opts (MultiWrite w h) fsys (d, s))))) = length (handles s)"
proof -
  let ?ps = "fst (WriteArchive_chunks w opts fsys)"
  note a = WriteArchive_success [OF ok]
  note m = write_chunks_MultiWrite_success [OF a(1)]
  from m have plain: "fst (write_chunks (Write w h) ?ps s) = None" by simp
  note c = write_chunks_Write_success [OF plain h f]
  from a(2) m have res: "snd (WriteArchive w opts (MultiWrite w h) fsys (d, s)) =
      (d @ concat ?ps, snd (write_chunks (Write w h) ?ps s))"
    by simp
  show "fst (snd (WriteArchive w opts (MultiWrite w h) fsys (d, s))) = d @ concat ?ps"
    by (simp add: res)
  show "files (snd (snd (WriteArchive w opts (MultiWrite w h) fsys (d, s)))) x =
           (if x = name then Some (contents s name @ concat ?ps) else files s x)"
    by (simp add: res c(1))
  show "handle_of (snd (snd (WriteArchive w opts (MultiWrite w h) fsys (d, s)))) k =
           (if k = h then Some (name, length (contents s name @ concat ?ps)) else handle_of s k)"
    by (simp only: res snd_conv c(2))
  show "length (handles (snd (snd (WriteArchive w opts (MultiWrite w h) fsys (d, s))))) = length (handles s)"
    by (simp add: res c(3))
qed

lemma WriteArchive_Write_success:
  assumes ok: "fst (WriteArchive w opts (Write w h) fsys s) = None"
    and h: "handle_of s h = Some (name, length (contents s name))"
    and f: "files s name \<noteq> None"
  shows "files (snd (WriteArchive w opts (Write w h) fsys s)) x =
           (if x = name then Some (contents s name @ concat (fst (WriteArchive_chunks w opts fsys)))
            else files s x)"
    and "handle_of (snd (WriteArchive w opts (Write w h) fsys s)) k =
           (if k = h then Some (name, length (contents s name @ concat (fst (WriteArchive_chunks w opts fsys))))
            else handle_of s k)"
    and "length (handles (snd (WriteArchive w opts (Write w h) fsys s))) = length (handles s)"
proof -
  let ?ps = "fst (WriteArchive_chunks w opts fsys)"
  note a = WriteArchive_success [OF ok]
  note c = write_chunks_Write_success [OF a(1) h f]
  show "files (snd (WriteArchive w opts (Write w h) fsys s)) x =
           (if x = name then Some (contents s name @ concat ?ps) else files s x)"
    by (simp only: a(2) c(1))
  show "handle_of (snd (WriteArchive w opts (Write w h) fsys s)) k =
           (if k = h then Some (name, length (contents s name @ concat ?ps)) else handle_of s k)"
    by (simp only: a(2) c(2))
  show "length (handles (snd (WriteArchive w opts (Write w h) fsys s))) = length (handles s)"
    by (simp only: a(2) c(3))
qed

lemma temp_name_not_Filename: "temp_name w ''melange-data-*.tar.gz'' \<noteq> Filename pc"
  "temp_name w ''melange-control-*.tar.gz'' \<noteq> Filename pc"
  "temp_name w ''melange-signature-*.tar.gz'' \<noteq> Filename pc"
proof -
  have apk: "last (Filename pc) = CHR ''k''"
    by (simp add: Filename_def)
  have gz: "last (temp_name w ''melange-data-*.tar.gz'') = CHR ''z''"
    "last (temp_name w ''melange-control-*.tar.gz'') = CHR ''z''"
    "last (temp_name w ''melange-signature-*.tar.gz'') = CHR ''z''"
    by (simp_all add: temp_name_def prefixAndSuffix_def)
  from apk gz show "temp_name w ''melange-data-*.tar.gz'' \<noteq> Filename pc"
  "temp_name w ''melange-control-*.tar.gz'' \<noteq> Filename pc"
  "temp_name w ''melange-signature-*.tar.gz'' \<noteq> Filename pc"
    by auto
qed

lemma assemble_success:
  assumes ok: "fst (EmitPackage_assemble w pc parts s) = None"
    and d: "distinct parts"
    and parts: "\<forall>p\<in>set parts. handle_of s p = Some (nm p, 0) \<and> nm p \<noteq> Filename pc"
  shows "files (snd (EmitPackage_assemble w pc parts s)) x =
           (if x = Filename pc then Some (concat (map (\<lambda>p. contents s (nm p)) parts))
            else files s x)"
proof -
  from ok obtain out s1 where cr: "Create w (Filename pc) s = (Inr out, s1)"
    and cb: "fst (combine w out parts s1) = None"
    and res: "snd (EmitPackage_assemble w pc parts s) = Close out (snd (combine w out parts s1))"
    by (auto simp: EmitPackage_assemble_def split: option.splits prod.splits sum.splits)
  note c = Create_success [OF cr]
  have notin: "out \<notin> set parts"
    using parts c(1) by (auto dest: handle_of_Some_less)
  have c1: "contents s1 (Filename pc) = []"
    by (simp add: contents_def c(2))
  have keep: "contents s1 y = contents s y" if "y \<noteq> Filename pc" for y
    using that by (simp add: contents_def c(2))
  have h1: "handle_of s1 out = Some (Filename pc, length (contents s1 (Filename pc)))"
    by (simp add: c(3) c1)
  have parts1: "\<forall>p\<in>set parts. handle_of s1 p = Some (nm p, 0) \<and> nm p \<noteq> Filename pc"
    using parts notin by (auto simp: c(3))
  have f1: "files s1 (Filename pc) \<noteq> None"
    by (simp add: c(2))
  have same: "map (\<lambda>q. contents s1 (nm q)) parts = map (\<lambda>q. contents s (nm q)) parts"
    using parts by (auto simp: keep)
  show ?thesis
    by (simp add: res Close_obs combine_success [OF cb h1 d notin parts1 f1] c1 same c(2))
qed

subsection \<open>The stages of a successful emission\<close>

lemma signature_success:
  assumes ok: "fst (EmitPackage_signature w pc cd c d s) = None"
    and hc: "handle_of s c = Some (cn, 0)" and hd: "handle_of s d = Some (dn, 0)"
    and neq: "c \<noteq> d" and names: "cn \<noteq> Filename pc" "dn \<noteq> Filename pc"
    and present: "files s cn \<noteq> None" "files s dn \<noteq> None"
  shows "\<exists>sig. RSASignSHA1Digest w (sha1_Sum w cd) (SigningKey (Context pc))
             (SigningPassphrase (Context pc)) = Inr sig \<and>
           files s (signature_temp w) = None \<and>
           (\<forall>x. files (snd (EmitPackage_signature w pc cd c d s)) x =
             (if x = Filename pc then
                Some (concat (fst (WriteArchive_chunks w (multitarctx pc)
                        (MemFS [(SignatureName pc, sig, 420)])))
                      @ contents s cn @ contents s dn)
              else if x = signature_temp w then
                Some (concat (fst (WriteArchive_chunks w (multitarctx pc)
                        (MemFS [(SignatureName pc, sig, 420)]))))
              else files s x))"
proof -
  let ?sn = "signature_temp w"
  from ok obtain sig where sig: "RSASignSHA1Digest w (sha1_Sum w cd) (SigningKey (Context pc))
             (SigningPassphrase (Context pc)) = Inr sig"
    by (auto simp: EmitPackage_signature_def split: sum.splits)
  let ?fs = "MemFS [(SignatureName pc, sig, 420)]"
  let ?seg = "concat (fst (WriteArchive_chunks w (multitarctx pc) ?fs))"
  from ok sig obtain sg s1 where ct: "CreateTemp w ''melange-signature-*.tar.gz'' s = (Inr sg, s1)"
    by (auto simp: EmitPackage_signature_def Let_def split: sum.splits option.splits prod.splits)
  define s2 where "s2 = snd (WriteArchive w (multitarctx pc) (Write w sg) ?fs s1)"
  define s3 where "s3 = snd (Seek_start w SeekSignature sg s2)"
  define s4 where "s4 = snd (EmitPackage_assemble w pc [sg, c, d] s3)"
  from ok sig ct have wa: "fst (WriteArchive w (multitarctx pc) (Write w sg) ?fs s1) = None"
    and sk: "fst (Seek_start w SeekSignature sg s2) = None"
    and asm: "fst (EmitPackage_assemble w pc [sg, c, d] s3) = None"
    and res: "snd (EmitPackage_signature w pc cd c d s) = Close sg s4"
    unfolding s2_def s3_def s4_def
    by (auto simp: EmitPackage_signature_def Let_def split: sum.splits option.splits prod.splits)
  note t = CreateTemp_success [OF ct, folded signature_temp_def]
  from hc hd t(1) have less: "c \<noteq> sg" "d \<noteq> sg"
    by (auto dest: handle_of_Some_less)
  from present t(2) have other: "cn \<noteq> ?sn" "dn \<noteq> ?sn"
    by auto
  have c1: "contents s1 ?sn = []"
    by (simp add: contents_def t(3))
  have h1: "handle_of s1 sg = Some (?sn, length (contents s1 ?sn))"
    by (simp add: t(4) c1)
  have f1: "files s1 ?sn \<noteq> None"
    by (simp add: t(3))
  note a = WriteArchive_Write_success [OF wa h1 f1, folded s2_def]
  have h2: "handle_of s2 sg = Some (?sn, length ?seg)"
    by (simp add: a(2) c1)
  note k = Seek_start_success [OF h2 sk, folded s3_def]
  have files3: "files s3 x = (if x = ?sn then Some ?seg else files s x)" for x
    by (simp add: k(1) a(1) c1 t(3))
  have conts: "contents s3 ?sn = ?seg" "contents s3 cn = contents s cn"
    "contents s3 dn = contents s dn"
    using other by (simp_all add: contents_def files3)
  define nm where "nm = (\<lambda>p. if p = sg then ?sn else if p = c then cn else dn)"
  have parts: "\<forall>p\<in>set [sg, c, d]. handle_of s3 p = Some (nm p, 0) \<and> nm p \<noteq> Filename pc"
    using less neq hc hd names temp_name_not_Filename(3) [of w pc]
    by (simp add: nm_def k(2) a(2) t(4) signature_temp_def)
  have dist: "distinct [sg, c, d]"
    using less neq by auto
  note fin = assemble_success [OF asm dist parts, folded s4_def]
  have "files (snd (EmitPackage_signature w pc cd c d s)) x =
             (if x = Filename pc then Some (?seg @ contents s cn @ contents s dn)
              else if x = ?sn then Some ?seg else files s x)" for x
    using less neq by (simp add: res Close_obs fin nm_def conts files3)
  with sig t(2) show ?thesis by blast
qed

lemma control_success:
  assumes ok: "fst (EmitPackage_control w pc d s) = None"
    and hd: "handle_of s d = Some (dn, 0)"
    and names: "dn \<noteq> Filename pc"
    and present: "files s dn \<noteq> None"
  shows "files s (control_temp w) = None"
    and "SigningKey (Context pc) = [] \<Longrightarrow>
           files (snd (EmitPackage_control w pc d s)) x =
             (if x = Filename pc then Some (control_segment w pc @ contents s dn)
              else if x = control_temp w then Some (control_segment w pc)
              else files s x)"
    and "SigningKey (Context pc) \<noteq> [] \<Longrightarrow>
           \<not> isl (signature_of w pc) \<and> files s (signature_temp w) = None \<and>
           files (snd (EmitPackage_control w pc d s)) x =
             (if x = Filename pc then
                Some (signature_segment w pc @ control_segment w pc @ contents s dn)
              else if x = signature_temp w then Some (signature_segment w pc)
              else if x = control_temp w then Some (control_segment w pc)
              else files s x)"
proof -
  let ?cn = "control_temp w"
  let ?fs = "MemFS [(''.PKGINFO'', GenerateControlData pc, 420)]"
  let ?seg = "control_segment w pc"
  from ok obtain c s1 where ct: "CreateTemp w ''melange-control-*.tar.gz'' s = (Inr c, s1)"
    by (auto simp: EmitPackage_control_def Let_def split: sum.splits option.splits prod.splits)
  define r2 where "r2 = WriteArchive w (multitarctx pc) (MultiWrite w c) ?fs ([], s1)"
  define s2 where "s2 = snd (snd r2)"
  define s3 where "s3 = snd (Seek_start w SeekControl c s2)"
  define s4 where "s4 = snd (if SigningKey (Context pc) \<noteq> [] then
                          EmitPackage_signature w pc (fst (snd r2)) c d s3
                        else EmitPackage_assemble w pc [c, d] s3)"
  from ok ct have wa: "fst r2 = None"
    and sk: "fst (Seek_start w SeekControl c s2) = None"
    and rest: "fst (if SigningKey (Context pc) \<noteq> [] then
                          EmitPackage_signature w pc (fst (snd r2)) c d s3
                        else EmitPackage_assemble w pc [c, d] s3) = None"
    and res: "snd (EmitPackage_control w pc d s) = Close c s4"
    unfolding r2_def s2_def s3_def s4_def
    by (auto simp: EmitPackage_control_def Let_def split: sum.splits option.splits prod.splits)
  note t = CreateTemp_success [OF ct, folded control_temp_def]
  show none: "files s ?cn = None" by (rule t(2))
  from hd t(1) have less: "d \<noteq> c"
    by (auto dest: handle_of_Some_less)
  from present t(2) have other: "dn \<noteq> ?cn"
    by auto
  have c1: "contents s1 ?cn = []"
    by (simp add: contents_def t(3))
  have h1: "handle_of s1 c = Some (?cn, length (contents s1 ?cn))"
    by (simp add: t(4) c1)
  have f1: "files s1 ?cn \<noteq> None"
    by (simp add: t(3))
  note a = WriteArchive_MultiWrite_success [OF wa [unfolded r2_def] h1 f1, folded r2_def, folded s2_def]
  have digest: "fst (snd r2) = ?seg"
    by (simp add: a(1) control_segment_def)
  have h2: "handle_of s2 c = Some (?cn, length ?seg)"
    by (simp add: a(3) c1 control_segment_def)
  note k = Seek_start_success [OF h2 sk, folded s3_def]
  have files3: "files s3 x = (if x = ?cn then Some ?seg else files s x)" for x
    by (simp add: k(1) a(2) c1 t(3) control_segment_def)
  have conts: "contents s3 ?cn = ?seg" "contents s3 dn = contents s dn"
    using other by (simp_all add: contents_def files3)
  have h3: "handle_of s3 c = Some (?cn, 0)" "handle_of s3 d = Some (dn, 0)"
    using less hd by (simp_all add: k(2) a(3) t(4))
  have cn_fn: "?cn \<noteq> Filename pc"
    by (simp add: control_temp_def temp_name_not_Filename)
  have f3: "files s3 ?cn \<noteq> None" "files s3 dn \<noteq> None"
    using present by (simp_all add: files3)
  {
    assume key: "SigningKey (Context pc) = []"
    define nm where "nm = (\<lambda>p. if p = c then ?cn else dn)"
    from rest key have asm: "fst (EmitPackage_assemble w pc [c, d] s3) = None" by simp
    have parts: "\<forall>p\<in>set [c, d]. handle_of s3 p = Some (nm p, 0) \<and> nm p \<noteq> Filename pc"
      using less h3 names cn_fn by (simp add: nm_def)
    have dist: "distinct [c, d]" using less by auto
    note fin = assemble_success [OF asm dist parts]
    from key have s4: "s4 = snd (EmitPackage_assemble w pc [c, d] s3)"
      by (simp add: s4_def)
    show "files (snd (EmitPackage_control w pc d s)) x =
             (if x = Filename pc then Some (?seg @ contents s dn)
              else if x = ?cn then Some ?seg else files s x)"
      using less by (simp add: res Close_obs s4 fin nm_def conts files3)
  }
  {
    assume key: "SigningKey (Context pc) \<noteq> []"
    from rest key have sg: "fst (EmitPackage_signature w pc ?seg c d s3) = None"
      by (simp add: digest)
    from key have s4: "s4 = snd (EmitPackage_signature w pc ?seg c d s3)"
      by (simp add: s4_def digest)
    from signature_success [OF sg h3 less [symmetric] cn_fn names f3]
    obtain sig where sig: "RSASignSHA1Digest w (sha1_Sum w ?seg) (SigningKey (Context pc))
             (SigningPassphrase (Context pc)) = Inr sig"
      and fresh: "files s3 (signature_temp w) = None"
      and fin: "\<And>x. files (snd (EmitPackage_signature w pc ?seg c d s3)) x =
             (if x = Filename pc then
                Some (concat (fst (WriteArchive_chunks w (multitarctx pc)
                        (MemFS [(SignatureName pc, sig, 420)])))
                      @ contents s3 ?cn @ contents s3 dn)
              else if x = signature_temp w then
                Some (concat (fst (WriteArchive_chunks w (multitarctx pc)
                        (MemFS [(SignatureName pc, sig, 420)]))))
              else files s3 x)"
      by blast
    from sig have so: "signature_of w pc = Inr sig"
      by (simp add: signature_of_def)
    then have seg: "signature_segment w pc = concat (fst (WriteArchive_chunks w (multitarctx pc)
                        (MemFS [(SignatureName pc, sig, 420)])))"
      by (simp add: signature_segment_def)
    from fresh have fresh0: "files s (signature_temp w) = None"
      by (simp add: files3 split: if_splits)
    have "files (snd (EmitPackage_control w pc d s)) x =
             (if x = Filename pc then Some (signature_segment w pc @ ?seg @ contents s dn)
              else if x = signature_temp w then Some (signature_segment w pc)
              else if x = ?cn then Some ?seg else files s x)"
      by (simp add: res Close_obs s4 fin seg conts files3)
    with so fresh0 show "\<not> isl (signature_of w pc) \<and> files s (signature_temp w) = None \<and>
           files (snd (EmitPackage_control w pc d s)) x =
             (if x = Filename pc then Some (signature_segment w pc @ ?seg @ contents s dn)
              else if x = signature_temp w then Some (signature_segment w pc)
              else if x = ?cn then Some ?seg else files s x)"
      by simp
  }
qed

lemma size_visit_frame: "snd (size_visit v pc) = pc\<lparr>InstalledSize := InstalledSize (snd (size_visit v pc))\<rparr>"
  by (simp add: size_visit_def split: option.splits sum.splits)

lemma WalkDir_size_only:
  "\<exists>n. snd (WalkDir size_visit vs pc) = pc\<lparr>InstalledSize := n\<rparr>"
proof (induction vs arbitrary: pc)
  case Nil
  have "pc = pc\<lparr>InstalledSize := InstalledSize pc\<rparr>" by simp
  then show ?case by (auto intro: exI [of _ "InstalledSize pc"])
next
  case (Cons v vs)
  obtain r pc1 where step: "size_visit v pc = (r, pc1)" by (cases "size_visit v pc")
  with size_visit_frame [of v pc] have pc1: "pc1 = pc\<lparr>InstalledSize := InstalledSize pc1\<rparr>"
    by simp
  show ?case
  proof (cases r)
    case None
    from Cons.IH [of pc1] obtain n where "snd (WalkDir size_visit vs pc1) = pc1\<lparr>InstalledSize := n\<rparr>"
      by blast
    then have "snd (WalkDir size_visit vs pc1) = pc\<lparr>InstalledSize := n\<rparr>"
      by (subst (asm) (2) pc1) simp
    with step None show ?thesis by auto
  next
    case (Some e)
    with step pc1 show ?thesis by (auto intro: exI [of _ "InstalledSize pc1"])
  qed
qed

lemma WalkDir_size_frame:
  "snd (WalkDir size_visit vs pc) = pc\<lparr>InstalledSize := InstalledSize (snd (WalkDir size_visit vs pc))\<rparr>"
proof -
  from WalkDir_size_only [of vs pc] obtain n
    where n: "snd (WalkDir size_visit vs pc) = pc\<lparr>InstalledSize := n\<rparr>"
    by blast
  then have "InstalledSize (snd (WalkDir size_visit vs pc)) = n" by simp
  with n show ?thesis by simp
qed

lemma sizing_frame: "snd (sizing w pc) = pc\<lparr>InstalledSize := InstalledSize (snd (sizing w pc))\<rparr>"
  unfolding sizing_def by (rule WalkDir_size_frame)

lemma GenerateDependencies_frame:
  "snd (GenerateDependencies w pc) =
     pc\<lparr>pc_Dependencies := pc_Dependencies (snd (GenerateDependencies w pc))\<rparr>"
  by (simp add: GenerateDependencies_def Let_def split: prod.splits option.splits)

lemma prepared_frame:
  fixes w pc
  defines "pc2 \<equiv> snd (GenerateDependencies w (snd (sizing w pc)))"
  shows "Context pc2 = Context pc" and "PackageName pc2 = PackageName pc"
    and "Origin pc2 = Origin pc" and "OutDir pc2 = OutDir pc"
    and "InstalledSize pc2 = InstalledSize (snd (sizing w pc))"
proof -
  have "pc2 = (pc\<lparr>InstalledSize := InstalledSize (snd (sizing w pc))\<rparr>)
                \<lparr>pc_Dependencies := pc_Dependencies pc2\<rparr>"
    unfolding pc2_def
    by (subst GenerateDependencies_frame, subst sizing_frame, simp)
  then have eq: "pc2 = pc\<lparr>InstalledSize := InstalledSize (snd (sizing w pc)),
       pc_Dependencies := pc_Dependencies pc2\<rparr>"
    by simp
  show "Context pc2 = Context pc" by (subst eq) simp
  show "PackageName pc2 = PackageName pc" by (subst eq) simp
  show "Origin pc2 = Origin pc" by (subst eq) simp
  show "OutDir pc2 = OutDir pc" by (subst eq) simp
  show "InstalledSize pc2 = InstalledSize (snd (sizing w pc))" by (subst eq) simp
qed

lemma emitted_frame:
  "Context (emitted w pc) = Context pc" "PackageName (emitted w pc) = PackageName pc"
  "Origin (emitted w pc) = Origin pc" "OutDir (emitted w pc) = OutDir pc"
  "DataHash (emitted w pc) = EncodeToString (sha256_Sum w (data_segment w pc))"
  "InstalledSize (emitted w pc) = InstalledSize (snd (sizing w pc))"
  "pc_Dependencies (emitted w pc) = pc_Dependencies (snd (GenerateDependencies w (snd (sizing w pc))))"
  by (simp_all add: emitted_def prepared_frame)

lemma emitted_same:
  "Filename (emitted w pc) = Filename pc" "WorkspaceSubdir (emitted w pc) = WorkspaceSubdir pc"
  "tarctx (emitted w pc) = tarctx pc" "data_segment w (emitted w pc) = data_segment w pc"
  by (simp_all add: Filename_def Identity_def WorkspaceSubdir_def tarctx_def data_segment_def
      emitted_frame)

lemma data_success:
  assumes ok: "fst (EmitPackage_data w pc d s) = None"
    and hd: "handle_of s d = Some (data_temp w, 0)"
    and empty: "files s (data_temp w) = Some []"
  shows "fst (sizing w pc) = None"
    and "fst (GenerateDependencies w (snd (sizing w pc))) = None"
    and "fst (snd (EmitPackage_data w pc d s)) = emitted w pc"
    and "files s (control_temp w) = None"
    and "SigningKey (Context pc) = [] \<Longrightarrow>
           files (snd (snd (EmitPackage_data w pc d s))) x =
             (if x = Filename pc then
                Some (control_segment w (emitted w pc) @ data_segment w pc)
              else if x = control_temp w then Some (control_segment w (emitted w pc))
              else if x = data_temp w then Some (data_segment w pc)
              else files s x)"
    and "SigningKey (Context pc) \<noteq> [] \<Longrightarrow>
           \<not> isl (signature_of w (emitted w pc)) \<and> files s (signature_temp w) = None \<and>
           files (snd (snd (EmitPackage_data w pc d s))) x =
             (if x = Filename pc then
                Some (signature_segment w (emitted w pc) @ control_segment w (emitted w pc)
                      @ data_segment w pc)
              else if x = signature_temp w then Some (signature_segment w (emitted w pc))
              else if x = control_temp w then Some (control_segment w (emitted w pc))
              else if x = data_temp w then Some (data_segment w pc)
              else files s x)"
proof -
  let ?dn = "data_temp w"
  define pc1 where "pc1 = snd (sizing w pc)"
  define pc2 where "pc2 = snd (GenerateDependencies w pc1)"
  define r1 where "r1 = WriteArchive w (tarctx pc2) (MultiWrite w d) (DirFS (WorkspaceSubdir pc)) ([], s)"
  define pc3 where "pc3 = pc2\<lparr>DataHash := EncodeToString (sha256_Sum w (fst (snd r1)))\<rparr>"
  define s1 where "s1 = snd (snd r1)"
  define s2 where "s2 = snd (Seek_start w SeekData d s1)"
  from ok show sz: "fst (sizing w pc) = None"
    by (auto simp: EmitPackage_data_def Let_def split: option.splits prod.splits)
  from ok show gd: "fst (GenerateDependencies w (snd (sizing w pc))) = None"
    by (auto simp: EmitPackage_data_def Let_def split: option.splits prod.splits)
  from ok have wa: "fst r1 = None"
    and sk: "fst (Seek_start w SeekData d s1) = None"
    and ctl: "fst (EmitPackage_control w pc3 d s2) = None"
    and res: "snd (EmitPackage_data w pc d s) = (pc3, snd (EmitPackage_control w pc3 d s2))"
    unfolding pc1_def pc2_def r1_def pc3_def s1_def s2_def
    by (auto simp: EmitPackage_data_def Let_def split: option.splits prod.splits)
  have ctx2: "Context pc2 = Context pc"
    unfolding pc2_def pc1_def by (rule prepared_frame)
  have c0: "contents s ?dn = []"
    by (simp add: contents_def empty)
  have h0: "handle_of s d = Some (?dn, length (contents s ?dn))"
    by (simp add: hd c0)
  have f0: "files s ?dn \<noteq> None"
    by (simp add: empty)
  note a = WriteArchive_MultiWrite_success [OF wa [unfolded r1_def] h0 f0, folded r1_def, folded s1_def]
  have seg: "concat (fst (WriteArchive_chunks w (tarctx pc2) (DirFS (WorkspaceSubdir pc)))) = data_segment w pc"
    by (simp add: data_segment_def tarctx_def ctx2)
  have digest: "fst (snd r1) = data_segment w pc"
    by (simp add: a(1) seg)
  have pc3: "pc3 = emitted w pc"
    by (simp add: pc3_def digest emitted_def pc2_def pc1_def)
  from res show "fst (snd (EmitPackage_data w pc d s)) = emitted w pc"
    by (simp add: pc3)
  have h1: "handle_of s1 d = Some (?dn, length (data_segment w pc))"
    by (simp add: a(3) c0 seg)
  note k = Seek_start_success [OF h1 sk, folded s2_def]
  have files2: "files s2 x = (if x = ?dn then Some (data_segment w pc) else files s x)" for x
    by (simp add: k(1) a(2) c0 seg)
  have c2: "contents s2 ?dn = data_segment w pc"
    by (simp add: contents_def files2)
  have h2: "handle_of s2 d = Some (?dn, 0)"
    by (simp add: k(2))
  have dn_fn: "?dn \<noteq> Filename (emitted w pc)"
    by (simp add: data_temp_def temp_name_not_Filename)
  have f2: "files s2 ?dn \<noteq> None"
    by (simp add: files2)
  note c = control_success [OF ctl [unfolded pc3] h2 dn_fn f2]
  from c(1) show "files s (control_temp w) = None"
    by (simp add: files2 split: if_splits)
  {
    assume key: "SigningKey (Context pc) = []"
    then have "SigningKey (Context (emitted w pc)) = []"
      by (simp add: emitted_frame)
    from c(2) [OF this, of x] res show "files (snd (snd (EmitPackage_data w pc d s))) x =
             (if x = Filename pc then
                Some (control_segment w (emitted w pc) @ data_segment w pc)
              else if x = control_temp w then Some (control_segment w (emitted w pc))
              else if x = data_temp w then Some (data_segment w pc)
              else files s x)"
      by (simp add: pc3 emitted_same c2 files2)
  }
  {
    assume key: "SigningKey (Context pc) \<noteq> []"
    then have "SigningKey (Context (emitted w pc)) \<noteq> []"
      by (simp add: emitted_frame)
    note sg = c(3) [OF this, of x]
    from sg have p1: "\<not> isl (signature_of w (emitted w pc))" by blast
    from sg have "files s2 (signature_temp w) = None" by blast
    then have p2: "files s (signature_temp w) = None"
      by (simp add: files2 split: if_splits)
    from sg have "files (snd (EmitPackage_control w (emitted w pc) d s2)) x =
             (if x = Filename (emitted w pc) then
                Some (signature_segment w (emitted w pc) @ control_segment w (emitted w pc)
                      @ contents s2 (data_temp w))
              else if x = signature_temp w then Some (signature_segment w (emitted w pc))
              else if x = control_temp w then Some (control_segment w (emitted w pc))
              else files s2 x)"
      by blast
    with res have p3: "files (snd (snd (EmitPackage_data w pc d s))) x =
             (if x = Filename pc then
                Some (signature_segment w (emitted w pc) @ control_segment w (emitted w pc)
                      @ data_segment w pc)
              else if x = signature_temp w then Some (signature_segment w (emitted w pc))
              else if x = control_temp w then Some (control_segment w (emitted w pc))
              else if x = data_temp w then Some (data_segment w pc)
              else files s x)"
      by (simp add: pc3 emitted_same c2 files2)
    from p1 p2 p3 show "\<not> isl (signature_of w (emitted w pc)) \<and> files s (signature_temp w) = None \<and>
           files (snd (snd (EmitPackage_data w pc d s))) x =
             (if x = Filename pc then
                Some (signature_segment w (emitted w pc) @ control_segment w (emitted w pc)
                      @ data_segment w pc)
              else if x = signature_temp w then Some (signature_segment w (emitted w pc))
              else if x = control_temp w then Some (control_segment w (emitted w pc))
              else if x = data_temp w then Some (data_segment w pc)
              else files s x)"
      by blast
  }
qed

lemma EmitPackage_success:
  assumes ok: "fst (EmitPackage w pc s) = None"
  shows "fst (sizing w pc) = None"
    and "fst (GenerateDependencies w (snd (sizing w pc))) = None"
    and "fst (snd (EmitPackage w pc s)) = emitted w pc"
    and "files s (data_temp w) = None" and "files s (control_temp w) = None"
    and "SigningKey (Context pc) = [] \<Longrightarrow>
           files (snd (snd (EmitPackage w pc s))) x =
             (if x = Filename pc then
                Some (control_segment w (emitted w pc) @ data_segment w pc)
              else if x = control_temp w then Some (control_segment w (emitted w pc))
              else if x = data_temp w then Some (data_segment w pc)
              else files s x)"
    and "SigningKey (Context pc) \<noteq> [] \<Longrightarrow>
           \<not> isl (signature_of w (emitted w pc)) \<and> files s (signature_temp w) = None \<and>
           files (snd (snd (EmitPackage w pc s))) x =
             (if x = Filename pc then
                Some (signature_segment w (emitted w pc) @ control_segment w (emitted w pc)
                      @ data_segment w pc)
              else if x = signature_temp w then Some (signature_segment w (emitted w pc))
              else if x = control_temp w then Some (control_segment w (emitted w pc))
              else if x = data_temp w then Some (data_segment w pc)
              else files s x)"
proof -
  from ok obtain d s1 where ct: "CreateTemp w ''melange-data-*.tar.gz'' s = (Inr d, s1)"
    by (auto simp: EmitPackage_def split: sum.splits prod.splits)
  with ok have dat: "fst (EmitPackage_data w pc d s1) = None"
    and res: "snd (EmitPackage w pc s) =
        (fst (snd (EmitPackage_data w pc d s1)), Close d (snd (snd (EmitPackage_data w pc d s1))))"
    by (auto simp: EmitPackage_def split: sum.splits prod.splits)
  note t = CreateTemp_success [OF ct, folded data_temp_def]
  have h1: "handle_of s1 d = Some (data_temp w, 0)" by (simp add: t(4))
  have e1: "files s1 (data_temp w) = Some []" by (simp add: t(3))
  note ds = data_success [OF dat h1 e1]
  show "fst (sizing w pc) = None" by (rule ds(1))
  show "fst (GenerateDependencies w (snd (sizing w pc))) = None" by (rule ds(2))
  show "fst (snd (EmitPackage w pc s)) = emitted w pc" by (simp add: res ds(3))
  show "files s (data_temp w) = None" by (rule t(2))
  from ds(4) show "files s (control_temp w) = None" by (simp add: t(3) split: if_splits)
  {
    assume key: "SigningKey (Context pc) = []"
    from ds(5) [OF key, of x] show "files (snd (snd (EmitPackage w pc s))) x =
             (if x = Filename pc then
                Some (control_segment w (emitted w pc) @ data_segment w pc)
              else if x = control_temp w then Some (control_segment w (emitted w pc))
              else if x = data_temp w then Some (data_segment w pc)
              else files s x)"
      by (simp add: res Close_obs t(3))
  }
  {
    assume key: "SigningKey (Context pc) \<noteq> []"
    note sg = ds(6) [OF key, of x]
    from sg have p1: "\<not> isl (signature_of w (emitted w pc))" by blast
    from sg have "files s1 (signature_temp w) = None" by blast
    then have p2: "files s (signature_temp w) = None"
      by (simp add: t(3) split: if_splits)
    from sg have "files (snd (snd (EmitPackage_data w pc d s1))) x =
             (if x = Filename pc then
                Some (signature_segment w (emitted w pc) @ control_segment w (emitted w pc)
                      @ data_segment w pc)
              else if x = signature_temp w then Some (signature_segment w (emitted w pc))
              else if x = control_temp w then Some (control_segment w (emitted w pc))
              else if x = data_temp w then Some (data_segment w pc)
              else files s1 x)"
      by blast
    then have p3: "files (snd (snd (EmitPackage w pc s))) x =
             (if x = Filename pc then
                Some (signature_segment w (emitted w pc) @ control_segment w (emitted w pc)
                      @ data_segment w pc)
              else if x = signature_temp w then Some (signature_segment w (emitted w pc))
              else if x = control_temp w then Some (control_segment w (emitted w pc))
              else if x = data_temp w then Some (data_segment w pc)
              else files s x)"
      by (simp add: res Close_obs t(3))
    from p1 p2 p3 show "\<not> isl (signature_of w (emitted w pc)) \<and> files s (signature_temp w) = None \<and>
           files (snd (snd (EmitPackage w pc s))) x =
             (if x = Filename pc then
                Some (signature_segment w (emitted w pc) @ control_segment w (emitted w pc)
                      @ data_segment w pc)
              else if x = signature_temp w then Some (signature_segment w (emitted w pc))
              else if x = control_temp w then Some (control_segment w (emitted w pc))
              else if x = data_temp w then Some (data_segment w pc)
              else files s x)"
      by blast
  }
qed

lemma temp_names_distinct:
  "data_temp w \<noteq> control_temp w" "data_temp w \<noteq> signature_temp w"
  "control_temp w \<noteq> signature_temp w"
  by (simp_all add: data_temp_def control_temp_def signature_temp_def temp_name_def
      prefixAndSuffix_def joinPath_def)

lemma temp_not_Filename:
  "data_temp w \<noteq> Filename pc" "control_temp w \<noteq> Filename pc" "signature_temp w \<noteq> Filename pc"
  by (simp_all add: data_temp_def control_temp_def signature_temp_def temp_name_not_Filename)

lemma WalkDir_size_sum:
  "fst (WalkDir size_visit vs pc) = None \<Longrightarrow>
     InstalledSize (snd (WalkDir size_visit vs pc)) = InstalledSize pc + entries_size vs"
proof (induction vs arbitrary: pc)
  case Nil
  show ?case by (simp add: entries_size_def)
next
  case (Cons v vs)
  from Cons.prems obtain pc1 where step: "size_visit v pc = (None, pc1)"
    and rest: "fst (WalkDir size_visit vs pc1) = None"
    by (cases "size_visit v pc") (auto split: option.splits)
  from step have "InstalledSize pc1 = InstalledSize pc + visit_size v"
    by (auto simp: size_visit_def visit_size_def split: option.splits sum.splits)
  with Cons.IH [OF rest] step show ?case
    by (simp add: entries_size_def add.assoc)
qed

subsection \<open>Every exit path\<close>

lemma keeps_refl: "keeps s s"
  by (simp add: keeps_def)

lemma keeps_trans: "keeps s s1 \<Longrightarrow> keeps s1 s2 \<Longrightarrow> keeps s s2"
  by (simp add: keeps_def)

lemma released_refl: "released s s"
  by (auto simp: released_def intro: exI [of _ 0])

lemma keeps_released: "keeps s s1 \<Longrightarrow> released s1 s2 \<Longrightarrow> released s s2"
  by (simp add: keeps_def released_def)

lemma status_update_open:
  assumes "handle_of s h = Some x"
  shows "handle_status (s\<lparr>handles := (handles s)[h := Some y]\<rparr>) = handle_status s"
proof -
  from assms have "h < length (handles s)" and "handles s ! h = Some x"
    by (auto simp: handle_of_def split: if_splits)
  then have "(map (\<lambda>x. x \<noteq> None) (handles s))[h := True] = map (\<lambda>x. x \<noteq> None) (handles s)"
    by (simp add: list_update_same_conv)
  then show ?thesis
    by (simp add: handle_status_def map_update)
qed

lemma keeps_Write: "keeps s (snd (Write w h p s))"
proof (cases "handle_of s h")
  case None
  then show ?thesis by (simp add: Write_def keeps_refl)
next
  case (Some x)
  obtain name off where x: "x = (name, off)" by (cases x)
  from Some x have st: "handle_status (s\<lparr>handles := (handles s)[h := Some y]\<rparr>) = handle_status s" for y
    by (intro status_update_open) simp
  have st': "handle_status (s\<lparr>files := f, handles := (handles s)[h := Some y]\<rparr>) = handle_status s" for f y
    using st [of y] by (simp add: handle_status_def)
  from Some x show ?thesis
    by (simp add: Write_def Let_def keeps_def st')
qed

lemma keeps_Seek_start: "keeps s (snd (Seek_start w st h s))"
proof (cases "handle_of s h")
  case None
  then show ?thesis by (simp add: Seek_start_def keeps_refl)
next
  case (Some x)
  obtain name off where x: "x = (name, off)" by (cases x)
  from Some x have st: "handle_status (s\<lparr>handles := (handles s)[h := Some y]\<rparr>) = handle_status s" for y
    by (intro status_update_open) simp
  from Some x show ?thesis
    by (auto simp: Seek_start_def keeps_def st split: option.splits)
qed

lemma keeps_Copy: "keeps s (snd (Copy w out inp s))"
proof (cases "handle_of s inp")
  case None
  then show ?thesis by (simp add: Copy_def keeps_refl)
next
  case (Some x)
  obtain name off where x: "x = (name, off)" by (cases x)
  let ?s = "s\<lparr>handles := (handles s)[inp := Some (name, max off (length (contents s name)))]\<rparr>"
  from Some x have "handle_status ?s = handle_status s"
    by (intro status_update_open) simp
  then have one: "keeps s ?s"
    by (simp add: keeps_def)
  have "Copy w out inp s = Write w out (drop off (contents s name)) ?s"
    using Some x by (simp add: Copy_def Let_def)
  with keeps_trans [OF one keeps_Write [of ?s w out "drop off (contents s name)"]]
  show ?thesis by simp
qed

lemma keeps_combine: "keeps s (snd (combine w out parts s))"
proof (induction parts arbitrary: s)
  case Nil
  show ?case by (simp add: keeps_refl)
next
  case (Cons p ps)
  obtain r s1 where step: "Copy w out p s = (r, s1)" by (cases "Copy w out p s")
  with keeps_Copy [of s w out p] have one: "keeps s s1" by simp
  show ?case
  proof (cases r)
    case None
    with step keeps_trans [OF one Cons.IH [of s1]] show ?thesis by simp
  next
    case (Some e)
    with step one show ?thesis by simp
  qed
qed

lemma keeps_write_chunks:
  assumes "\<And>p st. keeps (P st) (P (snd (wr p st)))"
  shows "keeps (P st) (P (snd (write_chunks wr ps st)))"
proof (induction ps arbitrary: st)
  case Nil
  show ?case by (simp add: keeps_refl)
next
  case (Cons p ps)
  obtain r st1 where step: "wr p st = (r, st1)" by (cases "wr p st")
  with assms [of st p] have one: "keeps (P st) (P st1)" by simp
  show ?case
  proof (cases r)
    case None
    with step keeps_trans [OF one Cons.IH [of st1]] show ?thesis by simp
  next
    case (Some e)
    with step one show ?thesis by simp
  qed
qed

lemma snd_WriteArchive:
  "snd (WriteArchive w opts wr fsys st) =
     snd (write_chunks wr (fst (WriteArchive_chunks w opts fsys)) st)"
  by (auto simp: WriteArchive_def split: prod.splits option.splits)

lemma keeps_WriteArchive_Write: "keeps s (snd (WriteArchive w opts (Write w h) fsys s))"
  using keeps_write_chunks [of "\<lambda>s. s" "Write w h" s] keeps_Write
  by (simp add: snd_WriteArchive)

lemma keeps_WriteArchive_MultiWrite:
  "keeps s (snd (snd (WriteArchive w opts (MultiWrite w h) fsys (d, s))))"
proof -
  have "keeps (snd st) (snd (snd (MultiWrite w h p st)))" for p st
    using keeps_Write [of "snd st" w h p]
    by (cases st) (simp add: MultiWrite_apply)
  from keeps_write_chunks [of snd "MultiWrite w h" "(d, s)", OF this]
  show ?thesis by (simp add: snd_WriteArchive)
qed

lemma scope_released:
  assumes st: "handle_status s1 = handle_status s @ [True]"
    and fl: "\<forall>x. files s x \<noteq> None \<longrightarrow> files s1 x \<noteq> None"
    and inner: "released s1 s2"
  shows "released s (Close (length (handles s)) s2)"
proof -
  from inner obtain k where k: "handle_status s2 = handle_status s1 @ replicate k False"
    and fl2: "\<forall>x. files s1 x \<noteq> None \<longrightarrow> files s2 x \<noteq> None"
    by (auto simp: released_def)
  have len: "length (handle_status s) = length (handles s)"
    by (simp add: handle_status_def)
  have "handle_status (Close (length (handles s)) s2) = (handle_status s2)[length (handles s) := False]"
    by (simp add: Close_def handle_status_def map_update)
  also have "\<dots> = handle_status s @ replicate (Suc k) False"
    using len by (simp add: k st list_update_append)
  finally have "\<exists>k. handle_status (Close (length (handles s)) s2) = handle_status s @ replicate k False"
    by blast
  moreover have "\<forall>x. files s x \<noteq> None \<longrightarrow> files (Close (length (handles s)) s2) x \<noteq> None"
    using fl fl2 by (simp add: Close_def)
  ultimately show ?thesis by (simp add: released_def)
qed

lemma CreateTemp_either:
  "(\<exists>e. CreateTemp w pattern s = (Inl e, s)) \<or>
   (\<exists>s1. CreateTemp w pattern s = (Inr (length (handles s)), s1) \<and>
      handle_status s1 = handle_status s @ [True] \<and>
      (\<forall>x. files s x \<noteq> None \<longrightarrow> files s1 x \<noteq> None) \<and>
      files s1 (temp_name w pattern) \<noteq> None)"
  by (auto simp: CreateTemp_def Let_def handle_status_def split: option.splits)

lemma Create_either:
  "(\<exists>e. Create w name s = (Inl e, s)) \<or>
   (\<exists>s1. Create w name s = (Inr (length (handles s)), s1) \<and>
      handle_status s1 = handle_status s @ [True] \<and>
      (\<forall>x. files s x \<noteq> None \<longrightarrow> files s1 x \<noteq> None) \<and>
      files s1 name \<noteq> None)"
  by (auto simp: Create_def Let_def handle_status_def split: option.splits)

lemma released_assemble: "released s (snd (EmitPackage_assemble w pc parts s))"
proof (cases "fault w MkdirAllOutDir")
  case (Some e)
  then show ?thesis by (simp add: EmitPackage_assemble_def released_refl)
next
  case None
  from Create_either [of w "Filename pc" s] show ?thesis
  proof (elim disjE exE conjE)
    fix e assume "Create w (Filename pc) s = (Inl e, s)"
    with None show ?thesis by (simp add: EmitPackage_assemble_def released_refl)
  next
    fix s1 assume cr: "Create w (Filename pc) s = (Inr (length (handles s)), s1)"
      and st: "handle_status s1 = handle_status s @ [True]"
      and fl: "\<forall>x. files s x \<noteq> None \<longrightarrow> files s1 x \<noteq> None"
    let ?s2 = "snd (combine w (length (handles s)) parts s1)"
    have res: "snd (EmitPackage_assemble w pc parts s) = Close (length (handles s)) ?s2"
      using None cr by (simp add: EmitPackage_assemble_def split: prod.splits option.splits)
    have "released s1 ?s2"
      by (rule keeps_released [OF keeps_combine released_refl])
    from scope_released [OF st fl this] res show ?thesis by simp
  qed
qed

lemma released_signature: "released s (snd (EmitPackage_signature w pc cd c d s))"
proof (cases "RSASignSHA1Digest w (sha1_Sum w cd) (SigningKey (Context pc)) (SigningPassphrase (Context pc))")
  case (Inl e)
  then show ?thesis by (simp add: EmitPackage_signature_def released_refl)
next
  case (Inr sig)
  show ?thesis
  proof (cases "fault w WriteFileSignature")
    case (Some e)
    with Inr show ?thesis by (simp add: EmitPackage_signature_def released_refl)
  next
    case None
    let ?fs = "MemFS [(SignatureName pc, sig, 420)]"
    from CreateTemp_either [of w "''melange-signature-*.tar.gz''" s] show ?thesis
    proof (elim disjE exE conjE)
      fix e assume "CreateTemp w ''melange-signature-*.tar.gz'' s = (Inl e, s)"
      with Inr None show ?thesis by (simp add: EmitPackage_signature_def released_refl)
    next
      fix s1 assume ct: "CreateTemp w ''melange-signature-*.tar.gz'' s = (Inr (length (handles s)), s1)"
        and st: "handle_status s1 = handle_status s @ [True]"
        and fl: "\<forall>x. files s x \<noteq> None \<longrightarrow> files s1 x \<noteq> None"
      let ?sg = "length (handles s)"
      let ?r2 = "WriteArchive w (multitarctx pc) (Write w ?sg) ?fs s1"
      let ?r3 = "Seek_start w SeekSignature ?sg (snd ?r2)"
      let ?r4 = "EmitPackage_assemble w pc [?sg, c, d] (snd ?r3)"
      have k2: "keeps s1 (snd ?r2)" by (rule keeps_WriteArchive_Write)
      have k3: "keeps s1 (snd ?r3)" by (rule keeps_trans [OF k2 keeps_Seek_start])
      have k4: "released s1 (snd ?r4)" by (rule keeps_released [OF k3 released_assemble])
      let ?s' = "if fst ?r2 \<noteq> None then snd ?r2
                 else if fst ?r3 \<noteq> None then snd ?r3 else snd ?r4"
      have res: "snd (EmitPackage_signature w pc cd c d s) = Close ?sg ?s'"
        using Inr None ct
        by (auto simp: EmitPackage_signature_def Let_def split: prod.splits option.splits)
      have inner: "released s1 ?s'"
        using keeps_released [OF k2 released_refl] keeps_released [OF k3 released_refl] k4
        by simp
      from scope_released [OF st fl inner] res show ?thesis by simp
    qed
  qed
qed

lemma released_control: "released s (snd (EmitPackage_control w pc d s))"
proof (cases "fault w NewContextControl = None \<and> fault w ExecuteTemplate = None \<and>
    fault w WriteFileControl = None")
  case False
  then show ?thesis
    by (auto simp: EmitPackage_control_def Let_def released_refl split: option.splits)
next
  case True
  let ?fs = "MemFS [(''.PKGINFO'', GenerateControlData pc, 420)]"
  from CreateTemp_either [of w "''melange-control-*.tar.gz''" s] show ?thesis
  proof (elim disjE exE conjE)
    fix e assume "CreateTemp w ''melange-control-*.tar.gz'' s = (Inl e, s)"
    with True show ?thesis by (simp add: EmitPackage_control_def released_refl)
  next
    fix s1 assume ct: "CreateTemp w ''melange-control-*.tar.gz'' s = (Inr (length (handles s)), s1)"
      and st: "handle_status s1 = handle_status s @ [True]"
      and fl: "\<forall>x. files s x \<noteq> None \<longrightarrow> files s1 x \<noteq> None"
    let ?c = "length (handles s)"
    let ?r2 = "WriteArchive w (multitarctx pc) (MultiWrite w ?c) ?fs ([], s1)"
    let ?s2 = "snd (snd ?r2)"
    let ?r3 = "Seek_start w SeekControl ?c ?s2"
    let ?r4 = "if SigningKey (Context pc) \<noteq> [] then
                 EmitPackage_signature w pc (fst (snd ?r2)) ?c d (snd ?r3)
               else EmitPackage_assemble w pc [?c, d] (snd ?r3)"
    have k2: "keeps s1 ?s2" by (rule keeps_WriteArchive_MultiWrite)
    have k3: "keeps s1 (snd ?r3)" by (rule keeps_trans [OF k2 keeps_Seek_start])
    have "released (snd ?r3) (snd ?r4)"
      by (simp add: released_signature released_assemble)
    then have k4: "released s1 (snd ?r4)" by (rule keeps_released [OF k3])
    let ?s' = "if fst ?r2 \<noteq> None then ?s2
               else if fst ?r3 \<noteq> None then snd ?r3 else snd ?r4"
    have res: "snd (EmitPackage_control w pc d s) = Close ?c ?s'"
      using True ct
      by (auto simp: EmitPackage_control_def Let_def split: prod.splits option.splits)
    have inner: "released s1 ?s'"
      using keeps_released [OF k2 released_refl] keeps_released [OF k3 released_refl] k4
      by simp
    from scope_released [OF st fl inner] res show ?thesis by simp
  qed
qed

lemma released_data: "released s (snd (snd (EmitPackage_data w pc d s)))"
proof -
  let ?pc1 = "snd (sizing w pc)"
  let ?pc2 = "snd (GenerateDependencies w ?pc1)"
  let ?r1 = "WriteArchive w (tarctx ?pc2) (MultiWrite w d) (DirFS (WorkspaceSubdir pc)) ([], s)"
  let ?s1 = "snd (snd ?r1)"
  let ?pc3 = "?pc2\<lparr>DataHash := EncodeToString (sha256_Sum w (fst (snd ?r1)))\<rparr>"
  let ?r2 = "Seek_start w SeekData d ?s1"
  let ?r3 = "EmitPackage_control w ?pc3 d (snd ?r2)"
  have k1: "keeps s ?s1" by (rule keeps_WriteArchive_MultiWrite)
  have k2: "keeps s (snd ?r2)" by (rule keeps_trans [OF k1 keeps_Seek_start])
  have k3: "released s (snd ?r3)" by (rule keeps_released [OF k2 released_control])
  have "snd (snd (EmitPackage_data w pc d s)) = s \<or>
        snd (snd (EmitPackage_data w pc d s)) = ?s1 \<or>
        snd (snd (EmitPackage_data w pc d s)) = snd ?r2 \<or>
        snd (snd (EmitPackage_data w pc d s)) = snd ?r3"
    by (auto simp: EmitPackage_data_def Let_def split: prod.splits option.splits)
  with released_refl [of s] keeps_released [OF k1 released_refl]
    keeps_released [OF k2 released_refl] k3
  show ?thesis by auto
qed

lemma released_EmitPackage: "released s (snd (snd (EmitPackage w pc s)))"
  using CreateTemp_either [of w "''melange-data-*.tar.gz''" s]
proof (elim disjE exE conjE)
  fix e assume "CreateTemp w ''melange-data-*.tar.gz'' s = (Inl e, s)"
  then show ?thesis by (simp add: EmitPackage_def released_refl)
next
  fix s1 assume ct: "CreateTemp w ''melange-data-*.tar.gz'' s = (Inr (length (handles s)), s1)"
    and st: "handle_status s1 = handle_status s @ [True]"
    and fl: "\<forall>x. files s x \<noteq> None \<longrightarrow> files s1 x \<noteq> None"
  from ct have res: "snd (snd (EmitPackage w pc s)) =
      Close (length (handles s)) (snd (snd (EmitPackage_data w pc (length (handles s)) s1)))"
    by (simp add: EmitPackage_def split: prod.splits)
  from scope_released [OF st fl released_data] res show ?thesis by simp
qed

lemma data_temp_remains:
  assumes "\<not> isl (fst (CreateTemp w ''melange-data-*.tar.gz'' s))"
  shows "files (snd (snd (EmitPackage w pc s))) (data_temp w) \<noteq> None"
  using CreateTemp_either [of w "''melange-data-*.tar.gz''" s]
proof (elim disjE exE conjE)
  fix e assume "CreateTemp w ''melange-data-*.tar.gz'' s = (Inl e, s)"
  with assms show ?thesis by simp
next
  fix s1 assume ct: "CreateTemp w ''melange-data-*.tar.gz'' s = (Inr (length (handles s)), s1)"
    and there: "files s1 (temp_name w ''melange-data-*.tar.gz'') \<noteq> None"
  from ct have res: "snd (snd (EmitPackage w pc s)) =
      Close (length (handles s)) (snd (snd (EmitPackage_data w pc (length (handles s)) s1)))"
    by (simp add: EmitPackage_def split: prod.splits)
  from released_data [of s1 w pc "length (handles s)"] there
  have "files (snd (snd (EmitPackage_data w pc (length (handles s)) s1))) (data_temp w) \<noteq> None"
    by (simp add: released_def data_temp_def)
  with res show ?thesis by (simp add: Close_def)
qed

lemma released_open_handles:
  assumes "released s s'"
  shows "open_handles s' = open_handles s"
proof -
  from assms obtain k where k: "handle_status s' = handle_status s @ replicate k False"
    by (auto simp: released_def)
  have nth: "handles t ! h \<noteq> None \<longleftrightarrow> handle_status t ! h" if "h < length (handles t)" for t h
    using that by (simp add: handle_status_def)
  have hl: "length (handle_status t) = length (handles t)" for t
    by (simp add: handle_status_def)
  have len: "length (handles s') = length (handles s) + k"
    using arg_cong [OF k, of length] by (simp add: hl)
  have old: "filter (\<lambda>h. handles s' ! h \<noteq> None) [0..<length (handles s)] =
             filter (\<lambda>h. handles s ! h \<noteq> None) [0..<length (handles s)]"
  proof (rule filter_cong [OF refl])
    fix h assume "h \<in> set [0..<length (handles s)]"
    then have h: "h < length (handles s)" by simp
    with len have "handles s' ! h \<noteq> None \<longleftrightarrow> handle_status s' ! h"
      by (intro nth) simp
    also have "\<dots> \<longleftrightarrow> handle_status s ! h"
      using h by (simp add: k nth_append hl)
    also have "\<dots> \<longleftrightarrow> handles s ! h \<noteq> None"
      by (rule nth [OF h, symmetric])
    finally show "handles s' ! h \<noteq> None \<longleftrightarrow> handles s ! h \<noteq> None" .
  qed
  have new: "filter (\<lambda>h. handles s' ! h \<noteq> None) [length (handles s)..<length (handles s) + k] = []"
  proof (rule filter_False, rule ballI)
    fix h assume "h \<in> set [length (handles s)..<length (handles s) + k]"
    then have h: "length (handles s) \<le> h" "h < length (handles s) + k" by simp_all
    with len have "handles s' ! h \<noteq> None \<longleftrightarrow> handle_status s' ! h"
      by (intro nth) simp
    also have "\<dots> \<longleftrightarrow> False"
      using h by (simp add: k nth_append hl)
    finally show "\<not> handles s' ! h \<noteq> None" by simp
  qed
  have split: "[0..<length (handles s) + k] =
      [0..<length (handles s)] @ [length (handles s)..<length (handles s) + k]"
    by (rule upt_add_eq_append) simp
  have "open_handles s' = filter (\<lambda>h. handles s' ! h \<noteq> None) [0..<length (handles s) + k]"
    by (simp only: open_handles_def len)
  also have "\<dots> = filter (\<lambda>h. handles s' ! h \<noteq> None) [0..<length (handles s)] @
      filter (\<lambda>h. handles s' ! h \<noteq> None) [length (handles s)..<length (handles s) + k]"
    by (simp only: split filter_append)
  also have "\<dots> = open_handles s"
    by (simp only: old new append_Nil2 open_handles_def)
  finally show ?thesis .
qed

subsection \<open>The files an emission leaves\<close>

lemma released_files: "released s s' \<Longrightarrow> files s x \<noteq> None \<Longrightarrow> files s' x \<noteq> None"
  by (simp add: released_def)

lemma keeps_files: "keeps s s' \<Longrightarrow> files s x \<noteq> None \<Longrightarrow> files s' x \<noteq> None"
  by (simp add: keeps_def)

lemma left_assemble:
  assumes "\<not> failed_with (fst (EmitPackage_assemble w pc parts s)) before_output_file"
  shows "files (snd (EmitPackage_assemble w pc parts s)) (Filename pc) \<noteq> None"
proof (cases "fault w MkdirAllOutDir")
  case (Some e)
  with assms show ?thesis
    by (simp add: EmitPackage_assemble_def before_output_file_def)
next
  case None
  from Create_either [of w "Filename pc" s] show ?thesis
  proof (elim disjE exE conjE)
    fix e assume "Create w (Filename pc) s = (Inl e, s)"
    with None assms show ?thesis
      by (simp add: EmitPackage_assemble_def before_output_file_def)
  next
    fix s1 assume cr: "Create w (Filename pc) s = (Inr (length (handles s)), s1)"
      and there: "files s1 (Filename pc) \<noteq> None"
    let ?s2 = "snd (combine w (length (handles s)) parts s1)"
    have res: "snd (EmitPackage_assemble w pc parts s) = Close (length (handles s)) ?s2"
      using None cr by (simp add: EmitPackage_assemble_def split: prod.splits option.splits)
    from keeps_files [OF keeps_combine there] res show ?thesis
      by (simp add: Close_obs)
  qed
qed

lemma left_signature:
  fixes w pc cd c d s
  defines "S \<equiv> EmitPackage_signature w pc cd c d s"
  shows "\<not> failed_with (fst S) before_signature_segment \<Longrightarrow> files (snd S) (signature_temp w) \<noteq> None"
    and "\<not> failed_with (fst S) before_output_file \<Longrightarrow> files (snd S) (Filename pc) \<noteq> None"
proof -
  have "(\<not> failed_with (fst S) before_signature_segment \<longrightarrow> files (snd S) (signature_temp w) \<noteq> None) \<and>
        (\<not> failed_with (fst S) before_output_file \<longrightarrow> files (snd S) (Filename pc) \<noteq> None)"
  proof (cases "RSASignSHA1Digest w (sha1_Sum w cd) (SigningKey (Context pc)) (SigningPassphrase (Context pc))")
    case (Inl e)
    then show ?thesis
      by (simp add: S_def EmitPackage_signature_def before_signature_segment_def
          before_output_file_def)
  next
    case (Inr sig)
    show ?thesis
    proof (cases "fault w WriteFileSignature")
      case (Some e)
      with Inr show ?thesis
        by (simp add: S_def EmitPackage_signature_def before_signature_segment_def
            before_output_file_def)
    next
      case None
      let ?fs = "MemFS [(SignatureName pc, sig, 420)]"
      from CreateTemp_either [of w "''melange-signature-*.tar.gz''" s] show ?thesis
      proof (elim disjE exE conjE)
        fix e assume "CreateTemp w ''melange-signature-*.tar.gz'' s = (Inl e, s)"
        with Inr None show ?thesis
          by (simp add: S_def EmitPackage_signature_def before_signature_segment_def
              before_output_file_def before_control_segment_def)
      next
        fix s1 assume ct: "CreateTemp w ''melange-signature-*.tar.gz'' s = (Inr (length (handles s)), s1)"
          and there: "files s1 (temp_name w ''melange-signature-*.tar.gz'') \<noteq> None"
        let ?sg = "length (handles s)"
        let ?r2 = "WriteArchive w (multitarctx pc) (Write w ?sg) ?fs s1"
        let ?r3 = "Seek_start w SeekSignature ?sg (snd ?r2)"
        let ?r4 = "EmitPackage_assemble w pc [?sg, c, d] (snd ?r3)"
        have k2: "keeps s1 (snd ?r2)" by (rule keeps_WriteArchive_Write)
        have k3: "keeps s1 (snd ?r3)" by (rule keeps_trans [OF k2 keeps_Seek_start])
        have k4: "released s1 (snd ?r4)" by (rule keeps_released [OF k3 released_assemble])
        let ?s' = "if fst ?r2 \<noteq> None then snd ?r2
                   else if fst ?r3 \<noteq> None then snd ?r3 else snd ?r4"
        have res: "snd S = Close ?sg ?s'"
          using Inr None ct
          by (auto simp: S_def EmitPackage_signature_def Let_def split: prod.splits option.splits)
        have err: "fst S =
            (if fst ?r2 \<noteq> None then Some (Wrapped ''unable to write signature tarball'' (the (fst ?r2)))
             else if fst ?r3 \<noteq> None then Some (Wrapped ''unable to rewind signature tarball'' (the (fst ?r3)))
             else fst ?r4)"
          using Inr None ct
          by (auto simp: S_def EmitPackage_signature_def Let_def split: prod.splits option.splits)
        have sn: "files ?s' (signature_temp w) \<noteq> None"
          using keeps_files [OF k2 there] keeps_files [OF k3 there] released_files [OF k4 there]
          by (simp add: signature_temp_def)
        have fn: "files ?s' (Filename pc) \<noteq> None" if "\<not> failed_with (fst S) before_output_file"
        proof -
          from that have "fst ?r2 = None" "fst ?r3 = None"
            by (auto simp: err before_output_file_def split: if_splits)
          with that left_assemble [of w pc "[?sg, c, d]" "snd ?r3"] show ?thesis
            by (simp add: err)
        qed
        from sn fn show ?thesis
          by (simp add: res Close_obs)
      qed
    qed
  qed
  then show "\<not> failed_with (fst S) before_signature_segment \<Longrightarrow> files (snd S) (signature_temp w) \<noteq> None"
    and "\<not> failed_with (fst S) before_output_file \<Longrightarrow> files (snd S) (Filename pc) \<noteq> None"
    by blast+
qed

lemma left_control:
  fixes w pc d s
  defines "C \<equiv> EmitPackage_control w pc d s"
  shows "\<not> failed_with (fst C) before_control_segment \<Longrightarrow> files (snd C) (control_temp w) \<noteq> None"
    and "fault w (CreateTempAt ''melange-control-*.tar.gz'') = None \<Longrightarrow>
           \<not> failed_with (fst C) before_control_temp \<Longrightarrow> files (snd C) (control_temp w) \<noteq> None"
    and "SigningKey (Context pc) \<noteq> [] \<Longrightarrow> \<not> failed_with (fst C) before_signature_segment \<Longrightarrow>
           files (snd C) (signature_temp w) \<noteq> None"
    and "\<not> failed_with (fst C) before_output_file \<Longrightarrow> files (snd C) (Filename pc) \<noteq> None"
proof -
  have "(\<not> failed_with (fst C) before_control_segment \<longrightarrow> files (snd C) (control_temp w) \<noteq> None) \<and>
        (fault w (CreateTempAt ''melange-control-*.tar.gz'') = None \<and>
           \<not> failed_with (fst C) before_control_temp \<longrightarrow> files (snd C) (control_temp w) \<noteq> None) \<and>
        (SigningKey (Context pc) \<noteq> [] \<and> \<not> failed_with (fst C) before_signature_segment \<longrightarrow>
           files (snd C) (signature_temp w) \<noteq> None) \<and>
        (\<not> failed_with (fst C) before_output_file \<longrightarrow> files (snd C) (Filename pc) \<noteq> None)"
  proof (cases "fault w NewContextControl = None \<and> fault w ExecuteTemplate = None \<and>
      fault w WriteFileControl = None")
    case False
    then show ?thesis
      by (auto simp: C_def EmitPackage_control_def Let_def before_control_temp_def
          before_control_segment_def before_signature_segment_def before_output_file_def
          split: option.splits)
  next
    case True
    let ?fs = "MemFS [(''.PKGINFO'', GenerateControlData pc, 420)]"
    from CreateTemp_either [of w "''melange-control-*.tar.gz''" s] show ?thesis
    proof (elim disjE exE conjE)
      fix e assume ct: "CreateTemp w ''melange-control-*.tar.gz'' s = (Inl e, s)"
      with True have err: "fst C = Some (Wrapped ''unable to open temporary file for writing'' e)"
        and res: "snd C = s"
        by (simp_all add: C_def EmitPackage_control_def)
      have "files s (control_temp w) \<noteq> None"
        if "fault w (CreateTempAt ''melange-control-*.tar.gz'') = None"
        using that ct
        by (auto simp: CreateTemp_def Let_def control_temp_def split: option.splits if_splits)
      then show ?thesis
        by (simp add: err res before_control_segment_def before_signature_segment_def
            before_output_file_def)
    next
      fix s1 assume ct: "CreateTemp w ''melange-control-*.tar.gz'' s = (Inr (length (handles s)), s1)"
        and there: "files s1 (temp_name w ''melange-control-*.tar.gz'') \<noteq> None"
      let ?c = "length (handles s)"
      let ?r2 = "WriteArchive w (multitarctx pc) (MultiWrite w ?c) ?fs ([], s1)"
      let ?s2 = "snd (snd ?r2)"
      let ?r3 = "Seek_start w SeekControl ?c ?s2"
      let ?r4 = "if SigningKey (Context pc) \<noteq> [] then
                   EmitPackage_signature w pc (fst (snd ?r2)) ?c d (snd ?r3)
                 else EmitPackage_assemble w pc [?c, d] (snd ?r3)"
      have k2: "keeps s1 ?s2" by (rule keeps_WriteArchive_MultiWrite)
      have k3: "keeps s1 (snd ?r3)" by (rule keeps_trans [OF k2 keeps_Seek_start])
      have "released (snd ?r3) (snd ?r4)"
        by (simp add: released_signature released_assemble)
      then have k4: "released s1 (snd ?r4)" by (rule keeps_released [OF k3])
      let ?s' = "if fst ?r2 \<noteq> None then ?s2
                 else if fst ?r3 \<noteq> None then snd ?r3 else snd ?r4"
      have res: "snd C = Close ?c ?s'"
        using True ct
        by (auto simp: C_def EmitPackage_control_def Let_def split: prod.splits option.splits)
      have err: "fst C =
          (if fst ?r2 \<noteq> None then Some (Wrapped ''unable to write control tarball'' (the (fst ?r2)))
           else if fst ?r3 \<noteq> None then Some (Wrapped ''unable to rewind control tarball'' (the (fst ?r3)))
           else fst ?r4)"
        using True ct
        by (auto simp: C_def EmitPackage_control_def Let_def split: prod.splits option.splits)
      have cn: "files ?s' (control_temp w) \<noteq> None"
        using keeps_files [OF k2 there] keeps_files [OF k3 there] released_files [OF k4 there]
        by (simp add: control_temp_def)
      have sn: "files ?s' (signature_temp w) \<noteq> None"
        if key: "SigningKey (Context pc) \<noteq> []" and ok: "\<not> failed_with (fst C) before_signature_segment"
      proof -
        from ok have "fst ?r2 = None" "fst ?r3 = None"
          by (auto simp: err before_signature_segment_def split: if_splits)
        with ok key left_signature(1) [of w pc "fst (snd ?r2)" ?c d "snd ?r3"] show ?thesis
          by (simp add: err)
      qed
      have fn: "files ?s' (Filename pc) \<noteq> None" if ok: "\<not> failed_with (fst C) before_output_file"
      proof -
        from ok have "fst ?r2 = None" "fst ?r3 = None"
          by (auto simp: err before_output_file_def before_signature_segment_def split: if_splits)
        with ok left_signature(2) [of w pc "fst (snd ?r2)" ?c d "snd ?r3"]
          left_assemble [of w pc "[?c, d]" "snd ?r3"]
        show ?thesis
          by (simp add: err split: if_splits)
      qed
      from cn sn fn show ?thesis
        by (simp add: res Close_obs)
    qed
  qed
  then show "\<not> failed_with (fst C) before_control_segment \<Longrightarrow> files (snd C) (control_temp w) \<noteq> None"
    and "fault w (CreateTempAt ''melange-control-*.tar.gz'') = None \<Longrightarrow>
           \<not> failed_with (fst C) before_control_temp \<Longrightarrow> files (snd C) (control_temp w) \<noteq> None"
    and "SigningKey (Context pc) \<noteq> [] \<Longrightarrow> \<not> failed_with (fst C) before_signature_segment \<Longrightarrow>
           files (snd C) (signature_temp w) \<noteq> None"
    and "\<not> failed_with (fst C) before_output_file \<Longrightarrow> files (snd C) (Filename pc) \<noteq> None"
    by blast+
qed

lemma failed_with_mono: "failed_with r xs \<Longrightarrow> set xs \<subseteq> set ys \<Longrightarrow> failed_with r ys"
  by (cases "(r, xs)" rule: failed_with.cases) auto

lemma before_lists:
  "set before_control_temp \<subseteq> set before_control_segment"
  "set before_control_segment \<subseteq> set before_signature_segment"
  "set before_signature_segment \<subseteq> set before_output_file"
  by (auto simp: before_control_segment_def before_signature_segment_def before_output_file_def)

lemma left_data:
  fixes w pc d s
  defines "D \<equiv> EmitPackage_data w pc d s"
  shows "\<not> failed_with (fst D) before_control_segment \<Longrightarrow> files (snd (snd D)) (control_temp w) \<noteq> None"
    and "fault w (CreateTempAt ''melange-control-*.tar.gz'') = None \<Longrightarrow>
           \<not> failed_with (fst D) before_control_temp \<Longrightarrow> files (snd (snd D)) (control_temp w) \<noteq> None"
    and "SigningKey (Context pc) \<noteq> [] \<Longrightarrow> \<not> failed_with (fst D) before_signature_segment \<Longrightarrow>
           files (snd (snd D)) (signature_temp w) \<noteq> None"
    and "\<not> failed_with (fst D) before_output_file \<Longrightarrow> files (snd (snd D)) (Filename pc) \<noteq> None"
proof -
  let ?pc1 = "snd (sizing w pc)"
  let ?pc2 = "snd (GenerateDependencies w ?pc1)"
  let ?r1 = "WriteArchive w (tarctx ?pc2) (MultiWrite w d) (DirFS (WorkspaceSubdir pc)) ([], s)"
  let ?s1 = "snd (snd ?r1)"
  let ?pc3 = "?pc2\<lparr>DataHash := EncodeToString (sha256_Sum w (fst (snd ?r1)))\<rparr>"
  let ?r2 = "Seek_start w SeekData d ?s1"
  let ?C = "EmitPackage_control w ?pc3 d (snd ?r2)"
  have ctx: "Context ?pc3 = Context pc"
    by (simp add: prepared_frame)
  have same: "Filename ?pc3 = Filename pc"
    by (simp add: Filename_def Identity_def prepared_frame)
  have reach: "fst D = fst ?C \<and> snd (snd D) = snd ?C"
    if "\<not> failed_with (fst D) before_control_temp"
    using that
    by (auto simp: D_def EmitPackage_data_def Let_def before_control_temp_def
        split: prod.splits option.splits)
  note sub = before_lists
  show "files (snd (snd D)) (control_temp w) \<noteq> None"
    if ok: "\<not> failed_with (fst D) before_control_segment"
  proof -
    from ok sub(1) have "\<not> failed_with (fst D) before_control_temp"
      by (blast intro: failed_with_mono)
    from reach [OF this] ok left_control(1) [of w ?pc3 d "snd ?r2"] show ?thesis by simp
  qed
  show "files (snd (snd D)) (control_temp w) \<noteq> None"
    if "fault w (CreateTempAt ''melange-control-*.tar.gz'') = None"
      and ok: "\<not> failed_with (fst D) before_control_temp"
    using reach [OF ok] ok that(1) left_control(2) [of w ?pc3 d "snd ?r2"] by simp
  show "files (snd (snd D)) (signature_temp w) \<noteq> None"
    if key: "SigningKey (Context pc) \<noteq> []" and ok: "\<not> failed_with (fst D) before_signature_segment"
  proof -
    from ok sub(1,2) have "\<not> failed_with (fst D) before_control_temp"
      by (blast intro: failed_with_mono)
    then have eq: "fst D = fst ?C" "snd (snd D) = snd ?C"
      using reach by blast+
    from key have "SigningKey (Context ?pc3) \<noteq> []"
      by (simp add: ctx)
    moreover from ok have "\<not> failed_with (fst ?C) before_signature_segment"
      by (simp add: eq)
    ultimately have "files (snd ?C) (signature_temp w) \<noteq> None"
      by (rule left_control(3))
    then show ?thesis
      by (simp add: eq)
  qed
  show "files (snd (snd D)) (Filename pc) \<noteq> None"
    if ok: "\<not> failed_with (fst D) before_output_file"
  proof -
    from ok sub have "\<not> failed_with (fst D) before_control_temp"
      by (blast intro: failed_with_mono)
    then have eq: "fst D = fst ?C" "snd (snd D) = snd ?C"
      using reach by blast+
    from ok have "\<not> failed_with (fst ?C) before_output_file"
      by (simp add: eq)
    then have "files (snd ?C) (Filename ?pc3) \<noteq> None"
      by (rule left_control(4))
    then show ?thesis
      by (simp add: eq same)
  qed
qed

lemma left_EmitPackage:
  fixes w pc s
  defines "E \<equiv> EmitPackage w pc s"
  shows "\<not> failed_with (fst E) before_control_segment \<Longrightarrow> files (snd (snd E)) (control_temp w) \<noteq> None"
    and "\<not> isl (fst (CreateTemp w ''melange-data-*.tar.gz'' s)) \<Longrightarrow>
           fault w (CreateTempAt ''melange-control-*.tar.gz'') = None \<Longrightarrow>
           \<not> failed_with (fst E) before_control_temp \<Longrightarrow> files (snd (snd E)) (control_temp w) \<noteq> None"
    and "SigningKey (Context pc) \<noteq> [] \<Longrightarrow> \<not> failed_with (fst E) before_signature_segment \<Longrightarrow>
           files (snd (snd E)) (signature_temp w) \<noteq> None"
    and "\<not> failed_with (fst E) before_output_file \<Longrightarrow> files (snd (snd E)) (Filename pc) \<noteq> None"
proof -
  have early: "failed_with (fst E) before_control_segment"
    if "isl (fst (CreateTemp w ''melange-data-*.tar.gz'' s))"
    using that
    by (auto simp: E_def EmitPackage_def before_control_segment_def split: prod.splits sum.splits)
  have reach: "fst E = fst (EmitPackage_data w pc (length (handles s)) s1) \<and>
      files (snd (snd E)) = files (snd (snd (EmitPackage_data w pc (length (handles s)) s1)))"
    if "CreateTemp w ''melange-data-*.tar.gz'' s = (Inr (length (handles s)), s1)" for s1
    using that by (simp add: E_def EmitPackage_def Close_obs split: prod.splits)
  have created: "\<exists>s1. CreateTemp w ''melange-data-*.tar.gz'' s = (Inr (length (handles s)), s1)"
    if "\<not> isl (fst (CreateTemp w ''melange-data-*.tar.gz'' s))"
    using that CreateTemp_either [of w "''melange-data-*.tar.gz''" s] by auto
  note sub = before_lists
  show "files (snd (snd E)) (control_temp w) \<noteq> None"
    if ok: "\<not> failed_with (fst E) before_control_segment"
  proof -
    from ok early created obtain s1
      where "CreateTemp w ''melange-data-*.tar.gz'' s = (Inr (length (handles s)), s1)" by blast
    from reach [OF this] ok left_data(1) [of w pc "length (handles s)" s1] show ?thesis by simp
  qed
  show "files (snd (snd E)) (control_temp w) \<noteq> None"
    if "\<not> isl (fst (CreateTemp w ''melange-data-*.tar.gz'' s))"
      and "fault w (CreateTempAt ''melange-control-*.tar.gz'') = None"
      and ok: "\<not> failed_with (fst E) before_control_temp"
  proof -
    from that(1) created obtain s1
      where "CreateTemp w ''melange-data-*.tar.gz'' s = (Inr (length (handles s)), s1)" by blast
    from reach [OF this] ok that(2) left_data(2) [of w pc "length (handles s)" s1] show ?thesis by simp
  qed
  show "files (snd (snd E)) (signature_temp w) \<noteq> None"
    if key: "SigningKey (Context pc) \<noteq> []" and ok: "\<not> failed_with (fst E) before_signature_segment"
  proof -
    from ok sub(2) have "\<not> failed_with (fst E) before_control_segment"
      by (blast intro: failed_with_mono)
    with early created obtain s1
      where "CreateTemp w ''melange-data-*.tar.gz'' s = (Inr (length (handles s)), s1)" by blast
    from reach [OF this] ok key left_data(3) [where w=w and pc=pc and d="length (handles s)" and s=s1] show ?thesis by simp
  qed
  show "files (snd (snd E)) (Filename pc) \<noteq> None"
    if ok: "\<not> failed_with (fst E) before_output_file"
  proof -
    from ok sub(2,3) have "\<not> failed_with (fst E) before_control_segment"
      by (blast intro: failed_with_mono)
    with early created obtain s1
      where "CreateTemp w ''melange-data-*.tar.gz'' s = (Inr (length (handles s)), s1)" by blast
    from reach [OF this] ok left_data(4) [of w pc "length (handles s)" s1] show ?thesis by simp
  qed
qed

subsection \<open>Runs of the sample build\<close>

lemma tiny_signed_ok:
  "fst (EmitPackage tiny_world (sample_pc ''aarch64'' ''/keys/melange.rsa'') no_files) = None"
  by code_simp

lemma tiny_unsigned_ok:
  "fst (EmitPackage tiny_world (sample_pc ''aarch64'' []) no_files) = None"
  by code_simp

lemma full_disk_run:
  "(case EmitPackage full_disk_world (sample_pc ''aarch64'' ''/keys/melange.rsa'') no_files of
      (r, pc', s') \<Rightarrow> (r, files s' ''packages/aarch64/foo-1.0-r3.apk'')) =
   (Some (Wrapped ''unable to write apk file'' (Err ''no space left on device'')),
    Some ''[.SIGN.RSA'')"
  by code_simp

lemma tiny_signed_signature:
  "files (snd (snd (EmitPackage tiny_world (sample_pc ''aarch64'' ''/keys/melange.rsa'') no_files)))
     ''/tmp/melange-signature-4711.tar.gz'' = Some ''[.SIGN.RSA.melange.rsa.pub:signed<[.P>]''"
  by code_simp

lemma tiny_signature_temp: "signature_temp tiny_world = ''/tmp/melange-signature-4711.tar.gz''"
  by code_simp

lemma sample_Filename: "Filename (sample_pc ''aarch64'' key) = ''packages/aarch64/foo-1.0-r3.apk''"
  by (simp add: sample_pc_def Subpackage_context_def sample_context_def sample_package_def
      Filename_def Identity_def decimal.simps Join_def Clean_def clean_elem_def)

lemma sample_key: "SigningKey (Context (sample_pc arch key)) = key"
  by (simp add: sample_pc_def Subpackage_context_def sample_context_def)

lemma full_disk_temp_created:
  "\<not> isl (fst (CreateTemp full_disk_world ''melange-data-*.tar.gz'' no_files))"
  by code_simp

lemma sample_sizing:
  "sizing sample_world (sample_pc ''x86_64'' []) =
     (None, (sample_pc ''x86_64'' [])\<lparr>InstalledSize := 12348\<rparr>)"
  by code_simp

lemma sample_regular_size:
  "spec_installed_size (walkdir sample_world (WorkspaceSubdir (sample_pc ''x86_64'' []))) = 60"
  by code_simp

lemma control_record_datahash:
  "\<exists>body. GenerateControlData pc = body @ ''\<newline>datahash = '' @ DataHash pc @ ''\<newline>''"
proof -
  define body where "body = ''\<newline># Generated by melange.''
     @ ''\<newline>pkgname = '' @ PackageName pc
     @ ''\<newline>pkgver = '' @ Version (Origin pc) @ ''-r'' @ decimal (Epoch (Origin pc))
     @ ''\<newline>arch = x86_64''
     @ ''\<newline>size = '' @ decimal_int (sint (InstalledSize pc))
     @ ''\<newline>pkgdesc = '' @ Description (Origin pc)
     @ concat (map (\<lambda>copyright. ''\<newline>license = '' @ License copyright) (Copyrights (Origin pc)))
     @ concat (map (\<lambda>dep. ''\<newline>depend = '' @ dep) (Runtime (pc_Dependencies pc)))
     @ concat (map (\<lambda>dep. ''\<newline>provides = '' @ dep) (Provides (pc_Dependencies pc)))"
  have "GenerateControlData pc = body @ ''\<newline>datahash = '' @ DataHash pc @ ''\<newline>''"
    unfolding GenerateControlData_def body_def by (simp only: append_assoc)
  then show ?thesis by (rule exI [of _ body])
qed

subsection \<open>The emitted package\<close>



text \<open>
  C4.  When \<^verbatim>\<open>EmitPackage\<close> returns no error, \<^verbatim>\<open>DataHash\<close> is the hexadecimal SHA-256 digest
  of exactly the bytes that the data segment's file holds, the control segment is the
  archive of the single file \<^verbatim>\<open>.PKGINFO\<close> rendered from the context that already carries this
  hash, and the rendered record ends with the line \<^verbatim>\<open>datahash = <that digest>\<close>.
\<close>

theorem datahash_binding:
  assumes "fst (EmitPackage w pc s) = None"
  shows "let pc' = fst (snd (EmitPackage w pc s)); s' = snd (snd (EmitPackage w pc s)) in
           files s' (data_temp w) = Some (data_segment w pc') \<and>
           DataHash pc' = EncodeToString (sha256_Sum w (contents s' (data_temp w))) \<and>
           files s' (control_temp w) =
             Some (concat (fst (WriteArchive_chunks w (multitarctx pc')
               (MemFS [(''.PKGINFO'', GenerateControlData pc', 420)])))) \<and>
           (\<exists>body. GenerateControlData pc' =
              body @ ''\<newline>datahash = ''
                @ EncodeToString (sha256_Sum w (contents s' (data_temp w))) @ ''\<newline>'')"
proof -
  note ok = EmitPackage_success [OF assms]
  note names = temp_names_distinct [of w] temp_not_Filename [of w pc]
    temp_names_distinct [of w, symmetric] temp_not_Filename [of w pc, symmetric]
  let ?s' = "snd (snd (EmitPackage w pc s))"
  have fl: "files ?s' (data_temp w) = Some (data_segment w pc) \<and>
            files ?s' (control_temp w) = Some (control_segment w (emitted w pc))"
  proof (cases "SigningKey (Context pc) = []")
    case True
    from ok(6) [OF True] names show ?thesis by simp
  next
    case False
    from ok(7) [OF False] have "files ?s' x =
             (if x = Filename pc then
                Some (signature_segment w (emitted w pc) @ control_segment w (emitted w pc)
                      @ data_segment w pc)
              else if x = signature_temp w then Some (signature_segment w (emitted w pc))
              else if x = control_temp w then Some (control_segment w (emitted w pc))
              else if x = data_temp w then Some (data_segment w pc)
              else files s x)" for x
      by blast
    with names show ?thesis by simp
  qed
  then have c: "contents ?s' (data_temp w) = data_segment w pc"
    by (simp add: contents_def)
  have hash: "DataHash (emitted w pc) = EncodeToString (sha256_Sum w (contents ?s' (data_temp w)))"
    by (simp add: emitted_frame c)
  from control_record_datahash [of "emitted w pc"]
  have "\<exists>body. GenerateControlData (emitted w pc) =
              body @ ''\<newline>datahash = ''
                @ EncodeToString (sha256_Sum w (contents ?s' (data_temp w))) @ ''\<newline>''"
    by (simp only: hash)
  with fl hash show ?thesis
    by (simp add: Let_def ok(3) emitted_same control_segment_def)
qed

theorem datahash_binding_witness:
  "(let pc = sample_pc ''aarch64'' ''/keys/melange.rsa'';
        pc' = fst (snd (EmitPackage tiny_world pc no_files));
        s' = snd (snd (EmitPackage tiny_world pc no_files))
    in fst (EmitPackage tiny_world pc no_files) = None \<and>
       DataHash pc' = EncodeToString (sha256_Sum tiny_world (contents s' (data_temp tiny_world))) \<and>
       files s' (data_temp tiny_world) = Some (data_segment tiny_world pc'))"
  using datahash_binding [OF tiny_signed_ok] tiny_signed_ok
  by (simp add: Let_def)

text \<open>
  C7 (as amended).  When a signing key is configured and \<^verbatim>\<open>EmitPackage\<close> returns no error,
  the signature segment is the archive of a filesystem with exactly one entry, named
  \<^verbatim>\<open>.SIGN.RSA.<base name of the signing-key path>.pub\<close>: the name is made from the path
  of the configured signing key, the private key, with \<^verbatim>\<open>.pub\<close> appended, and from no
  public-key file.  Its contents are the bytes the signer returned for the SHA-1 digest
  of the control segment.
\<close>

theorem signature_entry:
  assumes "fst (EmitPackage w pc s) = None" and "SigningKey (Context pc) \<noteq> []"
  shows "let pc' = fst (snd (EmitPackage w pc s)); s' = snd (snd (EmitPackage w pc s)) in
           \<exists>signatureBuf.
             RSASignSHA1Digest w (sha1_Sum w (contents s' (control_temp w)))
               (SigningKey (Context pc)) (SigningPassphrase (Context pc)) = Inr signatureBuf \<and>
             files s' (signature_temp w) =
               Some (concat (fst (WriteArchive_chunks w (multitarctx pc')
                 (MemFS [(''.SIGN.RSA.'' @ Base (SigningKey (Context pc)) @ ''.pub'',
                          signatureBuf, 420)]))))"
proof -
  note ok = EmitPackage_success [OF assms(1)]
  note names = temp_names_distinct [of w] temp_not_Filename [of w pc]
    temp_names_distinct [of w, symmetric] temp_not_Filename [of w pc, symmetric]
  let ?s' = "snd (snd (EmitPackage w pc s))"
  let ?pc' = "emitted w pc"
  from ok(7) [OF assms(2)] have sig: "\<not> isl (signature_of w ?pc')"
    and fl: "files ?s' x =
             (if x = Filename pc then
                Some (signature_segment w ?pc' @ control_segment w ?pc' @ data_segment w pc)
              else if x = signature_temp w then Some (signature_segment w ?pc')
              else if x = control_temp w then Some (control_segment w ?pc')
              else if x = data_temp w then Some (data_segment w pc)
              else files s x)" for x
    by blast+
  from sig obtain signatureBuf where so: "signature_of w ?pc' = Inr signatureBuf"
    by (cases "signature_of w ?pc'") auto
  from fl names have c: "contents ?s' (control_temp w) = control_segment w ?pc'"
    by (simp add: contents_def)
  from so have call: "RSASignSHA1Digest w (sha1_Sum w (contents ?s' (control_temp w)))
               (SigningKey (Context pc)) (SigningPassphrase (Context pc)) = Inr signatureBuf"
    by (simp add: signature_of_def c emitted_frame)
  from fl names so have seg: "files ?s' (signature_temp w) =
               Some (concat (fst (WriteArchive_chunks w (multitarctx ?pc')
                 (MemFS [(''.SIGN.RSA.'' @ Base (SigningKey (Context pc)) @ ''.pub'',
                          signatureBuf, 420)]))))"
    by (simp add: signature_segment_def SignatureName_def emitted_frame)
  from call seg show ?thesis
    by (simp only: Let_def ok(3)) blast
qed

theorem signature_entry_witness:
  "(let pc = sample_pc ''aarch64'' ''/keys/melange.rsa'';
        pc' = fst (snd (EmitPackage tiny_world pc no_files));
        s' = snd (snd (EmitPackage tiny_world pc no_files))
    in fst (EmitPackage tiny_world pc no_files) = None \<and>
       SigningKey (Context pc) = ''/keys/melange.rsa'' \<and>
       (\<exists>signatureBuf.
          RSASignSHA1Digest tiny_world (sha1_Sum tiny_world (contents s' (control_temp tiny_world)))
            ''/keys/melange.rsa'' [] = Inr signatureBuf \<and>
          files s' (signature_temp tiny_world) =
            Some (concat (fst (WriteArchive_chunks tiny_world (multitarctx pc')
              (MemFS [(''.SIGN.RSA.melange.rsa.pub'', signatureBuf, 420)]))))))"
proof -
  let ?pc = "sample_pc ''aarch64'' ''/keys/melange.rsa''"
  have key: "SigningKey (Context ?pc) \<noteq> []"
    by (simp add: sample_key)
  have base: "Base ''/keys/melange.rsa'' = ''melange.rsa''"
    by (simp add: Base_def)
  have pass: "SigningPassphrase (Context ?pc) = []"
    by (simp add: sample_pc_def Subpackage_context_def sample_context_def)
  from signature_entry [OF tiny_signed_ok key] tiny_signed_ok show ?thesis
    by (simp add: Let_def sample_key base pass)
qed

text \<open>
  C7 as stated fails: the entry is not named after the public-key file.  With the signing
  key \<^verbatim>\<open>/keys/melange.rsa\<close> and the public key beside it in \<^verbatim>\<open>/keys/melange.rsa.pub\<close>, the
  emission succeeds and the signature segment (the sample archive writer writes an entry
  as \<^verbatim>\<open>[name:contents]\<close>) holds the entry \<^verbatim>\<open>.SIGN.RSA.melange.rsa.pub\<close>, where the base name
  of the public-key file gives \<^verbatim>\<open>.SIGN.RSA.melange.rsa.pub.pub\<close>; with the keys
  \<^verbatim>\<open>/keys/private.pem\<close> and \<^verbatim>\<open>/keys/public.pem\<close>, the entry is named
  \<^verbatim>\<open>.SIGN.RSA.private.pem.pub\<close> and not \<^verbatim>\<open>.SIGN.RSA.public.pem.pub\<close>.
\<close>

theorem signature_name_counterexample:
  "fst (EmitPackage tiny_world (sample_pc ''aarch64'' ''/keys/melange.rsa'') no_files) = None \<and>
   files (snd (snd (EmitPackage tiny_world (sample_pc ''aarch64'' ''/keys/melange.rsa'') no_files)))
     (signature_temp tiny_world) = Some ''[.SIGN.RSA.melange.rsa.pub:signed<[.P>]'' \<and>
   SignatureName (sample_pc ''aarch64'' ''/keys/melange.rsa'') = ''.SIGN.RSA.melange.rsa.pub'' \<and>
   spec_SignatureName ''/keys/melange.rsa.pub'' = ''.SIGN.RSA.melange.rsa.pub.pub'' \<and>
   SignatureName (sample_pc ''aarch64'' ''/keys/melange.rsa'')
     \<noteq> spec_SignatureName ''/keys/melange.rsa.pub'' \<and>
   SignatureName (sample_pc ''aarch64'' ''/keys/private.pem'') = ''.SIGN.RSA.private.pem.pub'' \<and>
   spec_SignatureName ''/keys/public.pem'' = ''.SIGN.RSA.public.pem.pub'' \<and>
   SignatureName (sample_pc ''aarch64'' ''/keys/private.pem'')
     \<noteq> spec_SignatureName ''/keys/public.pem''"
proof -
  have names: "SignatureName (sample_pc ''aarch64'' ''/keys/melange.rsa'') = ''.SIGN.RSA.melange.rsa.pub''"
    "spec_SignatureName ''/keys/melange.rsa.pub'' = ''.SIGN.RSA.melange.rsa.pub.pub''"
    "SignatureName (sample_pc ''aarch64'' ''/keys/private.pem'') = ''.SIGN.RSA.private.pem.pub''"
    "spec_SignatureName ''/keys/public.pem'' = ''.SIGN.RSA.public.pem.pub''"
    by (simp_all add: SignatureName_def spec_SignatureName_def sample_key Base_def)
  from tiny_signed_ok tiny_signed_signature show ?thesis
    by (simp add: names tiny_signature_temp)
qed

text \<open>
  C6 (as amended).  On every exit path of \<^verbatim>\<open>EmitPackage\<close>, with or without an error, the
  handles that are open afterwards are those that were open before: every temporary
  segment and the output file have been closed.  No file is removed.  Whatever was in
  storage before is still there.  The data segment's temporary file is there once it was
  created.  The control segment's temporary file is there unless the emission failed
  before creating it: it is there whenever the returned error is none of those of the
  earlier steps, and also when the error is that of opening a temporary file, if the
  data segment's file was created and the creation of the control segment's file did not
  fail.  With a signing key, the signature segment's temporary file is there unless the
  returned error is that of a step up to its creation.  The output file is there unless
  the returned error is that of a step up to its creation.
\<close>

theorem handles_released_files_kept:
  "(let r = fst (EmitPackage w pc s); s' = snd (snd (EmitPackage w pc s)) in
      open_handles s' = open_handles s \<and>
      (\<forall>x. files s x \<noteq> None \<longrightarrow> files s' x \<noteq> None) \<and>
      (\<not> isl (fst (CreateTemp w ''melange-data-*.tar.gz'' s)) \<longrightarrow>
         files s' (data_temp w) \<noteq> None) \<and>
      (\<not> failed_with r before_control_segment \<longrightarrow> files s' (control_temp w) \<noteq> None) \<and>
      (\<not> isl (fst (CreateTemp w ''melange-data-*.tar.gz'' s)) \<and>
       fault w (CreateTempAt ''melange-control-*.tar.gz'') = None \<and>
       \<not> failed_with r before_control_temp \<longrightarrow> files s' (control_temp w) \<noteq> None) \<and>
      (SigningKey (Context pc) \<noteq> [] \<and> \<not> failed_with r before_signature_segment \<longrightarrow>
         files s' (signature_temp w) \<noteq> None) \<and>
      (\<not> failed_with r before_output_file \<longrightarrow> files s' (Filename pc) \<noteq> None))"
proof -
  let ?s' = "snd (snd (EmitPackage w pc s))"
  have rel: "released s ?s'" by (rule released_EmitPackage)
  then have h: "open_handles ?s' = open_handles s" by (rule released_open_handles)
  from rel have f: "\<forall>x. files s x \<noteq> None \<longrightarrow> files ?s' x \<noteq> None"
    by (simp add: released_def)
  note d = data_temp_remains [where w = w and s = s and pc = pc]
  note l = left_EmitPackage [where w = w and pc = pc and s = s]
  from h f d l show ?thesis
    unfolding Let_def by blast
qed

theorem handles_released_files_kept_witness:
  "(let pc = sample_pc ''aarch64'' ''/keys/melange.rsa'';
        r = fst (EmitPackage full_disk_world pc no_files);
        s' = snd (snd (EmitPackage full_disk_world pc no_files))
    in r = Some (Wrapped ''unable to write apk file'' (Err ''no space left on device'')) \<and>
       \<not> isl (fst (CreateTemp full_disk_world ''melange-data-*.tar.gz'' no_files)) \<and>
       fault full_disk_world (CreateTempAt ''melange-control-*.tar.gz'') = None \<and>
       SigningKey (Context pc) = ''/keys/melange.rsa'' \<and>
       \<not> failed_with r before_control_temp \<and>
       \<not> failed_with r before_control_segment \<and>
       \<not> failed_with r before_signature_segment \<and>
       \<not> failed_with r before_output_file \<and>
       open_handles s' = open_handles no_files \<and>
       files s' (data_temp full_disk_world) \<noteq> None \<and>
       files s' (control_temp full_disk_world) \<noteq> None \<and>
       files s' (signature_temp full_disk_world) \<noteq> None \<and>
       files s' (Filename pc) \<noteq> None)"
proof -
  let ?pc = "sample_pc ''aarch64'' ''/keys/melange.rsa''"
  let ?r = "EmitPackage full_disk_world ?pc no_files"
  from full_disk_run
  have failed: "fst ?r = Some (Wrapped ''unable to write apk file'' (Err ''no space left on device''))"
    by (cases ?r) simp
  have nofault: "fault full_disk_world (CreateTempAt ''melange-control-*.tar.gz'') = None"
    by (simp add: full_disk_world_def tiny_world_def sample_world_def)
  have key: "SigningKey (Context ?pc) = ''/keys/melange.rsa''"
    by (simp add: sample_key)
  have n1: "\<not> failed_with (fst ?r) before_control_temp"
    and n2: "\<not> failed_with (fst ?r) before_control_segment"
    and n3: "\<not> failed_with (fst ?r) before_signature_segment"
    and n4: "\<not> failed_with (fst ?r) before_output_file"
    by (simp_all add: failed before_control_temp_def before_control_segment_def
        before_signature_segment_def before_output_file_def)
  from key have key': "SigningKey (Context ?pc) \<noteq> []" by simp
  from handles_released_files_kept [where w = full_disk_world and pc = ?pc and s = no_files]
    full_disk_temp_created nofault key' n1 n2 n3 n4
  have "open_handles (snd (snd ?r)) = open_handles no_files"
    and "files (snd (snd ?r)) (data_temp full_disk_world) \<noteq> None"
    and "files (snd (snd ?r)) (control_temp full_disk_world) \<noteq> None"
    and "files (snd (snd ?r)) (signature_temp full_disk_world) \<noteq> None"
    and "files (snd (snd ?r)) (Filename ?pc) \<noteq> None"
    unfolding Let_def by blast+
  with failed full_disk_temp_created nofault key n1 n2 n3 n4 show ?thesis
    unfolding Let_def by blast
qed


text \<open>
  C6 as stated fails: on a disk where the output file cannot grow beyond ten bytes, the
  emission returns an error, the first ten bytes of the archive are left at the output
  path, and the data segment's temporary file is still in temporary storage.
\<close>

theorem cleanup_counterexample:
  "fst (EmitPackage full_disk_world (sample_pc ''aarch64'' ''/keys/melange.rsa'') no_files) =
     Some (Wrapped ''unable to write apk file'' (Err ''no space left on device'')) \<and>
   files (snd (snd (EmitPackage full_disk_world
       (sample_pc ''aarch64'' ''/keys/melange.rsa'') no_files)))
     (Filename (sample_pc ''aarch64'' ''/keys/melange.rsa'')) = Some ''[.SIGN.RSA'' \<and>
   files (snd (snd (EmitPackage full_disk_world
       (sample_pc ''aarch64'' ''/keys/melange.rsa'') no_files))) (data_temp full_disk_world) \<noteq> None"
proof -
  let ?r = "EmitPackage full_disk_world (sample_pc ''aarch64'' ''/keys/melange.rsa'') no_files"
  from full_disk_run have "fst ?r = Some (Wrapped ''unable to write apk file'' (Err ''no space left on device''))"
    and "files (snd (snd ?r)) ''packages/aarch64/foo-1.0-r3.apk'' = Some ''[.SIGN.RSA''"
    by (cases ?r; simp)+
  with data_temp_remains [OF full_disk_temp_created, of "sample_pc ''aarch64'' ''/keys/melange.rsa''"]
  show ?thesis by (simp add: sample_Filename)
qed

text \<open>
  C2 (as amended).  When the sizing walk returns no error, \<^verbatim>\<open>InstalledSize\<close> is its value
  before plus the 64-bit sum of the sizes of all entries visited, directories and other
  non-regular entries included; and this is the \<^verbatim>\<open>InstalledSize\<close> of the context when
  \<^verbatim>\<open>EmitPackage\<close> returns no error.
\<close>

theorem installed_size_all_entries:
  "(fst (sizing w pc) = None \<longrightarrow>
      InstalledSize (snd (sizing w pc)) =
        InstalledSize pc + entries_size (walkdir w (WorkspaceSubdir pc))) \<and>
   (fst (EmitPackage w pc s) = None \<longrightarrow>
      InstalledSize (fst (snd (EmitPackage w pc s))) =
        InstalledSize pc + entries_size (walkdir w (WorkspaceSubdir pc)))"
proof (intro conjI impI)
  show one: "InstalledSize (snd (sizing w pc)) =
        InstalledSize pc + entries_size (walkdir w (WorkspaceSubdir pc))"
    if "fst (sizing w pc) = None"
    using that unfolding sizing_def by (rule WalkDir_size_sum)
  assume ok: "fst (EmitPackage w pc s) = None"
  note e = EmitPackage_success [OF ok]
  from one [OF e(1)] show "InstalledSize (fst (snd (EmitPackage w pc s))) =
        InstalledSize pc + entries_size (walkdir w (WorkspaceSubdir pc))"
    by (simp add: e(3) emitted_frame)
qed

theorem installed_size_all_entries_witness:
  "fst (sizing sample_world (sample_pc ''x86_64'' [])) = None \<and>
   InstalledSize (snd (sizing sample_world (sample_pc ''x86_64'' []))) =
     InstalledSize (sample_pc ''x86_64'' []) +
       entries_size (walkdir sample_world (WorkspaceSubdir (sample_pc ''x86_64'' []))) \<and>
   fst (EmitPackage tiny_world (sample_pc ''aarch64'' []) no_files) = None \<and>
   InstalledSize (fst (snd (EmitPackage tiny_world (sample_pc ''aarch64'' []) no_files))) =
     InstalledSize (sample_pc ''aarch64'' []) +
       entries_size (walkdir tiny_world (WorkspaceSubdir (sample_pc ''aarch64'' [])))"
proof -
  have ok: "fst (sizing sample_world (sample_pc ''x86_64'' [])) = None"
    by (simp add: sample_sizing)
  from installed_size_all_entries [of sample_world "sample_pc ''x86_64'' []" no_files] ok
  have one: "InstalledSize (snd (sizing sample_world (sample_pc ''x86_64'' []))) =
     InstalledSize (sample_pc ''x86_64'' []) +
       entries_size (walkdir sample_world (WorkspaceSubdir (sample_pc ''x86_64'' [])))"
    by blast
  from installed_size_all_entries [of tiny_world "sample_pc ''aarch64'' []" no_files] tiny_unsigned_ok
  have two: "InstalledSize (fst (snd (EmitPackage tiny_world (sample_pc ''aarch64'' []) no_files))) =
     InstalledSize (sample_pc ''aarch64'' []) +
       entries_size (walkdir tiny_world (WorkspaceSubdir (sample_pc ''aarch64'' [])))"
    by blast
  from ok one tiny_unsigned_ok two show ?thesis by blast
qed


text \<open>
  C2 as stated fails: in the sample tree the three directories report 4096 bytes each
  and the regular files 60 bytes together; the counter ends at 12348, not at 60.
\<close>

theorem installed_size_counterexample:
  "InstalledSize (snd (sizing sample_world (sample_pc ''x86_64'' []))) = 12348 \<and>
   spec_installed_size (walkdir sample_world (WorkspaceSubdir (sample_pc ''x86_64'' []))) = 60 \<and>
   InstalledSize (snd (sizing sample_world (sample_pc ''x86_64'' []))) \<noteq>
     spec_installed_size (walkdir sample_world (WorkspaceSubdir (sample_pc ''x86_64'' [])))"
  by (simp add: sample_sizing sample_regular_size)

text \<open>
  C10.  The rendered control record carries the line \<^verbatim>\<open>arch = x86_64\<close> right after the
  package name and version, and does not change with the configured architecture,
  whereas the output directory and the output file name are built from the configured
  architecture token.
\<close>

theorem control_arch_fixed:
  "(\<exists>rest. GenerateControlData pc =
      ''\<newline># Generated by melange.\<newline>pkgname = '' @ PackageName pc
      @ ''\<newline>pkgver = '' @ Version (Origin pc) @ ''-r'' @ decimal (Epoch (Origin pc))
      @ ''\<newline>arch = x86_64\<newline>'' @ rest) \<and>
   GenerateControlData (pc\<lparr>Context := (Context pc)\<lparr>Arch := arch\<rparr>\<rparr>) = GenerateControlData pc \<and>
   GenerateControlData (Subpackage_context (ctx\<lparr>Arch := arch\<rparr>) spkg) =
     GenerateControlData (Subpackage_context ctx spkg) \<and>
   OutDir (Subpackage_context ctx spkg) = Join [ctx_OutDir ctx, Arch ctx] \<and>
   Filename (Subpackage_context ctx spkg) =
     Join [ctx_OutDir ctx, Arch ctx] @ ''/'' @ Identity (Subpackage_context ctx spkg) @ ''.apk''"
proof (intro conjI)
  define rest where "rest = ''size = '' @ decimal_int (sint (InstalledSize pc))
     @ ''\<newline>pkgdesc = '' @ Description (Origin pc)
     @ concat (map (\<lambda>copyright. ''\<newline>license = '' @ License copyright) (Copyrights (Origin pc)))
     @ concat (map (\<lambda>dep. ''\<newline>depend = '' @ dep) (Runtime (pc_Dependencies pc)))
     @ concat (map (\<lambda>dep. ''\<newline>provides = '' @ dep) (Provides (pc_Dependencies pc)))
     @ ''\<newline>datahash = '' @ DataHash pc @ ''\<newline>''"
  have "GenerateControlData pc =
      ''\<newline># Generated by melange.\<newline>pkgname = '' @ PackageName pc
      @ ''\<newline>pkgver = '' @ Version (Origin pc) @ ''-r'' @ decimal (Epoch (Origin pc))
      @ ''\<newline>arch = x86_64\<newline>'' @ rest"
    by (simp add: GenerateControlData_def rest_def)
  then show "\<exists>rest. GenerateControlData pc =
      ''\<newline># Generated by melange.\<newline>pkgname = '' @ PackageName pc
      @ ''\<newline>pkgver = '' @ Version (Origin pc) @ ''-r'' @ decimal (Epoch (Origin pc))
      @ ''\<newline>arch = x86_64\<newline>'' @ rest"
    by (rule exI [of _ rest])
qed (simp_all add: GenerateControlData_def Subpackage_context_def Filename_def)

theorem control_arch_fixed_witness:
  "Filename (Subpackage_context (sample_context ''aarch64'' [])
       \<lparr>sub_Name = ''foo'', sub_Dependencies = pkg_Dependencies sample_package\<rparr>) =
     ''packages/aarch64/foo-1.0-r3.apk'' \<and>
   GenerateControlData (Subpackage_context (sample_context ''aarch64'' [])
       \<lparr>sub_Name = ''foo'', sub_Dependencies = pkg_Dependencies sample_package\<rparr>) =
     ''\<newline># Generated by melange.\<newline>pkgname = foo\<newline>pkgver = 1.0-r3\<newline>arch = x86_64\<newline>size = 0\<newline>pkgdesc = a sample\<newline>license = MIT\<newline>depend = so:libc.so.6\<newline>datahash = \<newline>''"
proof -
  let ?spkg = "\<lparr>sub_Name = ''foo'', sub_Dependencies = pkg_Dependencies sample_package\<rparr>"
  let ?ctx = "sample_context ''aarch64'' []"
  have j: "Join [ctx_OutDir ?ctx, Arch ?ctx] = ''packages/aarch64''"
    by code_simp
  have i: "Identity (Subpackage_context ?ctx ?spkg) = ''foo-1.0-r3''"
    by code_simp
  have g: "GenerateControlData (Subpackage_context ?ctx ?spkg) =
     ''\<newline># Generated by melange.\<newline>pkgname = foo\<newline>pkgver = 1.0-r3\<newline>arch = x86_64\<newline>size = 0\<newline>pkgdesc = a sample\<newline>license = MIT\<newline>depend = so:libc.so.6\<newline>datahash = \<newline>''"
    by code_simp
  from control_arch_fixed [of "Subpackage_context ?ctx ?spkg" "''aarch64''" ?ctx ?spkg] j i g
  show ?thesis by simp
qed

end
